theory Spec2Isabelle
  imports Main
begin

section \<open>JavaScript values\<close>

text \<open>
  The values of type \<^verbatim>\<open>any\<close> that the plugin handles (module state, configuration,
  event payloads) are plain data. An object is its list of own enumerable properties in
  insertion order; its keys are unique in JavaScript. Numbers are integers here, which is
  all that truthiness needs (\<^verbatim>\<open>0\<close> is falsy). Arrays are values without further
  properties.
\<close>

datatype jsval =
    JUndefined
  | JNull
  | JBool bool
  | JNum int
  | JStr string
  | JArr "jsval list"
  | JObj "(string \<times> jsval) list"

datatype error =
    AlreadyInstalled   \<comment> \<open>\<^verbatim>\<open>Error('XPlugin has already been installed')\<close>\<close>
  | NotInstalled       \<comment> \<open>\<^verbatim>\<open>Error("XPlugin must be installed before accessing it's API.")\<close>\<close>
  | InvalidOptions     \<comment> \<open>thrown by \<^verbatim>\<open>assertXPluginOptionsAreValid\<close>\<close>
  | TypeError          \<comment> \<open>the run-time's own: a property of undefined, a call of a non-function\<close>
  | Thrown nat         \<comment> \<open>an exception raised by code outside the plugin\<close>
  | Unmodelled         \<comment> \<open>not an exception: the input lies outside the modelled fragment\<close>

text \<open>JavaScript's \<^verbatim>\<open>!!v\<close> and \<^verbatim>\<open>Boolean(v)\<close>.\<close>

fun truthy :: "jsval \<Rightarrow> bool" where
  "truthy JUndefined = False"
| "truthy JNull = False"
| "truthy (JBool b) = b"
| "truthy (JNum n) = (n \<noteq> 0)"
| "truthy (JStr s) = (s \<noteq> [])"
| "truthy (JArr xs) = True"
| "truthy (JObj fs) = True"

text \<open>\<^verbatim>\<open>obj[key]\<close> on an object's properties: \<^verbatim>\<open>undefined\<close> when the key is absent.\<close>

definition getProp :: "(string \<times> jsval) list \<Rightarrow> string \<Rightarrow> jsval" where
  "getProp fs key = (case map_of fs key of None \<Rightarrow> JUndefined | Some v \<Rightarrow> v)"

text \<open>
  \<^verbatim>\<open>obj[key] = v\<close>: an existing key keeps its place in the enumeration order, a new key
  goes last.
\<close>

fun setProp :: "string \<Rightarrow> 'a \<Rightarrow> (string \<times> 'a) list \<Rightarrow> (string \<times> 'a) list" where
  "setProp key v [] = [(key, v)]"
| "setProp key v (p # ps) = (if fst p = key then (key, v) # ps else p # setProp key v ps)"

text \<open>
  \<^verbatim>\<open>v.key\<close> for a key that no primitive and no array has of its own (such as
  \<^verbatim>\<open>config\<close>): a \<^verbatim>\<open>TypeError\<close> on \<^verbatim>\<open>undefined\<close> and \<^verbatim>\<open>null\<close>.
\<close>

fun readProp :: "jsval \<Rightarrow> string \<Rightarrow> error + jsval" where
  "readProp JUndefined key = Inl TypeError"
| "readProp JNull key = Inl TypeError"
| "readProp (JObj fs) key = Inr (getProp fs key)"
| "readProp v key = Inr JUndefined"

section \<open>Deep merge\<close>

text \<open>
  Modelled from the spec: \<^verbatim>\<open>deepMerge\<close> of the package \<^verbatim>\<open>@empathybroker/deep-merge\<close>,
  which is not among the sources. The spec: a partial update is deep-merged into the
  target in place; fields not mentioned in the update are preserved and only the fields
  present in the update are overwritten, at arbitrary nesting depth; overrides take
  precedence on conflicting keys and are deep-merged otherwise; array-type leaves are
  replaced rather than concatenated.

  \<open>deepMergeFields target source\<close> merges the properties of one source object into the
  properties of the target object: an object-valued property is merged into the target's
  property of that key (into a new object when the target has no object there), every
  other value replaces the target's.
\<close>

function deepMergeFields ::
  "(string \<times> jsval) list \<Rightarrow> (string \<times> jsval) list \<Rightarrow> (string \<times> jsval) list" where
  "deepMergeFields target [] = target"
| "deepMergeFields target ((key, JObj vs) # source) =
     deepMergeFields
       (setProp key
          (JObj (deepMergeFields (case getProp target key of JObj ts \<Rightarrow> ts | _ \<Rightarrow> []) vs))
          target)
       source"
| "deepMergeFields target ((key, JUndefined) # source) =
     deepMergeFields (setProp key JUndefined target) source"
| "deepMergeFields target ((key, JNull) # source) =
     deepMergeFields (setProp key JNull target) source"
| "deepMergeFields target ((key, JBool b) # source) =
     deepMergeFields (setProp key (JBool b) target) source"
| "deepMergeFields target ((key, JNum n) # source) =
     deepMergeFields (setProp key (JNum n) target) source"
| "deepMergeFields target ((key, JStr s) # source) =
     deepMergeFields (setProp key (JStr s) target) source"
| "deepMergeFields target ((key, JArr xs) # source) =
     deepMergeFields (setProp key (JArr xs) target) source"
  by pat_completeness auto
termination
  by (relation "measure (\<lambda>(target, source). size_list (size_prod (\<lambda>k. 0) size) source)") auto

text \<open>
  \<open>deepMerge target sources\<close> is \<^verbatim>\<open>deepMerge(target, ...sources)\<close> on the contents of
  the target object: the sources are merged in from left to right; a source that is not
  an object (\<^verbatim>\<open>undefined\<close> for an option that was not given) contributes nothing.
\<close>

fun deepMerge :: "(string \<times> jsval) list \<Rightarrow> jsval list \<Rightarrow> (string \<times> jsval) list" where
  "deepMerge target [] = target"
| "deepMerge target (JObj fs # sources) = deepMerge (deepMergeFields target fs) sources"
| "deepMerge target (v # sources) = deepMerge target sources"


section \<open>The data of the plugin\<close>

text \<open>
  Objects that the code mutates or compares by identity live in stores indexed by
  addresses: the plugin instances, the store module descriptors, the reactive
  configuration objects and the Vuex stores. Data that is only read is a value. The
  contents of a configuration object are a value as well: the objects nested in it
  belong to it alone.
\<close>

type_synonym addr = nat
type_synonym event = string

text \<open>
  A wire is a function \<^verbatim>\<open>(observable, store) => void\<close> of a feature package: its
  identity, and what an invocation does besides subscribing: it returns, or it throws
  an exception of its own, \<open>Thrown e\<close>.
\<close>

datatype wire = Wire nat "nat option"

type_synonym wires = "(string \<times> wire) list"
type_synonym wiringDict = "(event \<times> wires) list"

text \<open>
  The safe getters proxy of a module, by the arguments it is made from: the store
  whose getters it reads, the module name and the store module.
\<close>

datatype gettersProxy = GettersProxy addr string addr

type_synonym selectorFn = "jsval \<Rightarrow> gettersProxy \<Rightarrow> jsval"

text \<open>
  A store emitter is either a bare selector function or an object
  \<^verbatim>\<open>{ selector, immediate?, isDifferent?, ...options }\<close>.
\<close>

record stateSelectorObj =
  selector :: selectorFn
  immediate :: "bool option"
  isDifferent :: "(jsval \<Rightarrow> jsval \<Rightarrow> bool) option"
  watchOptions :: "(string \<times> jsval) list"

datatype anyStateSelector =
    SimpleStateSelector selectorFn
  | StateSelector stateSelectorObj

type_synonym storeEmittersDict = "(event \<times> anyStateSelector) list"

text \<open>
  A Vuex module descriptor, \<^verbatim>\<open>Module<any, any>\<close>: every field is optional; the state is
  any value or a function returning it; the mutation tree maps names to functions, of
  which the one that \<^verbatim>\<open>getDefaultSetConfigMutation\<close> returns is told apart.
\<close>

datatype mutation = DefaultSetConfig | Mutation nat

datatype stateDecl =
    StateFn jsval    \<comment> \<open>\<^verbatim>\<open>() => v\<close>\<close>
  | StateVal jsval   \<comment> \<open>a value that is not a function; \<^verbatim>\<open>undefined\<close> when absent\<close>

record storeModule =
  namespaced :: "bool option"
  state :: stateDecl
  getters :: "(string \<times> nat) list option"
  mutations :: "(string \<times> mutation) list option"
  actions :: "(string \<times> nat) list option"

text \<open>\<^verbatim>\<open>AnyXStoreModuleOptions\<close>: the overrides of a store module.\<close>

record storeModuleOptions =
  stateOptions :: jsval
  gettersOptions :: "(string \<times> nat) list option"
  mutationsOptions :: "(string \<times> mutation) list option"
  actionsOptions :: "(string \<times> nat) list option"

text \<open>\<^verbatim>\<open>AnyXModule\<close>; the store module is a reference to the descriptor object.\<close>

record xModule =
  name :: string
  wiring :: wiringDict
  storeModule :: addr
  storeEmitters :: storeEmittersDict

text \<open>\<^verbatim>\<open>XModuleOptions\<close>: the overrides of one module in the install options.\<close>

record xModuleOptions =
  wiringOptions :: "wiringDict option"
  storeModuleOptions :: "storeModuleOptions option"
  storeEmittersOptions :: "storeEmittersDict option"

text \<open>
  A search adapter: its identity, and whether it has the optional method
  \<^verbatim>\<open>addConfigChangedListener\<close>.
\<close>

record searchAdapter =
  adapterId :: nat
  addConfigChangedListener :: bool

text \<open>
  \<^verbatim>\<open>XPluginOptions\<close> as \<^verbatim>\<open>install\<close> may receive them: the adapter can be missing
  until \<^verbatim>\<open>assertXPluginOptionsAreValid\<close> has passed.
\<close>

record xPluginOptions =
  adapterOption :: "searchAdapter option"
  storeOption :: "addr option"
  configOption :: jsval
  xModulesOption :: "(string \<times> xModuleOptions) list option"

text \<open>The fields of an \<^verbatim>\<open>XPlugin\<close> instance; those declared with \<^verbatim>\<open>!\<close> start undefined.\<close>

record xPlugin =
  bus :: addr
  adapter :: "searchAdapter option"
  installedXModules :: "string set"
  isInstalled :: bool
  options :: "xPluginOptions option"
  store :: "addr option"
  vue :: "addr option"
  xConfig :: "addr option"

text \<open>
  What \<^verbatim>\<open>store.watch(getter, callback, options)\<close> receives in \<^verbatim>\<open>registerStoreEmitters\<close>:
  the variables that the two arrow functions close over, and the options.
\<close>

record watcher =
  watchThis :: addr
  watchName :: string
  watchEvent :: event
  watchSelector :: selectorFn
  watchGetters :: gettersProxy
  watchIsDifferent :: "jsval \<Rightarrow> jsval \<Rightarrow> bool"
  watchOpts :: "(string \<times> jsval) list"

text \<open>
  The callback handed to \<^verbatim>\<open>Promise.resolve().then\<close> for an immediate emitter, by the
  variables it closes over.
\<close>

record microtask =
  taskThis :: addr
  taskName :: string
  taskEvent :: event
  taskSelector :: selectorFn
  taskGetters :: gettersProxy

datatype moduleRef = RootXStoreModule | StoreModuleAt addr

text \<open>
  A Vuex store as the plugin uses it: the \<^verbatim>\<open>registerModule\<close> calls it received (path
  and module), the state of the modules under \<^verbatim>\<open>state.x\<close>, and the watchers.
\<close>

record vuexStore =
  registered :: "(string list \<times> moduleRef) list"
  xState :: "(string \<times> jsval) list"
  watchers :: "watcher list"

datatype metadata = Metadata string   \<comment> \<open>\<^verbatim>\<open>{ moduleName }\<close>\<close>

text \<open>An emission on a bus: the bus, the event, the payload and the metadata, if any.\<close>

type_synonym emission = "addr \<times> event \<times> jsval \<times> metadata option"

text \<open>The calls that a \<^verbatim>\<open>VueConstructor\<close> receives from the plugin.\<close>

datatype vueCall =
    UseVuex                      \<comment> \<open>\<^verbatim>\<open>vue.use(Vuex)\<close>\<close>
  | SetPrototypeStore addr       \<comment> \<open>\<^verbatim>\<open>vue.prototype.$store = store\<close>\<close>
  | Mixin addr "addr option"     \<comment> \<open>\<^verbatim>\<open>vue.mixin(createXComponentAPIMixin(bus, xConfig))\<close>\<close>
  | Filter string nat            \<comment> \<open>\<^verbatim>\<open>vue.filter(filterName, filterFunction)\<close>\<close>

text \<open>The calls into Vue and Vuex that may throw.\<close>

datatype extCall = VueUse | VueMixin | VueFilter | StoreRegisterModule

text \<open>
  The state of the program: the two static fields of \<^verbatim>\<open>XPlugin\<close>, the stores of
  objects with the next unused address, what the collaborators have received (bus
  emissions, wire invocations, microtasks, calls on Vue, adapter listeners), which of
  the collaborators' calls throw (and the exception \<open>Thrown e\<close> they throw), and the
  two module constants that are not among the sources.
\<close>

record world =
  staticInstance :: "addr option"
  pendingXModules :: "(string \<times> xModule) list"
  plugins :: "addr \<Rightarrow> xPlugin"
  storeModules :: "addr \<Rightarrow> storeModule"
  configs :: "addr \<Rightarrow> (string \<times> jsval) list"
  stores :: "addr \<Rightarrow> vuexStore"
  fresh :: addr
  emitted :: "emission list"
  wired :: "(addr \<times> event \<times> string \<times> nat \<times> addr option) list"
  microtasks :: "microtask list"
  vueCalls :: "(addr \<times> vueCall) list"
  adapterListeners :: "(nat \<times> addr) list"
  faults :: "extCall \<Rightarrow> nat option"
  DEFAULT_X_CONFIG :: jsval
  FILTERS_REGISTRY :: "(string \<times> nat) list"

text \<open>
  A method returning \<^verbatim>\<open>void\<close> yields the exception it threw, if any, and the state it
  left: an exception does not undo the assignments made before it.
\<close>

type_synonym outcome = "error option \<times> world"

definition andThen :: "outcome \<Rightarrow> (world \<Rightarrow> outcome) \<Rightarrow> outcome" where
  "andThen r f = (case r of (None, w) \<Rightarrow> f w | (Some e, w) \<Rightarrow> (Some e, w))"

text \<open>
  Modelled from the spec: \<^verbatim>\<open>forEach\<close> of \<^verbatim>\<open>../utils\<close>, which is not among the sources:
  the callback is run for every (key, value) pair of the dictionary, in its enumeration
  order; an exception in the callback ends the loop.
\<close>

fun forEach :: "('a \<Rightarrow> world \<Rightarrow> outcome) \<Rightarrow> 'a list \<Rightarrow> world \<Rightarrow> outcome" where
  "forEach f [] w = (None, w)"
| "forEach f (x # xs) w = andThen (f x w) (forEach f xs)"

definition updPlugin :: "addr \<Rightarrow> (xPlugin \<Rightarrow> xPlugin) \<Rightarrow> world \<Rightarrow> world" where
  "updPlugin this f w = w\<lparr>plugins := (plugins w)(this := f (plugins w this))\<rparr>"

definition updStore :: "addr \<Rightarrow> (vuexStore \<Rightarrow> vuexStore) \<Rightarrow> world \<Rightarrow> world" where
  "updStore st f w = w\<lparr>stores := (stores w)(st := f (stores w st))\<rparr>"

definition updStoreModule :: "addr \<Rightarrow> (storeModule \<Rightarrow> storeModule) \<Rightarrow> world \<Rightarrow> world" where
  "updStoreModule m f w = w\<lparr>storeModules := (storeModules w)(m := f (storeModules w m))\<rparr>"


section \<open>The collaborators\<close>

text \<open>
  Modelled from the spec: the event bus of \<^verbatim>\<open>./x-bus\<close>, which is not among the sources:
  \<^verbatim>\<open>emit(eventName, payload?, metadata?)\<close> delivers the payload to the current
  subscribers of the event. The model keeps the emissions of every bus, in order.
\<close>

definition busEmit :: "addr \<Rightarrow> event \<Rightarrow> jsval \<Rightarrow> metadata option \<Rightarrow> world \<Rightarrow> world" where
  "busEmit b ev payload md w = w\<lparr>emitted := emitted w @ [(b, ev, payload, md)]\<rparr>"

text \<open>
  A wire invoked with the observable \<^verbatim>\<open>bus.on(event, true)\<close> and the store: the
  invocation is recorded (the bus, the event, the key of the wire, the wire and the
  store), unless the wire throws.
\<close>

fun invokeWire :: "addr \<Rightarrow> event \<Rightarrow> addr option \<Rightarrow> string \<times> wire \<Rightarrow> world \<Rightarrow> outcome" where
  "invokeWire b ev st (key, Wire i (Some e)) w = (Some (Thrown e), w)"
| "invokeWire b ev st (key, Wire i None) w = (None, w\<lparr>wired := wired w @ [(b, ev, key, i, st)]\<rparr>)"

definition vueCall :: "extCall \<Rightarrow> addr \<Rightarrow> vueCall \<Rightarrow> world \<Rightarrow> outcome" where
  "vueCall kind v c w =
     (case faults w kind of
        Some e \<Rightarrow> (Some (Thrown e), w)
      | None \<Rightarrow> (None, w\<lparr>vueCalls := vueCalls w @ [(v, c)]\<rparr>))"

text \<open>
  Modelled from the spec: the store handle (Vuex, not among the sources), with
  \<^verbatim>\<open>registerModule(path, moduleDescriptor)\<close>, \<^verbatim>\<open>watch(selectorFn, callbackFn, options)\<close>
  and a state tree addressable by namespaced path. Registering a module under
  \<^verbatim>\<open>['x', name]\<close> puts its state (the result of the state function, or the state
  itself, or \<^verbatim>\<open>{}\<close> when that is falsy) at \<^verbatim>\<open>state.x[name]\<close>.
\<close>

definition initialState :: "storeModule \<Rightarrow> jsval" where
  "initialState m =
     (let v = (case state m of StateFn v \<Rightarrow> v | StateVal v \<Rightarrow> v)
      in if truthy v then v else JObj [])"

fun registerState :: "string list \<Rightarrow> moduleRef \<Rightarrow> world \<Rightarrow> vuexStore \<Rightarrow> vuexStore" where
  "registerState [root, n] (StoreModuleAt m) w s =
     s\<lparr>xState := setProp n (initialState (storeModules w m)) (xState s)\<rparr>"
| "registerState path m w s = s"

definition storeRegisterModule :: "addr \<Rightarrow> string list \<Rightarrow> moduleRef \<Rightarrow> world \<Rightarrow> outcome" where
  "storeRegisterModule st path m w =
     (case faults w StoreRegisterModule of
        Some e \<Rightarrow> (Some (Thrown e), w)
      | None \<Rightarrow>
          (None, updStore st
             (\<lambda>s. (registerState path m w s)\<lparr>registered := registered s @ [(path, m)]\<rparr>) w))"

definition storeWatch :: "addr \<Rightarrow> watcher \<Rightarrow> world \<Rightarrow> world" where
  "storeWatch st wt w = updStore st (\<lambda>s. s\<lparr>watchers := watchers s @ [wt]\<rparr>) w"

text \<open>\<^verbatim>\<open>new Store({ strict: ... })\<close>: a store without modules and watchers.\<close>

definition newStore :: "world \<Rightarrow> addr \<times> world" where
  "newStore w =
     (fresh w,
      w\<lparr>stores := (stores w)(fresh w := \<lparr>registered = [], xState = [], watchers = []\<rparr>),
        fresh := Suc (fresh w)\<rparr>)"

text \<open>
  Modelled from the spec: \<^verbatim>\<open>assertXPluginOptionsAreValid\<close> of \<^verbatim>\<open>./x-plugin.utils\<close>,
  which is not among the sources: it validates the install options and fails fast if
  the required adapter is absent.
\<close>

definition assertXPluginOptionsAreValid :: "xPluginOptions option \<Rightarrow> error + xPluginOptions" where
  "assertXPluginOptionsAreValid opts =
     (case opts of
        None \<Rightarrow> Inl InvalidOptions
      | Some os \<Rightarrow> (case adapterOption os of None \<Rightarrow> Inl InvalidOptions | Some a \<Rightarrow> Inr os))"

text \<open>
  Modelled from the spec: \<^verbatim>\<open>registerReactiveConfig\<close> of \<^verbatim>\<open>../services/config.service\<close>,
  which is not among the sources: it yields the live reactive config object, here the
  object with the merged contents at a new address.
\<close>

definition registerReactiveConfig :: "addr \<Rightarrow> (string \<times> jsval) list \<Rightarrow> world \<Rightarrow> addr \<times> world" where
  "registerReactiveConfig b config w =
     (fresh w, w\<lparr>configs := (configs w)(fresh w := config), fresh := Suc (fresh w)\<rparr>)"

text \<open>
  Modelled from the spec: \<^verbatim>\<open>getGettersProxyFromModule\<close> of
  \<^verbatim>\<open>../store/utils/get-getters-proxy\<close>, which is not among the sources: the proxy
  exposes only the getters belonging to this module.
\<close>

definition getGettersProxyFromModule :: "addr \<Rightarrow> string \<Rightarrow> addr \<Rightarrow> gettersProxy" where
  "getGettersProxyFromModule st n m = GettersProxy st n m"

section \<open>Deep merge of module overrides\<close>

text \<open>
  Modelled from the spec: \<^verbatim>\<open>deepMerge\<close> (see above) on dictionaries of functions and
  of dictionaries: the overrides take precedence on conflicting keys and are deep-merged
  otherwise. \<open>mergeDict m target source\<close> gives each key of the source the value
  \<open>m old v\<close>, where \<open>old\<close> is what the target has under the key.
\<close>

fun mergeDict ::
  "('v option \<Rightarrow> 'v \<Rightarrow> 'v) \<Rightarrow> (string \<times> 'v) list \<Rightarrow> (string \<times> 'v) list \<Rightarrow> (string \<times> 'v) list" where
  "mergeDict m target [] = target"
| "mergeDict m target ((key, v) # source) =
     mergeDict m (setProp key (m (map_of target key) v) target) source"

definition replaceLeaf :: "'v option \<Rightarrow> 'v \<Rightarrow> 'v" where
  "replaceLeaf old v = v"

definition mergeWires :: "wires option \<Rightarrow> wires \<Rightarrow> wires" where
  "mergeWires old ws = mergeDict replaceLeaf (case old of None \<Rightarrow> [] | Some t \<Rightarrow> t) ws"

text \<open>\<^verbatim>\<open>deepMerge({}, wiring, wiringOptions)\<close>.\<close>

definition mergeWiring :: "wiringDict \<Rightarrow> wiringDict \<Rightarrow> wiringDict" where
  "mergeWiring wr wo = mergeDict mergeWires (mergeDict mergeWires [] wr) wo"

fun mergeStateSelector :: "anyStateSelector option \<Rightarrow> anyStateSelector \<Rightarrow> anyStateSelector" where
  "mergeStateSelector old (SimpleStateSelector f) = SimpleStateSelector f"
| "mergeStateSelector (Some (StateSelector t)) (StateSelector s) =
     StateSelector
       \<lparr>selector = selector s,
        immediate = (case immediate s of None \<Rightarrow> immediate t | Some b \<Rightarrow> Some b),
        isDifferent = (case isDifferent s of None \<Rightarrow> isDifferent t | Some d \<Rightarrow> Some d),
        watchOptions = deepMergeFields (watchOptions t) (watchOptions s)\<rparr>"
| "mergeStateSelector old (StateSelector s) =
     StateSelector (s\<lparr>watchOptions := deepMergeFields [] (watchOptions s)\<rparr>)"

text \<open>\<^verbatim>\<open>deepMerge({}, storeEmitters, storeEmittersOptions)\<close>.\<close>

definition mergeStoreEmitters :: "storeEmittersDict \<Rightarrow> storeEmittersDict \<Rightarrow> storeEmittersDict" where
  "mergeStoreEmitters se so = mergeDict mergeStateSelector (mergeDict mergeStateSelector [] se) so"

fun mergeTree ::
  "(string \<times> 'v) list option \<Rightarrow> (string \<times> 'v) list option \<Rightarrow> (string \<times> 'v) list option" where
  "mergeTree None None = None"
| "mergeTree (Some t) None = Some (mergeDict replaceLeaf [] t)"
| "mergeTree None (Some s) = Some (mergeDict replaceLeaf [] s)"
| "mergeTree (Some t) (Some s) = Some (mergeDict replaceLeaf (mergeDict replaceLeaf [] t) s)"


section \<open>The class \<^verbatim>\<open>XPlugin\<close>\<close>

subsection \<open>Static members\<close>

text \<open>\<^verbatim>\<open>getInstance\<close>: the installed instance, or the error of an access before installation.\<close>

definition getInstance :: "world \<Rightarrow> error + addr" where
  "getInstance w = (case staticInstance w of None \<Rightarrow> Inl NotInstalled | Some i \<Rightarrow> Inr i)"

text \<open>The static getters \<^verbatim>\<open>adapter\<close>, \<^verbatim>\<open>bus\<close> and \<^verbatim>\<open>config\<close>.\<close>

definition staticAdapter :: "world \<Rightarrow> error + searchAdapter option" where
  "staticAdapter w = (case getInstance w of Inl e \<Rightarrow> Inl e | Inr i \<Rightarrow> Inr (adapter (plugins w i)))"

definition staticBus :: "world \<Rightarrow> error + addr" where
  "staticBus w = (case getInstance w of Inl e \<Rightarrow> Inl e | Inr i \<Rightarrow> Inr (bus (plugins w i)))"

definition staticConfig :: "world \<Rightarrow> error + addr option" where
  "staticConfig w = (case getInstance w of Inl e \<Rightarrow> Inl e | Inr i \<Rightarrow> Inr (xConfig (plugins w i)))"

text \<open>\<^verbatim>\<open>new XPlugin(bus)\<close>: the field initialisers and the constructor.\<close>

definition newXPlugin :: "addr \<Rightarrow> world \<Rightarrow> addr \<times> world" where
  "newXPlugin b w =
     (fresh w,
      w\<lparr>plugins := (plugins w)(fresh w :=
           \<lparr>bus = b, adapter = None, installedXModules = {}, isInstalled = False,
            options = None, store = None, vue = None, xConfig = None\<rparr>),
        fresh := Suc (fresh w)\<rparr>)"

definition resetInstance :: "world \<Rightarrow> world" where
  "resetInstance w = w\<lparr>staticInstance := None\<rparr>"

text \<open>\<^verbatim>\<open>this.pendingXModules[xModule.name] = xModule\<close>.\<close>

definition lazyRegisterXModule :: "xModule \<Rightarrow> world \<Rightarrow> world" where
  "lazyRegisterXModule xm w = w\<lparr>pendingXModules := setProp (name xm) xm (pendingXModules w)\<rparr>"

subsection \<open>Module options and the config mutation\<close>

text \<open>\<^verbatim>\<open>this.options.xModules?.[name]\<close>.\<close>

definition getModuleOptions :: "addr \<Rightarrow> string \<Rightarrow> world \<Rightarrow> error + xModuleOptions option" where
  "getModuleOptions this n w =
     (case options (plugins w this) of
        None \<Rightarrow> Inl TypeError
      | Some os \<Rightarrow> (case xModulesOption os of None \<Rightarrow> Inr None | Some xs \<Rightarrow> Inr (map_of xs n)))"

text \<open>
  \<^verbatim>\<open>typeof storeModule.state === 'function' ? !!storeModule.state().config
  : !!storeModule.state.config\<close>.
\<close>

definition hasModuleConfig :: "storeModule \<Rightarrow> error + bool" where
  "hasModuleConfig m =
     (case state m of
        StateFn v \<Rightarrow> (case readProp v ''config'' of Inl e \<Rightarrow> Inl e | Inr c \<Rightarrow> Inr (truthy c))
      | StateVal v \<Rightarrow> (case readProp v ''config'' of Inl e \<Rightarrow> Inl e | Inr c \<Rightarrow> Inr (truthy c)))"

definition getDefaultSetConfigMutation :: mutation where
  "getDefaultSetConfigMutation = DefaultSetConfig"

text \<open>
  \<^verbatim>\<open>Object.assign(target, source)\<close> on the properties of two plain objects: every
  property of the source is assigned to the target, the value as it is.
\<close>

definition objectAssign :: "(string \<times> jsval) list \<Rightarrow> (string \<times> jsval) list \<Rightarrow> (string \<times> jsval) list" where
  "objectAssign target source = foldl (\<lambda>t (k, v). setProp k v t) target source"

text \<open>
  The body of the default mutation, \<^verbatim>\<open>Object.assign(state.config, config)\<close>, for a
  payload that is a plain object; the result is the state after the mutation.
  \<^verbatim>\<open>Object.assign\<close> throws on \<^verbatim>\<open>undefined\<close> and \<^verbatim>\<open>null\<close>, and assigns to a
  wrapper that is thrown away when the target is a boolean or a number. A target that
  is a string or an array is not modelled.
\<close>

fun assignConfig :: "(string \<times> jsval) list \<Rightarrow> jsval \<Rightarrow> (string \<times> jsval) list \<Rightarrow> error + jsval" where
  "assignConfig fs (JObj c) config = Inr (JObj (setProp ''config'' (JObj (objectAssign c config)) fs))"
| "assignConfig fs JUndefined config = Inl TypeError"
| "assignConfig fs JNull config = Inl TypeError"
| "assignConfig fs (JBool b) config = Inr (JObj fs)"
| "assignConfig fs (JNum n) config = Inr (JObj fs)"
| "assignConfig fs (JStr s) config = Inl Unmodelled"
| "assignConfig fs (JArr xs) config = Inl Unmodelled"

fun defaultSetConfig :: "jsval \<Rightarrow> (string \<times> jsval) list \<Rightarrow> error + jsval" where
  "defaultSetConfig (JObj fs) config = assignConfig fs (getProp fs ''config'') config"
| "defaultSetConfig st config = Inl TypeError"

text \<open>
  Calling a mutation with a state and a payload: the default mutation has the body
  above; the mutations of the feature packages are functions without a model.
\<close>

fun callMutation :: "mutation \<Rightarrow> jsval \<Rightarrow> (string \<times> jsval) list \<Rightarrow> (error + jsval) option" where
  "callMutation DefaultSetConfig st config = Some (defaultSetConfig st config)"
| "callMutation (Mutation i) st config = None"

text \<open>
  \<^verbatim>\<open>addConfigMutation(storeModule)\<close> on the descriptor at address \<open>m\<close>. It returns its
  argument, which the caller does not use.
\<close>

definition addConfigMutation :: "addr \<Rightarrow> world \<Rightarrow> outcome" where
  "addConfigMutation m w =
     (case hasModuleConfig (storeModules w m) of
        Inl e \<Rightarrow> (Some e, w)
      | Inr False \<Rightarrow> (None, w)
      | Inr True \<Rightarrow>
          (case mutations (storeModules w m) of
             None \<Rightarrow>
               (None, updStoreModule m
                  (\<lambda>d. d\<lparr>mutations := Some [(''setConfig'', getDefaultSetConfigMutation)]\<rparr>) w)
           | Some moduleMutations \<Rightarrow>
               (case map_of moduleMutations ''setConfig'' of
                  None \<Rightarrow>
                    (None, updStoreModule m
                       (\<lambda>d. d\<lparr>mutations :=
                          Some (setProp ''setConfig'' getDefaultSetConfigMutation moduleMutations)\<rparr>) w)
                | Some f \<Rightarrow> (None, w))))"

text \<open>
  \<^verbatim>\<open>deepMerge(getState(), stateOptions)\<close>: Modelled from the spec (\<^verbatim>\<open>deepMerge\<close>, see
  above) for a target that may be no object: nothing is merged into it when the source
  has no property; a property cannot be set on \<^verbatim>\<open>undefined\<close> or \<^verbatim>\<open>null\<close>; other
  targets are not modelled.
\<close>

fun deepMergeInto :: "jsval \<Rightarrow> jsval \<Rightarrow> error + jsval" where
  "deepMergeInto (JObj t) src = Inr (JObj (deepMerge t [src]))"
| "deepMergeInto JUndefined (JObj (f # fs)) = Inl TypeError"
| "deepMergeInto JNull (JObj (f # fs)) = Inl TypeError"
| "deepMergeInto v (JObj (f # fs)) = Inl Unmodelled"
| "deepMergeInto v src = Inr v"

text \<open>
  \<^verbatim>\<open>customizeStoreModule\<close>: a new descriptor made of the default module's fields other
  than the state, merged with the options', and of the state that \<^verbatim>\<open>getState()\<close>
  returns, merged with the state options. The default module is not written to.
\<close>

definition customizeStoreModule :: "addr \<Rightarrow> storeModuleOptions \<Rightarrow> world \<Rightarrow> (error + addr) \<times> world" where
  "customizeStoreModule m mo w =
     (let d = storeModules w m in
      case state d of
        StateVal v \<Rightarrow> (Inl TypeError, w)
      | StateFn v \<Rightarrow>
          (case deepMergeInto v (stateOptions mo) of
             Inl e \<Rightarrow> (Inl e, w)
           | Inr st \<Rightarrow>
               (Inr (fresh w),
                w\<lparr>storeModules := (storeModules w)(fresh w :=
                     \<lparr>namespaced = namespaced d,
                      state = StateVal st,
                      getters = mergeTree (getters d) (gettersOptions mo),
                      mutations = mergeTree (mutations d) (mutationsOptions mo),
                      actions = mergeTree (actions d) (actionsOptions mo)\<rparr>),
                  fresh := Suc (fresh w)\<rparr>)))"

subsection \<open>Registration of a module\<close>

definition registerStoreModule :: "addr \<Rightarrow> string \<Rightarrow> addr \<Rightarrow> world \<Rightarrow> outcome" where
  "registerStoreModule this n m w =
     (case getModuleOptions this n w of
        Inl e \<Rightarrow> (Some e, w)
      | Inr xo \<Rightarrow>
          (case (case (case xo of None \<Rightarrow> None | Some opts \<Rightarrow> storeModuleOptions opts) of
                   Some so \<Rightarrow> customizeStoreModule m so w
                 | None \<Rightarrow> (Inr m, w)) of
             (Inl e, w1) \<Rightarrow> (Some e, w1)
           | (Inr customizedStoreModule, w1) \<Rightarrow>
               andThen
                 (addConfigMutation customizedStoreModule
                    (updStoreModule customizedStoreModule (\<lambda>d. d\<lparr>namespaced := Some True\<rparr>) w1))
                 (\<lambda>w2. case store (plugins w2 this) of
                          None \<Rightarrow> (Some TypeError, w2)
                        | Some st \<Rightarrow>
                            storeRegisterModule st [''x'', n] (StoreModuleAt customizedStoreModule) w2)))"

definition registerWiring :: "addr \<Rightarrow> string \<Rightarrow> wiringDict \<Rightarrow> world \<Rightarrow> outcome" where
  "registerWiring this n wr w =
     (case getModuleOptions this n w of
        Inl e \<Rightarrow> (Some e, w)
      | Inr xo \<Rightarrow>
          (let customizedWiring =
                 (case (case xo of None \<Rightarrow> None | Some opts \<Rightarrow> wiringOptions opts) of
                    Some wo \<Rightarrow> mergeWiring wr wo
                  | None \<Rightarrow> wr)
           in forEach
                (\<lambda>(ev, ws) w1.
                   forEach (\<lambda>kw w2. invokeWire (bus (plugins w2 this)) ev (store (plugins w2 this)) kw w2)
                     ws w1)
                customizedWiring w))"

text \<open>\<^verbatim>\<open>this.isSimpleSelector(stateSelector) ? { selector: stateSelector } : stateSelector\<close>.\<close>

fun isSimpleSelector :: "anyStateSelector \<Rightarrow> bool" where
  "isSimpleSelector (SimpleStateSelector f) = True"
| "isSimpleSelector (StateSelector s) = False"

fun asStateSelector :: "anyStateSelector \<Rightarrow> stateSelectorObj" where
  "asStateSelector (SimpleStateSelector f) =
     \<lparr>selector = f, immediate = None, isDifferent = None, watchOptions = []\<rparr>"
| "asStateSelector (StateSelector s) = s"

text \<open>
  The body of the loop of \<^verbatim>\<open>registerStoreEmitters\<close> for one entry: the destructuring
  with the defaults \<^verbatim>\<open>immediate = false\<close> and \<^verbatim>\<open>isDifferent = () => true\<close>, the
  \<^verbatim>\<open>store.watch\<close> call and, if \<^verbatim>\<open>immediate\<close>, the callback handed to
  \<^verbatim>\<open>Promise.resolve().then\<close>.
\<close>

definition registerStoreEmitter ::
  "addr \<Rightarrow> string \<Rightarrow> addr \<Rightarrow> gettersProxy \<Rightarrow> event \<times> anyStateSelector \<Rightarrow> world \<Rightarrow> world" where
  "registerStoreEmitter this n st safeGettersProxy entry w =
     (let s = asStateSelector (snd entry);
          immediate' = (case immediate s of None \<Rightarrow> False | Some b \<Rightarrow> b);
          isDifferent' = (case isDifferent s of None \<Rightarrow> (\<lambda>newValue oldValue. True) | Some d \<Rightarrow> d);
          w1 = storeWatch st
                 \<lparr>watchThis = this, watchName = n, watchEvent = fst entry,
                  watchSelector = selector s, watchGetters = safeGettersProxy,
                  watchIsDifferent = isDifferent', watchOpts = watchOptions s\<rparr> w
      in if immediate'
         then w1\<lparr>microtasks := microtasks w1 @
                  [\<lparr>taskThis = this, taskName = n, taskEvent = fst entry,
                    taskSelector = selector s, taskGetters = safeGettersProxy\<rparr>]\<rparr>
         else w1)"

definition registerStoreEmitters :: "addr \<Rightarrow> string \<Rightarrow> addr \<Rightarrow> storeEmittersDict \<Rightarrow> world \<Rightarrow> outcome" where
  "registerStoreEmitters this n m se w =
     (case getModuleOptions this n w of
        Inl e \<Rightarrow> (Some e, w)
      | Inr xo \<Rightarrow>
          (let customizedStoreEmitters =
                 (case (case xo of None \<Rightarrow> None | Some opts \<Rightarrow> storeEmittersOptions opts) of
                    Some so \<Rightarrow> mergeStoreEmitters se so
                  | None \<Rightarrow> se)
           in case store (plugins w this) of
                None \<Rightarrow> (Some TypeError, w)
              | Some st \<Rightarrow>
                  forEach
                    (\<lambda>entry w1.
                       (None, registerStoreEmitter this n st (getGettersProxyFromModule st n m) entry w1))
                    customizedStoreEmitters w))"

text \<open>The instance method \<^verbatim>\<open>registerXModule\<close>.\<close>

definition registerXModule :: "addr \<Rightarrow> xModule \<Rightarrow> world \<Rightarrow> outcome" where
  "registerXModule this xm w =
     (if name xm \<notin> installedXModules (plugins w this)
      then
        andThen (registerStoreModule this (name xm) (storeModule xm) w) (\<lambda>w1.
        andThen (registerWiring this (name xm) (wiring xm) w1) (\<lambda>w2.
        andThen (registerStoreEmitters this (name xm) (storeModule xm) (storeEmitters xm) w2) (\<lambda>w3.
          (None, updPlugin this
             (\<lambda>p. p\<lparr>installedXModules := insert (name xm) (installedXModules p)\<rparr>) w3))))
      else (None, w))"

text \<open>The static method \<^verbatim>\<open>registerXModule\<close>.\<close>

definition staticRegisterXModule :: "xModule \<Rightarrow> world \<Rightarrow> outcome" where
  "staticRegisterXModule xm w =
     (case staticInstance w of
        Some i \<Rightarrow> registerXModule i xm w
      | None \<Rightarrow> (None, lazyRegisterXModule xm w))"


subsection \<open>Installation\<close>

text \<open>
  \<^verbatim>\<open>adapter.addConfigChangedListener?.(listener)\<close>: the listener, which emits
  \<^verbatim>\<open>AdapterConfigChanged\<close> on the bus of this plugin, is registered if the adapter has
  the method.
\<close>

definition createAdapterConfigChangedListener :: "addr \<Rightarrow> searchAdapter option \<Rightarrow> world \<Rightarrow> outcome" where
  "createAdapterConfigChangedListener this ad w =
     (case ad of
        None \<Rightarrow> (Some TypeError, w)
      | Some a \<Rightarrow>
          (if addConfigChangedListener a
           then (None, w\<lparr>adapterListeners := adapterListeners w @ [(adapterId a, this)]\<rparr>)
           else (None, w)))"

definition registerConfig :: "addr \<Rightarrow> world \<Rightarrow> outcome" where
  "registerConfig this w =
     (case options (plugins w this) of
        None \<Rightarrow> (Some TypeError, w)
      | Some os \<Rightarrow>
          (let config = deepMerge [] [DEFAULT_X_CONFIG w, configOption os]
           in andThen (createAdapterConfigChangedListener this (adapterOption os) w) (\<lambda>w1.
                case registerReactiveConfig (bus (plugins w1 this)) config w1 of
                  (c, w2) \<Rightarrow> (None, updPlugin this (\<lambda>p. p\<lparr>xConfig := Some c\<rparr>) w2))))"

definition registerStore :: "addr \<Rightarrow> world \<Rightarrow> outcome" where
  "registerStore this w =
     (case vue (plugins w this) of
        None \<Rightarrow> (Some TypeError, w)
      | Some v \<Rightarrow>
          andThen (vueCall VueUse v UseVuex w) (\<lambda>w1.
            case options (plugins w1 this) of
              None \<Rightarrow> (Some TypeError, w1)
            | Some os \<Rightarrow>
                (case (case storeOption os of Some s \<Rightarrow> (s, w1) | None \<Rightarrow> newStore w1) of
                   (st, w2) \<Rightarrow>
                     (let w3 = updPlugin this (\<lambda>p. p\<lparr>store := Some st\<rparr>) w2;
                          w4 = (case storeOption os of
                                  None \<Rightarrow> w3\<lparr>vueCalls := vueCalls w3 @ [(v, SetPrototypeStore st)]\<rparr>
                                | Some s \<Rightarrow> w3)
                      in storeRegisterModule st [''x''] RootXStoreModule w4))))"

definition applyMixins :: "addr \<Rightarrow> world \<Rightarrow> outcome" where
  "applyMixins this w =
     (case vue (plugins w this) of
        None \<Rightarrow> (Some TypeError, w)
      | Some v \<Rightarrow> vueCall VueMixin v (Mixin (bus (plugins w this)) (xConfig (plugins w this))) w)"

definition registerFilters :: "addr \<Rightarrow> world \<Rightarrow> outcome" where
  "registerFilters this w =
     forEach
       (\<lambda>(filterName, filterFunction) w1.
          case vue (plugins w1 this) of
            None \<Rightarrow> (Some TypeError, w1)
          | Some v \<Rightarrow> vueCall VueFilter v (Filter filterName filterFunction) w1)
       (FILTERS_REGISTRY w) w"

definition registerPendingXModules :: "addr \<Rightarrow> world \<Rightarrow> outcome" where
  "registerPendingXModules this w =
     andThen (forEach (\<lambda>(key, xm) w1. registerXModule this xm w1) (pendingXModules w) w)
       (\<lambda>w1. (None, w1\<lparr>pendingXModules := []\<rparr>))"

definition install :: "addr \<Rightarrow> addr \<Rightarrow> xPluginOptions option \<Rightarrow> world \<Rightarrow> outcome" where
  "install this v opts w =
     (if isInstalled (plugins w this) then (Some AlreadyInstalled, w)
      else
        (case assertXPluginOptionsAreValid opts of
           Inl e \<Rightarrow> (Some e, w)
         | Inr os \<Rightarrow>
             andThen (registerConfig this
                        (updPlugin this
                           (\<lambda>p. p\<lparr>vue := Some v, options := Some os, adapter := adapterOption os\<rparr>)
                           (w\<lparr>staticInstance := Some this\<rparr>))) (\<lambda>w1.
             andThen (registerStore this w1) (\<lambda>w2.
             andThen (applyMixins this w2) (\<lambda>w3.
             andThen (registerFilters this w3) (\<lambda>w4.
             andThen (registerPendingXModules this w4) (\<lambda>w5.
               (None, updPlugin this (\<lambda>p. p\<lparr>isInstalled := True\<rparr>) w5))))))))"

text \<open>
  \<^verbatim>\<open>setConfig(config)\<close> is \<^verbatim>\<open>deepMerge(this.xConfig, config)\<close>: the contents of the
  config object are merged in place, the field \<^verbatim>\<open>xConfig\<close> is not assigned. Before an
  installation \<^verbatim>\<open>this.xConfig\<close> is undefined, and a property cannot be set on it.
\<close>

definition setConfig :: "addr \<Rightarrow> jsval \<Rightarrow> world \<Rightarrow> outcome" where
  "setConfig this config w =
     (case xConfig (plugins w this) of
        None \<Rightarrow> (case config of JObj (f # fs) \<Rightarrow> (Some TypeError, w) | _ \<Rightarrow> (None, w))
      | Some c \<Rightarrow> (None, w\<lparr>configs := (configs w)(c := deepMerge (configs w c) [config])\<rparr>))"

subsection \<open>The callbacks of a store emitter\<close>

text \<open>The getter given to \<^verbatim>\<open>store.watch\<close>: \<^verbatim>\<open>state => selector(state.x[name], safeGettersProxy)\<close>.\<close>

definition watchGetter :: "watcher \<Rightarrow> vuexStore \<Rightarrow> jsval" where
  "watchGetter wt s = watchSelector wt (getProp (xState s) (watchName wt)) (watchGetters wt)"

text \<open>
  The callback given to \<^verbatim>\<open>store.watch\<close>:
  \<^verbatim>\<open>if (isDifferent(newValue, oldValue)) this.bus.emit(event, newValue, { moduleName: name })\<close>.
\<close>

definition watchCallback :: "watcher \<Rightarrow> jsval \<Rightarrow> jsval \<Rightarrow> world \<Rightarrow> world" where
  "watchCallback wt newValue oldValue w =
     (if watchIsDifferent wt newValue oldValue
      then busEmit (bus (plugins w (watchThis wt))) (watchEvent wt) newValue
             (Some (Metadata (watchName wt))) w
      else w)"

text \<open>
  The callback of an immediate emitter, run from the microtask queue:
  \<^verbatim>\<open>this.bus.emit(event, selector(this.store.state.x[name], safeGettersProxy))\<close>.
\<close>

definition runMicrotask :: "microtask \<Rightarrow> world \<Rightarrow> outcome" where
  "runMicrotask t w =
     (case store (plugins w (taskThis t)) of
        None \<Rightarrow> (Some TypeError, w)
      | Some st \<Rightarrow>
          (None, busEmit (bus (plugins w (taskThis t))) (taskEvent t)
                   (taskSelector t (getProp (xState (stores w st)) (taskName t)) (taskGetters t))
                   None w))"

section \<open>Vocabulary of the properties\<close>

text \<open>The last assignment of a successful \<^verbatim>\<open>install\<close>: \<^verbatim>\<open>this.isInstalled = true\<close>.\<close>

definition installed :: "addr \<Rightarrow> world \<Rightarrow> world" where
  "installed this w = updPlugin this (\<lambda>p. p\<lparr>isInstalled := True\<rparr>) w"

text \<open>
  Two states agree on the core of the plugin: the static instance, the config objects
  and, for every plugin instance, the fields other than the store and the set of
  installed modules.
\<close>

definition sameCore :: "world \<Rightarrow> world \<Rightarrow> bool" where
  "sameCore w w' =
     (staticInstance w' = staticInstance w \<and> configs w' = configs w \<and>
      (\<forall>a. bus (plugins w' a) = bus (plugins w a) \<and>
           adapter (plugins w' a) = adapter (plugins w a) \<and>
           isInstalled (plugins w' a) = isInstalled (plugins w a) \<and>
           options (plugins w' a) = options (plugins w a) \<and>
           vue (plugins w' a) = vue (plugins w a) \<and>
           xConfig (plugins w' a) = xConfig (plugins w a)))"

text \<open>They agree, moreover, on the pending modules and on the store of every instance.\<close>

definition sameInstall :: "world \<Rightarrow> world \<Rightarrow> bool" where
  "sameInstall w w' =
     (sameCore w w' \<and> pendingXModules w' = pendingXModules w \<and>
      (\<forall>a. store (plugins w' a) = store (plugins w a)))"

text \<open>
  What a successful registration of a module hands to the collaborators: the wiring and
  the store emitters after the overrides of the install options, the invocation of every
  wire of the wiring, the watcher of a store emitter and the microtask of an immediate
  one.
\<close>

fun wireId :: "wire \<Rightarrow> nat" where
  "wireId (Wire i t) = i"

definition customizedWiring :: "xModuleOptions option \<Rightarrow> wiringDict \<Rightarrow> wiringDict" where
  "customizedWiring xo wr =
     (case (case xo of None \<Rightarrow> None | Some opts \<Rightarrow> wiringOptions opts) of
        Some wo \<Rightarrow> mergeWiring wr wo
      | None \<Rightarrow> wr)"

definition customizedStoreEmitters :: "xModuleOptions option \<Rightarrow> storeEmittersDict \<Rightarrow> storeEmittersDict" where
  "customizedStoreEmitters xo se =
     (case (case xo of None \<Rightarrow> None | Some opts \<Rightarrow> storeEmittersOptions opts) of
        Some so \<Rightarrow> mergeStoreEmitters se so
      | None \<Rightarrow> se)"

definition wireInvocations ::
  "addr \<Rightarrow> addr option \<Rightarrow> wiringDict \<Rightarrow> (addr \<times> event \<times> string \<times> nat \<times> addr option) list" where
  "wireInvocations b st cw =
     concat (map (\<lambda>(ev, ws). map (\<lambda>(key, wi). (b, ev, key, wireId wi, st)) ws) cw)"

definition emitterWatcher :: "addr \<Rightarrow> string \<Rightarrow> gettersProxy \<Rightarrow> event \<times> anyStateSelector \<Rightarrow> watcher" where
  "emitterWatcher this n g entry =
     \<lparr>watchThis = this, watchName = n, watchEvent = fst entry,
      watchSelector = selector (asStateSelector (snd entry)), watchGetters = g,
      watchIsDifferent =
        (case isDifferent (asStateSelector (snd entry)) of
           None \<Rightarrow> (\<lambda>newValue oldValue. True)
         | Some d \<Rightarrow> d),
      watchOpts = watchOptions (asStateSelector (snd entry))\<rparr>"

definition isImmediate :: "event \<times> anyStateSelector \<Rightarrow> bool" where
  "isImmediate entry = (immediate (asStateSelector (snd entry)) = Some True)"

definition emitterTask :: "addr \<Rightarrow> string \<Rightarrow> gettersProxy \<Rightarrow> event \<times> anyStateSelector \<Rightarrow> microtask" where
  "emitterTask this n g entry =
     \<lparr>taskThis = this, taskName = n, taskEvent = fst entry,
      taskSelector = selector (asStateSelector (snd entry)), taskGetters = g\<rparr>"

definition emitterTasks :: "addr \<Rightarrow> string \<Rightarrow> gettersProxy \<Rightarrow> event \<times> anyStateSelector \<Rightarrow> microtask list" where
  "emitterTasks this n g entry = (if isImmediate entry then [emitterTask this n g entry] else [])"

text \<open>
  What the registration of one module hands to the collaborators when the plugin has the
  install options \<^verbatim>\<open>os\<close>, the bus \<^verbatim>\<open>b\<close> and the store \<^verbatim>\<open>st\<close>: the overrides that the
  options have for the module (\<^verbatim>\<open>options.xModules?.[name]\<close>), the invocations of its
  wires, the watchers of its store emitters and the microtasks of the immediate ones.
\<close>

definition moduleOptionsOf :: "xPluginOptions \<Rightarrow> string \<Rightarrow> xModuleOptions option" where
  "moduleOptionsOf os n = (case xModulesOption os of None \<Rightarrow> None | Some xs \<Rightarrow> map_of xs n)"

definition moduleWires ::
  "addr \<Rightarrow> addr \<Rightarrow> xPluginOptions \<Rightarrow> xModule \<Rightarrow> (addr \<times> event \<times> string \<times> nat \<times> addr option) list" where
  "moduleWires b st os xm =
     wireInvocations b (Some st) (customizedWiring (moduleOptionsOf os (name xm)) (wiring xm))"

definition moduleWatchers :: "addr \<Rightarrow> addr \<Rightarrow> xPluginOptions \<Rightarrow> xModule \<Rightarrow> watcher list" where
  "moduleWatchers this st os xm =
     map (emitterWatcher this (name xm) (GettersProxy st (name xm) (storeModule xm)))
       (customizedStoreEmitters (moduleOptionsOf os (name xm)) (storeEmitters xm))"

definition moduleTasks :: "addr \<Rightarrow> addr \<Rightarrow> xPluginOptions \<Rightarrow> xModule \<Rightarrow> microtask list" where
  "moduleTasks this st os xm =
     map (emitterTask this (name xm) (GettersProxy st (name xm) (storeModule xm)))
       (filter isImmediate
          (customizedStoreEmitters (moduleOptionsOf os (name xm)) (storeEmitters xm)))"

text \<open>Two states agree on everything but the store module descriptors.\<close>

definition sameLogs :: "world \<Rightarrow> world \<Rightarrow> bool" where
  "sameLogs w w' =
     (stores w' = stores w \<and> wired w' = wired w \<and> microtasks w' = microtasks w \<and>
      emitted w' = emitted w \<and> plugins w' = plugins w \<and> staticInstance w' = staticInstance w \<and>
      pendingXModules w' = pendingXModules w)"

text \<open>
  Two states agree on the plugin instances, the stores, the pending modules, the wire
  invocations and the microtasks.
\<close>

definition sameButVue :: "world \<Rightarrow> world \<Rightarrow> bool" where
  "sameButVue w w' =
     (plugins w' = plugins w \<and> stores w' = stores w \<and> pendingXModules w' = pendingXModules w \<and>
      wired w' = wired w \<and> microtasks w' = microtasks w)"

text \<open>The paths of the \<^verbatim>\<open>registerModule\<close> calls that a store has received.\<close>

definition registeredPaths :: "addr \<Rightarrow> world \<Rightarrow> string list list" where
  "registeredPaths st w = map fst (registered (stores w st))"

text \<open>The queue after a sequence of requests, each stored under the name of its module.\<close>

definition enqueueAll :: "xModule list \<Rightarrow> (string \<times> xModule) list \<Rightarrow> (string \<times> xModule) list" where
  "enqueueAll xms q = foldl (\<lambda>q xm. setProp (name xm) xm q) q xms"

text \<open>
  The field of a value at a path of keys through nested objects, if there is one.
\<close>

fun fieldAt :: "jsval \<Rightarrow> string list \<Rightarrow> jsval option" where
  "fieldAt v [] = Some v"
| "fieldAt (JObj fs) (k # ks) = (case map_of fs k of None \<Rightarrow> None | Some v \<Rightarrow> fieldAt v ks)"
| "fieldAt v (k # ks) = None"

text \<open>
  An update mentions a path when it has a field on the path that is no object (which
  replaces all that is below it), or an object at the end of the path.
\<close>

fun mentions :: "jsval \<Rightarrow> string list \<Rightarrow> bool" where
  "mentions u [] = True"
| "mentions (JObj fs) (k # ks) = (case map_of fs k of None \<Rightarrow> False | Some v \<Rightarrow> mentions v ks)"
| "mentions u (k # ks) = True"

text \<open>The value that an update gives at a path, when that value is no object.\<close>

fun leafAt :: "jsval \<Rightarrow> string list \<Rightarrow> jsval option" where
  "leafAt (JObj fs) [] = None"
| "leafAt (JObj fs) (k # ks) = (case map_of fs k of None \<Rightarrow> None | Some v \<Rightarrow> leafAt v ks)"
| "leafAt v [] = Some v"
| "leafAt v (k # ks) = None"

text \<open>The keys of an object are unique, in every object nested in it.\<close>

fun uniqueKeys :: "jsval \<Rightarrow> bool" where
  "uniqueKeys (JObj fs) = (distinct (map fst fs) \<and> list_all (\<lambda>p. uniqueKeys (snd p)) fs)"
| "uniqueKeys v = True"

text \<open>The value that a deep merge gives a key: what the target has under it, and the source's.\<close>

definition mergeValue :: "jsval \<Rightarrow> jsval \<Rightarrow> jsval" where
  "mergeValue old v =
     (case v of
        JObj vs \<Rightarrow> JObj (deepMergeFields (case old of JObj ts \<Rightarrow> ts | _ \<Rightarrow> []) vs)
      | _ \<Rightarrow> v)"

text \<open>
  The state of a store module: the state itself, or what the state function returns.
  Whether it is an object with a key \<^verbatim>\<open>config\<close>; whether the value under that key is
  truthy; whether the mutations have an entry \<^verbatim>\<open>setConfig\<close>.
\<close>

definition stateOf :: "storeModule \<Rightarrow> jsval" where
  "stateOf d = (case state d of StateFn v \<Rightarrow> v | StateVal v \<Rightarrow> v)"

definition hasConfigKey :: "storeModule \<Rightarrow> bool" where
  "hasConfigKey d = (case stateOf d of JObj fs \<Rightarrow> map_of fs ''config'' \<noteq> None | _ \<Rightarrow> False)"

definition hasTruthyConfig :: "storeModule \<Rightarrow> bool" where
  "hasTruthyConfig d = (case stateOf d of JObj fs \<Rightarrow> truthy (getProp fs ''config'') | _ \<Rightarrow> False)"

definition definesSetConfig :: "storeModule \<Rightarrow> bool" where
  "definesSetConfig d =
     (case mutations d of None \<Rightarrow> False | Some ms \<Rightarrow> map_of ms ''setConfig'' \<noteq> None)"

definition mutationsOf :: "storeModule \<Rightarrow> (string \<times> mutation) list" where
  "mutationsOf d = (case mutations d of None \<Rightarrow> [] | Some ms \<Rightarrow> ms)"

section \<open>Example states\<close>

text \<open>
  The state of the program before any object is made, with a default configuration
  and one filter; the state after \<^verbatim>\<open>new XPlugin(bus)\<close> with the bus at address 7; and
  install options with an adapter and a partial configuration.
\<close>

definition emptyWorld :: world where
  "emptyWorld =
     \<lparr>staticInstance = None, pendingXModules = [],
      plugins = (\<lambda>a. \<lparr>bus = 0, adapter = None, installedXModules = {}, isInstalled = False,
                      options = None, store = None, vue = None, xConfig = None\<rparr>),
      storeModules = (\<lambda>a. \<lparr>namespaced = None, state = StateVal JUndefined, getters = None,
                           mutations = None, actions = None\<rparr>),
      configs = (\<lambda>a. []),
      stores = (\<lambda>a. \<lparr>registered = [], xState = [], watchers = []\<rparr>),
      fresh = 0, emitted = [], wired = [], microtasks = [], vueCalls = [],
      adapterListeners = [], faults = (\<lambda>c. None),
      DEFAULT_X_CONFIG =
        JObj [(''consent'', JBool False),
              (''currencyOptions'', JObj [(''symbol'', JStr ''$''), (''decimals'', JNum 2)])],
      FILTERS_REGISTRY = [(''currency'', 1)]\<rparr>"

definition exampleWorld :: world where
  "exampleWorld = snd (newXPlugin 7 emptyWorld)"

definition exampleOptions :: xPluginOptions where
  "exampleOptions =
     \<lparr>adapterOption = Some \<lparr>adapterId = 3, addConfigChangedListener = True\<rparr>,
      storeOption = None,
      configOption = JObj [(''consent'', JBool True)],
      xModulesOption = None\<rparr>"

text \<open>
  A feature module, \<^verbatim>\<open>searchBox\<close>: its store module with a \<^verbatim>\<open>config\<close> in the state, a
  wiring with one wire and two store emitters, the second of them immediate and with
  a change-detection predicate of its own; the state in which the descriptor of its
  store module is the object at address 1; and a variant of the module whose wire throws.
\<close>

definition searchBoxStoreModule :: storeModule where
  "searchBoxStoreModule =
     \<lparr>namespaced = None,
      state = StateFn (JObj [(''query'', JStr []), (''config'', JObj [(''debounce'', JNum 200)])]),
      getters = None,
      mutations = Some [(''setQuery'', Mutation 0)],
      actions = None\<rparr>"

definition querySelector :: selectorFn where
  "querySelector st g = (case st of JObj fs \<Rightarrow> getProp fs ''query'' | _ \<Rightarrow> JUndefined)"

definition configSelector :: selectorFn where
  "configSelector st g = (case st of JObj fs \<Rightarrow> getProp fs ''config'' | _ \<Rightarrow> JUndefined)"

definition searchBox :: xModule where
  "searchBox =
     \<lparr>name = ''searchBox'',
      wiring = [(''UserTyped'', [(''setQuery'', Wire 0 None)])],
      storeModule = 1,
      storeEmitters =
        [(''QueryChanged'', SimpleStateSelector querySelector),
         (''ConfigChanged'',
          StateSelector
            \<lparr>selector = configSelector, immediate = Some True,
             isDifferent = Some (\<lambda>newValue oldValue. newValue \<noteq> oldValue),
             watchOptions = [(''deep'', JBool True)]\<rparr>)]\<rparr>"

definition moduleWorld :: world where
  "moduleWorld = exampleWorld\<lparr>storeModules := (storeModules exampleWorld)(1 := searchBoxStoreModule), fresh := 2\<rparr>"

definition brokenSearchBox :: xModule where
  "brokenSearchBox = searchBox\<lparr>wiring := [(''UserTyped'', [(''setQuery'', Wire 0 (Some 5))])]\<rparr>"

text \<open>The state after a successful installation of the plugin at address 0.\<close>

definition installedWorld :: world where
  "installedWorld = snd (install 0 9 (Some exampleOptions) moduleWorld)"

text \<open>The state before an installation, with the module \<^verbatim>\<open>searchBox\<close> in the queue.\<close>

definition queuedWorld :: world where
  "queuedWorld = moduleWorld\<lparr>pendingXModules := [(''searchBox'', searchBox)]\<rparr>"

text \<open>A store module whose state has the key \<^verbatim>\<open>config\<close> with the value \<^verbatim>\<open>null\<close>.\<close>

definition nullConfigModule :: storeModule where
  "nullConfigModule =
     \<lparr>namespaced = None,
      state = StateFn (JObj [(''query'', JStr []), (''config'', JNull)]),
      getters = None,
      mutations = Some [(''setQuery'', Mutation 0)],
      actions = None\<rparr>"

definition nullConfigWorld :: world where
  "nullConfigWorld = exampleWorld\<lparr>storeModules := (storeModules exampleWorld)(1 := nullConfigModule), fresh := 2\<rparr>"

text \<open>
  A store module whose state has the key \<^verbatim>\<open>config\<close> with the value \<^verbatim>\<open>0\<close>, and the
  state after an installation in which its descriptor is the object at address 1.
\<close>

definition zeroConfigModule :: storeModule where
  "zeroConfigModule =
     \<lparr>namespaced = None,
      state = StateFn (JObj [(''config'', JNum 0)]),
      getters = None,
      mutations = Some [],
      actions = None\<rparr>"

definition zeroConfigWorld :: world where
  "zeroConfigWorld =
     snd (install 0 9 (Some exampleOptions)
       (exampleWorld\<lparr>storeModules := (storeModules exampleWorld)(1 := zeroConfigModule), fresh := 2\<rparr>))"

section \<open>What the steps of a registration and of an installation leave unchanged\<close>

lemma sameCore_refl [simp]: "sameCore w w"
  by (simp add: sameCore_def)

lemma sameCore_trans: "sameCore w w1 \<Longrightarrow> sameCore w1 w2 \<Longrightarrow> sameCore w w2"
  by (simp add: sameCore_def)

lemma andThen_pres:
  assumes "P (snd r)" and "\<And>w1. P w1 \<Longrightarrow> P (snd (f w1))"
  shows "P (snd (andThen r f))"
  using assms by (cases r) (auto simp: andThen_def split: option.splits)

lemma forEach_pres:
  assumes "\<And>x w1. P w1 \<Longrightarrow> P (snd (f x w1))"
  shows "P w1 \<Longrightarrow> P (snd (forEach f xs w1))"
proof (induction xs arbitrary: w1)
  case Nil
  then show ?case by simp
next
  case (Cons x xs)
  show ?case
    unfolding forEach.simps
    by (rule andThen_pres) (use Cons assms in auto)
qed

lemma sameInstall_refl [simp]: "sameInstall w w"
  by (simp add: sameInstall_def sameCore_def)

lemma sameInstall_core: "sameInstall w w' \<Longrightarrow> sameCore w w'"
  by (simp add: sameInstall_def sameCore_def)

lemma sameInstall_trans: "sameInstall w w1 \<Longrightarrow> sameInstall w1 w2 \<Longrightarrow> sameInstall w w2"
  by (auto simp: sameInstall_def sameCore_def intro: sameCore_trans)

lemma andThen_None:
  "andThen r f = (None, w') \<Longrightarrow> \<exists>w1. r = (None, w1) \<and> f w1 = (None, w')"
  by (cases r) (auto simp: andThen_def split: option.splits)

lemma andThen_same:
  assumes "sameInstall w (snd r)" and "\<And>w1. sameInstall w w1 \<Longrightarrow> sameInstall w (snd (f w1))"
  shows "sameInstall w (snd (andThen r f))"
  using assms by (rule andThen_pres[where P="sameInstall w"])

lemma forEach_same:
  assumes "\<And>x w w1. sameInstall w w1 \<Longrightarrow> sameInstall w (snd (f x w1))"
  shows "sameInstall w w1 \<Longrightarrow> sameInstall w (snd (forEach f xs w1))"
proof (induction xs arbitrary: w1)
  case Nil
  then show ?case by simp
next
  case (Cons x xs)
  show ?case
    unfolding forEach.simps
    by (rule andThen_same) (use Cons assms in auto)
qed

lemma invokeWire_same: "sameInstall w w1 \<Longrightarrow> sameInstall w (snd (invokeWire b ev st kw w1))"
  by (cases "(b, ev, st, kw, w1)" rule: invokeWire.cases) (auto simp: sameInstall_def sameCore_def)

lemma vueCall_same: "sameInstall w w1 \<Longrightarrow> sameInstall w (snd (vueCall k v c w1))"
  by (auto simp: vueCall_def sameInstall_def sameCore_def split: option.splits)

lemma storeRegisterModule_same:
  "sameInstall w w1 \<Longrightarrow> sameInstall w (snd (storeRegisterModule st path m w1))"
  by (auto simp: storeRegisterModule_def updStore_def sameInstall_def sameCore_def split: option.splits)

lemma addConfigMutation_same: "sameInstall w w1 \<Longrightarrow> sameInstall w (snd (addConfigMutation m w1))"
  by (auto simp: addConfigMutation_def updStoreModule_def sameInstall_def sameCore_def
      split: option.splits sum.splits bool.splits)

lemma customizeStoreModule_same:
  "sameInstall w w1 \<Longrightarrow> sameInstall w (snd (customizeStoreModule m mo w1))"
  by (auto simp: customizeStoreModule_def Let_def sameInstall_def sameCore_def split: stateDecl.splits sum.splits)

lemma registerStoreModule_same:
  assumes "sameInstall w w1"
  shows "sameInstall w (snd (registerStoreModule this n m w1))"
proof (cases "getModuleOptions this n w1")
  case (Inl e)
  then show ?thesis using assms by (simp add: registerStoreModule_def)
next
  case (Inr xo)
  define r where "r = (case (case xo of None \<Rightarrow> None | Some opts \<Rightarrow> storeModuleOptions opts) of
                   Some so \<Rightarrow> customizeStoreModule m so w1
                 | None \<Rightarrow> (Inr m, w1))"
  have r: "sameInstall w (snd r)"
    using assms by (auto simp: r_def customizeStoreModule_same split: option.splits)
  show ?thesis
  proof (cases r)
    case (Pair res w2)
    with r have w2: "sameInstall w w2" by simp
    show ?thesis
    proof (cases res)
      case (Inl e)
      with Pair Inr w2 show ?thesis by (simp add: registerStoreModule_def r_def[symmetric])
    next
      case (Inr c)
      have "sameInstall w (updStoreModule c (\<lambda>d. d\<lparr>namespaced := Some True\<rparr>) w2)"
        using w2 by (simp add: updStoreModule_def sameInstall_def sameCore_def)
      then have "sameInstall w (snd (andThen
                 (addConfigMutation c (updStoreModule c (\<lambda>d. d\<lparr>namespaced := Some True\<rparr>) w2))
                 (\<lambda>w2. case store (plugins w2 this) of
                          None \<Rightarrow> (Some TypeError, w2)
                        | Some st \<Rightarrow> storeRegisterModule st [''x'', n] (StoreModuleAt c) w2)))"
        by (intro andThen_same addConfigMutation_same)
           (auto split: option.splits intro: storeRegisterModule_same)
      with Pair Inr \<open>getModuleOptions this n w1 = Inr xo\<close> show ?thesis
        by (simp add: registerStoreModule_def r_def[symmetric])
    qed
  qed
qed

lemma registerWiring_same:
  assumes "sameInstall w w1"
  shows "sameInstall w (snd (registerWiring this n wr w1))"
  using assms
  by (auto simp: registerWiring_def Let_def split: sum.splits prod.splits
      intro!: forEach_same invokeWire_same)

lemma registerStoreEmitter_same:
  "sameInstall w w1 \<Longrightarrow> sameInstall w (registerStoreEmitter this n st g entry w1)"
  by (auto simp: registerStoreEmitter_def Let_def storeWatch_def updStore_def sameInstall_def sameCore_def)

lemma registerStoreEmitters_same:
  assumes "sameInstall w w1"
  shows "sameInstall w (snd (registerStoreEmitters this n m se w1))"
  using assms
  by (auto simp: registerStoreEmitters_def Let_def split: sum.splits option.splits
      intro!: forEach_same registerStoreEmitter_same)

lemma registerXModule_same:
  assumes "sameInstall w w1"
  shows "sameInstall w (snd (registerXModule this xm w1))"
proof (cases "name xm \<in> installedXModules (plugins w1 this)")
  case True
  with assms show ?thesis by (simp add: registerXModule_def)
next
  case False
  have fin: "\<And>w3. sameInstall w w3 \<Longrightarrow>
     sameInstall w (updPlugin this (\<lambda>p. p\<lparr>installedXModules := insert (name xm) (installedXModules p)\<rparr>) w3)"
    by (simp add: updPlugin_def sameInstall_def sameCore_def)
  show ?thesis
    using False assms
    by (auto simp: registerXModule_def
        intro!: andThen_same registerStoreModule_same registerWiring_same
                registerStoreEmitters_same fin)
qed

lemma registerPendingXModules_core:
  assumes "sameCore w w1"
  shows "sameCore w (snd (registerPendingXModules this w1))"
proof -
  have "sameInstall w1 (snd (forEach (\<lambda>(key, xm) w2. registerXModule this xm w2) (pendingXModules w1) w1))"
    by (rule forEach_same) (auto intro: registerXModule_same)
  then have 1: "sameCore w (snd (forEach (\<lambda>(key, xm) w2. registerXModule this xm w2) (pendingXModules w1) w1))"
    using assms sameCore_trans sameInstall_core by blast
  have 2: "\<And>w2. sameCore w w2 \<Longrightarrow> sameCore w (w2\<lparr>pendingXModules := []\<rparr>)"
    by (simp add: sameCore_def)
  show ?thesis
    unfolding registerPendingXModules_def
    by (rule andThen_pres[where P="sameCore w"]) (use 1 2 in auto)
qed

lemma registerFilters_core:
  assumes "sameCore w w1"
  shows "sameCore w (snd (registerFilters this w1))"
proof -
  have v: "\<And>k v c w2. sameCore w w2 \<Longrightarrow> sameCore w (snd (vueCall k v c w2))"
    by (auto simp: vueCall_def sameCore_def split: option.splits)
  show ?thesis
    unfolding registerFilters_def
    by (rule forEach_pres[where P="sameCore w"]) (auto split: option.splits intro: v assms)
qed

lemma applyMixins_core:
  assumes "sameCore w w1"
  shows "sameCore w (snd (applyMixins this w1))"
  using assms by (auto simp: applyMixins_def vueCall_def sameCore_def split: option.splits)

lemma registerStore_core:
  assumes "sameCore w w1"
  shows "sameCore w (snd (registerStore this w1))"
  using assms 
  by (auto simp: registerStore_def vueCall_def andThen_def newStore_def updPlugin_def 
        storeRegisterModule_def updStore_def sameCore_def Let_def split: option.splits)

lemma andThen_chain:
  assumes "P (snd r)" and "\<And>w1. P w1 \<Longrightarrow> Q (f w1)" and "\<And>e w1. P w1 \<Longrightarrow> Q (Some e, w1)"
  shows "Q (andThen r f)"
  using assms by (cases r) (auto simp: andThen_def split: option.splits)

lemma registerConfig_valid:
  assumes "options (plugins w this) = Some os" and "adapterOption os = Some a"
  shows "\<exists>wc. registerConfig this w = (None, wc) \<and>
           staticInstance wc = staticInstance w \<and>
           pendingXModules wc = pendingXModules w \<and>
           adapter (plugins wc this) = adapter (plugins w this) \<and>
           bus (plugins wc this) = bus (plugins w this) \<and>
           isInstalled (plugins wc this) = isInstalled (plugins w this) \<and>
           installedXModules (plugins wc this) = installedXModules (plugins w this) \<and>
           xConfig (plugins wc this) = Some (fresh w) \<and>
           configs wc (fresh w) = deepMerge [] [DEFAULT_X_CONFIG w, configOption os]"
  using assms
  by (simp add: registerConfig_def createAdapterConfigChangedListener_def andThen_def
      registerReactiveConfig_def updPlugin_def Let_def)


lemma install_valid:
  assumes ni: "\<not> isInstalled (plugins w this)" and ok: "assertXPluginOptionsAreValid opts = Inr os"
  shows "\<exists>wc w5.
           (install this v opts w = (None, installed this w5) \<or>
            (\<exists>e. install this v opts w = (Some e, w5))) \<and>
           sameCore wc w5 \<and>
           staticInstance wc = Some this \<and>
           adapter (plugins wc this) = adapterOption os \<and>
           bus (plugins wc this) = bus (plugins w this) \<and>
           \<not> isInstalled (plugins wc this) \<and>
           xConfig (plugins wc this) = Some (fresh w) \<and>
           configs wc (fresh w) = deepMerge [] [DEFAULT_X_CONFIG w, configOption os]"
proof -
  define w0 where "w0 = updPlugin this
       (\<lambda>p. p\<lparr>vue := Some v, options := Some os, adapter := adapterOption os\<rparr>)
       (w\<lparr>staticInstance := Some this\<rparr>)"
  from ok obtain a where a: "adapterOption os = Some a"
    by (auto simp: assertXPluginOptionsAreValid_def split: option.splits)
  have "options (plugins w0 this) = Some os"
    by (simp add: w0_def updPlugin_def)
  from registerConfig_valid[OF this a] obtain wc where
    rc: "registerConfig this w0 = (None, wc)" and
    wc: "staticInstance wc = Some this" "adapter (plugins wc this) = adapterOption os"
      "bus (plugins wc this) = bus (plugins w this)" "\<not> isInstalled (plugins wc this)"
      "xConfig (plugins wc this) = Some (fresh w)"
      "configs wc (fresh w) = deepMerge [] [DEFAULT_X_CONFIG w, configOption os]"
    using ni by (auto simp: w0_def updPlugin_def)
  define Q where "Q = (\<lambda>r::outcome. \<exists>w5. (r = (None, installed this w5) \<or> (\<exists>e. r = (Some e, w5))) \<and> sameCore wc w5)"
  have fail: "\<And>e w1. sameCore wc w1 \<Longrightarrow> Q (Some e, w1)"
    by (auto simp: Q_def)
  have "Q (andThen (registerStore this wc) (\<lambda>w2.
             andThen (applyMixins this w2) (\<lambda>w3.
             andThen (registerFilters this w3) (\<lambda>w4.
             andThen (registerPendingXModules this w4) (\<lambda>w5.
               (None, updPlugin this (\<lambda>p. p\<lparr>isInstalled := True\<rparr>) w5))))))"
  proof (rule andThen_chain[where P="sameCore wc"], goal_cases)
    case 1
    show ?case by (rule registerStore_core) simp
  next
    case (2 w2)
    show ?case
    proof (rule andThen_chain[where P="sameCore wc"], goal_cases)
      case 1
      show ?case by (rule applyMixins_core) fact
    next
      case (2 w3)
      show ?case
      proof (rule andThen_chain[where P="sameCore wc"], goal_cases)
        case 1
        show ?case by (rule registerFilters_core) fact
      next
        case (2 w4)
        show ?case
        proof (rule andThen_chain[where P="sameCore wc"], goal_cases)
          case 1
          show ?case by (rule registerPendingXModules_core) fact
        next
          case (2 w5)
          then show ?case by (auto simp: Q_def installed_def)
        qed (rule fail)
      qed (rule fail)
    qed (rule fail)
  qed (rule fail)
  moreover have "install this v opts w =
      andThen (registerStore this wc) (\<lambda>w2.
             andThen (applyMixins this w2) (\<lambda>w3.
             andThen (registerFilters this w3) (\<lambda>w4.
             andThen (registerPendingXModules this w4) (\<lambda>w5.
               (None, updPlugin this (\<lambda>p. p\<lparr>isInstalled := True\<rparr>) w5)))))"
    using ni ok rc by (simp add: install_def w0_def[symmetric] andThen_def)
  ultimately show ?thesis
    using wc unfolding Q_def by metis
qed

section \<open>Installing twice\<close>

lemmas install_eval =
  install_def newXPlugin_def assertXPluginOptionsAreValid_def
  registerConfig_def andThen_def updPlugin_def createAdapterConfigChangedListener_def
  registerReactiveConfig_def registerStore_def vueCall_def newStore_def storeRegisterModule_def
  updStore_def applyMixins_def registerFilters_def registerPendingXModules_def

lemma exampleInstall: "fst (install 0 9 (Some exampleOptions) exampleWorld) = None"
  by (simp add: exampleWorld_def exampleOptions_def emptyWorld_def install_eval)

lemma registerConfig_isInstalled:
  "isInstalled (plugins (snd (registerConfig this w)) a) = isInstalled (plugins w a)"
  by (auto simp: registerConfig_def createAdapterConfigChangedListener_def andThen_def
      registerReactiveConfig_def updPlugin_def Let_def split: option.splits)

lemma sameCore_isInstalled: "sameCore w w' \<Longrightarrow> isInstalled (plugins w' a) = isInstalled (plugins w a)"
  by (simp add: sameCore_def)

lemma install_keeps_installed:
  assumes "isInstalled (plugins w a)"
  shows "isInstalled (plugins (snd (install this v opts w)) a)"
proof (cases "isInstalled (plugins w this)")
  case True
  with assms show ?thesis by (simp add: install_def)
next
  case False
  show ?thesis
  proof (cases "assertXPluginOptionsAreValid opts")
    case (Inl e)
    with False assms show ?thesis by (simp add: install_def)
  next
    case (Inr os)
    let ?P = "\<lambda>w'. isInstalled (plugins w' a)"
    let ?w0 = "updPlugin this
                 (\<lambda>p. p\<lparr>vue := Some v, options := Some os, adapter := adapterOption os\<rparr>)
                 (w\<lparr>staticInstance := Some this\<rparr>)"
    have 0: "?P (snd (registerConfig this ?w0))"
      using assms by (auto simp: registerConfig_isInstalled updPlugin_def)
    have s: "\<And>w1. ?P w1 \<Longrightarrow> ?P (snd (registerStore this w1))"
      using sameCore_isInstalled[OF registerStore_core[OF sameCore_refl]] by simp
    have m: "\<And>w1. ?P w1 \<Longrightarrow> ?P (snd (applyMixins this w1))"
      using sameCore_isInstalled[OF applyMixins_core[OF sameCore_refl]] by simp
    have f: "\<And>w1. ?P w1 \<Longrightarrow> ?P (snd (registerFilters this w1))"
      using sameCore_isInstalled[OF registerFilters_core[OF sameCore_refl]] by simp
    have p: "\<And>w1. ?P w1 \<Longrightarrow> ?P (snd (registerPendingXModules this w1))"
      using sameCore_isInstalled[OF registerPendingXModules_core[OF sameCore_refl]] by simp
    have l: "\<And>w1. ?P w1 \<Longrightarrow> ?P (updPlugin this (\<lambda>p. p\<lparr>isInstalled := True\<rparr>) w1)"
      by (simp add: updPlugin_def)
    have "?P (snd (andThen (registerConfig this ?w0) (\<lambda>w1.
             andThen (registerStore this w1) (\<lambda>w2.
             andThen (applyMixins this w2) (\<lambda>w3.
             andThen (registerFilters this w3) (\<lambda>w4.
             andThen (registerPendingXModules this w4) (\<lambda>w5.
               (None, updPlugin this (\<lambda>p. p\<lparr>isInstalled := True\<rparr>) w5))))))))"
      by (intro andThen_pres[where P="?P"] 0 s m f p) (auto simp: updPlugin_def)
    with False Inr show ?thesis by (simp add: install_def)
  qed
qed

lemma staticRegisterXModule_isInstalled:
  "isInstalled (plugins (snd (staticRegisterXModule xm w)) a) = isInstalled (plugins w a)"
proof (cases "staticInstance w")
  case None
  then show ?thesis by (simp add: staticRegisterXModule_def lazyRegisterXModule_def)
next
  case (Some i)
  from registerXModule_same[OF sameInstall_refl, of w i xm]
  have "sameCore w (snd (registerXModule i xm w))" by (rule sameInstall_core)
  with Some show ?thesis
    by (simp add: staticRegisterXModule_def sameCore_def)
qed

text \<open>
  Claim C2. A successful \<^verbatim>\<open>install\<close> leaves the flag \<^verbatim>\<open>isInstalled\<close> of the instance
  true. Calling \<^verbatim>\<open>install\<close> on an instance whose flag is true throws the
  already-installed error, whatever the arguments, and leaves the state as it was:
  nothing is installed again. No method of the class resets the flag: it stays true
  through an \<^verbatim>\<open>install\<close> on any instance, a registration of a module, a
  \<^verbatim>\<open>setConfig\<close> and a \<^verbatim>\<open>resetInstance\<close>.
\<close>

theorem install_installed_throws:
  "(install this v opts w = (None, w1) \<longrightarrow> isInstalled (plugins w1 this)) \<and>
   (isInstalled (plugins w this) \<longrightarrow>
      install this v opts w = (Some AlreadyInstalled, w) \<and>
      isInstalled (plugins (snd (install other v opts w)) this) \<and>
      isInstalled (plugins (snd (staticRegisterXModule xm w)) this) \<and>
      isInstalled (plugins (snd (setConfig other config w)) this) \<and>
      isInstalled (plugins (resetInstance w) this))"
proof (intro conjI impI)
  assume i: "install this v opts w = (None, w1)"
  have ni: "\<not> isInstalled (plugins w this)"
    using i by (auto simp: install_def)
  from i ni obtain os where os: "assertXPluginOptionsAreValid opts = Inr os"
    by (auto simp: install_def split: sum.splits)
  from install_valid[OF ni os, of v] i obtain w5 where "w1 = installed this w5"
    by auto
  then show "isInstalled (plugins w1 this)"
    by (simp add: installed_def updPlugin_def)
next
  assume a: "isInstalled (plugins w this)"
  then show "install this v opts w = (Some AlreadyInstalled, w)"
    by (simp add: install_def)
  from a show "isInstalled (plugins (snd (install other v opts w)) this)"
    by (rule install_keeps_installed)
  from a show "isInstalled (plugins (snd (staticRegisterXModule xm w)) this)"
    by (simp add: staticRegisterXModule_isInstalled)
  from a show "isInstalled (plugins (snd (setConfig other config w)) this)"
    by (auto simp: setConfig_def split: option.splits jsval.splits list.splits)
  from a show "isInstalled (plugins (resetInstance w) this)"
    by (simp add: resetInstance_def)
qed

theorem install_installed_throws_witness:
  "fst (install 0 9 (Some exampleOptions) exampleWorld) = None \<and>
   isInstalled (plugins (snd (install 0 9 (Some exampleOptions) exampleWorld)) 0) \<and>
   install 0 9 (Some exampleOptions) (snd (install 0 9 (Some exampleOptions) exampleWorld)) =
     (Some AlreadyInstalled, snd (install 0 9 (Some exampleOptions) exampleWorld)) \<and>
   install 0 9 (Some exampleOptions)
       (resetInstance (snd (install 0 9 (Some exampleOptions) exampleWorld))) =
     (Some AlreadyInstalled, resetInstance (snd (install 0 9 (Some exampleOptions) exampleWorld)))"
proof -
  define w1 where "w1 = snd (install 0 9 (Some exampleOptions) exampleWorld)"
  have i: "install 0 9 (Some exampleOptions) exampleWorld = (None, w1)"
    unfolding w1_def using exampleInstall by (metis prod.collapse)
  from install_installed_throws[of 0 9 "Some exampleOptions" exampleWorld w1] i
  have 1: "isInstalled (plugins w1 0)" by blast
  from install_installed_throws[of 0 9 "Some exampleOptions" w1] 1
  have 2: "install 0 9 (Some exampleOptions) w1 = (Some AlreadyInstalled, w1)"
    and 3: "isInstalled (plugins (resetInstance w1) 0)"
    by blast+
  from install_installed_throws[of 0 9 "Some exampleOptions" "resetInstance w1"] 3
  have 4: "install 0 9 (Some exampleOptions) (resetInstance w1) =
             (Some AlreadyInstalled, resetInstance w1)"
    by blast
  from exampleInstall 1 2 4 show ?thesis
    unfolding w1_def[symmetric] by simp
qed

lemmas register_eval =
  staticRegisterXModule_def lazyRegisterXModule_def registerXModule_def registerStoreModule_def
  getModuleOptions_def addConfigMutation_def hasModuleConfig_def updStoreModule_def
  getDefaultSetConfigMutation_def initialState_def getProp_def
  registerWiring_def registerStoreEmitters_def registerStoreEmitter_def storeWatch_def
  getGettersProxyFromModule_def

lemmas example_defs =
  moduleWorld_def exampleWorld_def exampleOptions_def emptyWorld_def searchBox_def brokenSearchBox_def
  searchBoxStoreModule_def


lemma brokenInstall:
  "fst (install 0 9 (Some exampleOptions) (snd (staticRegisterXModule brokenSearchBox moduleWorld)))
   = Some (Thrown 5)"
  by (simp add: example_defs install_eval register_eval)

section \<open>The static accessors\<close>

text \<open>
  Claim C3. In every state in which no plugin instance has been installed (the static
  field \<^verbatim>\<open>instance\<close> is unset), reading the static accessors \<^verbatim>\<open>adapter\<close>, \<^verbatim>\<open>bus\<close>
  or \<^verbatim>\<open>config\<close> throws; after a successful \<^verbatim>\<open>install\<close> each of them returns the
  installed value: the adapter of the options, the bus of the instance, and the config
  object, whose contents are the defaults merged with the config of the options.
\<close>

theorem static_accessors:
  "(staticInstance w = None \<longrightarrow>
      staticAdapter w = Inl NotInstalled \<and> staticBus w = Inl NotInstalled \<and>
      staticConfig w = Inl NotInstalled) \<and>
   (install this v (Some os) w = (None, w1) \<longrightarrow>
      adapterOption os \<noteq> None \<and>
      staticAdapter w1 = Inr (adapterOption os) \<and>
      staticBus w1 = Inr (bus (plugins w this)) \<and>
      staticConfig w1 = Inr (Some (fresh w)) \<and>
      configs w1 (fresh w) = deepMerge [] [DEFAULT_X_CONFIG w, configOption os])"
proof (intro conjI impI)
  assume i: "install this v (Some os) w = (None, w1)"
  have ni: "\<not> isInstalled (plugins w this)"
    using i by (auto simp: install_def)
  from i ni have ok: "assertXPluginOptionsAreValid (Some os) = Inr os"
    by (auto simp: install_def assertXPluginOptionsAreValid_def split: sum.splits option.splits)
  then show "adapterOption os \<noteq> None"
    by (auto simp: assertXPluginOptionsAreValid_def split: option.splits)
  from install_valid[OF ni ok, of v] i obtain wc w5 where
    w1: "w1 = installed this w5" and core: "sameCore wc w5" and
    wc: "staticInstance wc = Some this" "adapter (plugins wc this) = adapterOption os"
      "bus (plugins wc this) = bus (plugins w this)"
      "xConfig (plugins wc this) = Some (fresh w)"
      "configs wc (fresh w) = deepMerge [] [DEFAULT_X_CONFIG w, configOption os]"
    by auto
  from core wc have f:
    "staticInstance w1 = Some this" "adapter (plugins w1 this) = adapterOption os"
    "bus (plugins w1 this) = bus (plugins w this)" "xConfig (plugins w1 this) = Some (fresh w)"
    "configs w1 (fresh w) = deepMerge [] [DEFAULT_X_CONFIG w, configOption os]"
    by (simp_all add: w1 installed_def updPlugin_def sameCore_def)
  from f show "staticAdapter w1 = Inr (adapterOption os)"
    by (simp add: staticAdapter_def getInstance_def)
  from f show "staticBus w1 = Inr (bus (plugins w this))"
    by (simp add: staticBus_def getInstance_def)
  from f show "staticConfig w1 = Inr (Some (fresh w))"
    by (simp add: staticConfig_def getInstance_def)
  from f show "configs w1 (fresh w) = deepMerge [] [DEFAULT_X_CONFIG w, configOption os]"
    by simp
qed (simp_all add: staticAdapter_def staticBus_def staticConfig_def getInstance_def)

theorem static_accessors_witness:
  "staticInstance exampleWorld = None \<and>
   staticAdapter exampleWorld = Inl NotInstalled \<and>
   staticBus exampleWorld = Inl NotInstalled \<and>
   staticConfig exampleWorld = Inl NotInstalled \<and>
   fst (install 0 9 (Some exampleOptions) exampleWorld) = None \<and>
   staticAdapter (snd (install 0 9 (Some exampleOptions) exampleWorld)) =
     Inr (Some \<lparr>adapterId = 3, addConfigChangedListener = True\<rparr>) \<and>
   staticBus (snd (install 0 9 (Some exampleOptions) exampleWorld)) = Inr 7 \<and>
   staticConfig (snd (install 0 9 (Some exampleOptions) exampleWorld)) = Inr (Some 1) \<and>
   configs (snd (install 0 9 (Some exampleOptions) exampleWorld)) 1 =
     [(''consent'', JBool True),
      (''currencyOptions'', JObj [(''symbol'', JStr ''$''), (''decimals'', JNum 2)])]"
proof -
  have n: "staticInstance exampleWorld = None"
    by (simp add: exampleWorld_def emptyWorld_def newXPlugin_def)
  have i: "install 0 9 (Some exampleOptions) exampleWorld =
          (None, snd (install 0 9 (Some exampleOptions) exampleWorld))"
    using exampleInstall by (metis prod.collapse)
  have e: "fresh exampleWorld = 1" "bus (plugins exampleWorld 0) = 7"
    "DEFAULT_X_CONFIG exampleWorld =
       JObj [(''consent'', JBool False),
             (''currencyOptions'', JObj [(''symbol'', JStr ''$''), (''decimals'', JNum 2)])]"
    "configOption exampleOptions = JObj [(''consent'', JBool True)]"
    "adapterOption exampleOptions = Some \<lparr>adapterId = 3, addConfigChangedListener = True\<rparr>"
    by (simp_all add: exampleWorld_def emptyWorld_def newXPlugin_def exampleOptions_def)
  from static_accessors[of exampleWorld 0 9 exampleOptions "snd (install 0 9 (Some exampleOptions) exampleWorld)"]
    n i exampleInstall show ?thesis
    by (simp add: e getProp_def)
qed

section \<open>A failed installation\<close>

lemma andThen_notAlready:
  assumes "fst r \<noteq> Some AlreadyInstalled" and "\<And>w1. fst (f w1) \<noteq> Some AlreadyInstalled"
  shows "fst (andThen r f) \<noteq> Some AlreadyInstalled"
  using assms by (cases r) (auto simp: andThen_def split: option.splits)

lemma forEach_notAlready:
  assumes "\<And>x w1. fst (f x w1) \<noteq> Some AlreadyInstalled"
  shows "fst (forEach f xs w) \<noteq> Some AlreadyInstalled"
proof (induction xs arbitrary: w)
  case Nil
  then show ?case by simp
next
  case (Cons x xs)
  show ?case
    unfolding forEach.simps
    by (rule andThen_notAlready) (use Cons assms in auto)
qed

lemma invokeWire_notAlready: "fst (invokeWire b ev st kw w) \<noteq> Some AlreadyInstalled"
  by (cases "(b, ev, st, kw, w)" rule: invokeWire.cases) auto

lemma vueCall_notAlready: "fst (vueCall k v c w) \<noteq> Some AlreadyInstalled"
  by (auto simp: vueCall_def split: option.splits)

lemma storeRegisterModule_notAlready:
  "fst (storeRegisterModule st path m w) \<noteq> Some AlreadyInstalled"
  by (auto simp: storeRegisterModule_def split: option.splits)

lemma readProp_error: "readProp v k = Inl e \<Longrightarrow> e = TypeError"
  by (cases "(v, k)" rule: readProp.cases) auto

lemma hasModuleConfig_error: "hasModuleConfig m = Inl e \<Longrightarrow> e = TypeError"
  by (auto simp: hasModuleConfig_def split: stateDecl.splits sum.splits dest: readProp_error)

lemma addConfigMutation_notAlready: "fst (addConfigMutation m w) \<noteq> Some AlreadyInstalled"
  by (auto simp: addConfigMutation_def split: option.splits sum.splits bool.splits
      dest: hasModuleConfig_error)

lemma deepMergeInto_error: "deepMergeInto v src = Inl e \<Longrightarrow> e = TypeError \<or> e = Unmodelled"
  by (cases "(v, src)" rule: deepMergeInto.cases) auto

lemma customizeStoreModule_notAlready:
  "fst (customizeStoreModule m mo w) \<noteq> Inl AlreadyInstalled"
  by (auto simp: customizeStoreModule_def Let_def split: stateDecl.splits sum.splits
      dest: deepMergeInto_error)

lemma getModuleOptions_error: "getModuleOptions this n w = Inl e \<Longrightarrow> e = TypeError"
  by (auto simp: getModuleOptions_def split: option.splits)

lemma registerStoreModule_notAlready:
  "fst (registerStoreModule this n m w) \<noteq> Some AlreadyInstalled"
proof (cases "getModuleOptions this n w")
  case (Inl e)
  then show ?thesis by (auto simp: registerStoreModule_def dest: getModuleOptions_error)
next
  case (Inr xo)
  define r where "r = (case (case xo of None \<Rightarrow> None | Some opts \<Rightarrow> storeModuleOptions opts) of
                   Some so \<Rightarrow> customizeStoreModule m so w
                 | None \<Rightarrow> (Inr m, w))"
  have r: "fst r \<noteq> Inl AlreadyInstalled"
    by (auto simp: r_def customizeStoreModule_notAlready split: option.splits)
  show ?thesis
  proof (cases r)
    case (Pair res w2)
    show ?thesis
    proof (cases res)
      case (Inl e)
      with Pair Inr r show ?thesis by (simp add: registerStoreModule_def r_def[symmetric])
    next
      case (Inr c)
      have "fst (andThen
                 (addConfigMutation c (updStoreModule c (\<lambda>d. d\<lparr>namespaced := Some True\<rparr>) w2))
                 (\<lambda>w2. case store (plugins w2 this) of
                          None \<Rightarrow> (Some TypeError, w2)
                        | Some st \<Rightarrow> storeRegisterModule st [''x'', n] (StoreModuleAt c) w2))
            \<noteq> Some AlreadyInstalled"
        by (intro andThen_notAlready addConfigMutation_notAlready)
           (auto split: option.splits simp: storeRegisterModule_notAlready)
      with Pair Inr \<open>getModuleOptions this n w = Inr xo\<close> show ?thesis
        by (simp add: registerStoreModule_def r_def[symmetric])
    qed
  qed
qed

lemma registerWiring_notAlready: "fst (registerWiring this n wr w) \<noteq> Some AlreadyInstalled"
  by (auto simp: registerWiring_def Let_def split: sum.splits prod.splits
      dest: getModuleOptions_error intro!: forEach_notAlready invokeWire_notAlready)

lemma registerStoreEmitters_notAlready:
  "fst (registerStoreEmitters this n m se w) \<noteq> Some AlreadyInstalled"
  by (auto simp: registerStoreEmitters_def Let_def split: sum.splits option.splits
      dest: getModuleOptions_error intro!: forEach_notAlready)

lemma registerXModule_notAlready: "fst (registerXModule this xm w) \<noteq> Some AlreadyInstalled"
  by (simp add: registerXModule_def andThen_notAlready registerStoreModule_notAlready
      registerWiring_notAlready registerStoreEmitters_notAlready)

lemma registerPendingXModules_notAlready:
  "fst (registerPendingXModules this w) \<noteq> Some AlreadyInstalled"
  unfolding registerPendingXModules_def
  by (intro andThen_notAlready forEach_notAlready) (auto simp: registerXModule_notAlready)

lemma registerFilters_notAlready: "fst (registerFilters this w) \<noteq> Some AlreadyInstalled"
  unfolding registerFilters_def
  by (intro forEach_notAlready) (auto split: option.splits simp: vueCall_notAlready)

lemma applyMixins_notAlready: "fst (applyMixins this w) \<noteq> Some AlreadyInstalled"
  by (auto simp: applyMixins_def vueCall_notAlready split: option.splits)

lemma registerStore_notAlready: "fst (registerStore this w) \<noteq> Some AlreadyInstalled"
  unfolding registerStore_def
  by (simp split: option.splits prod.splits add: Let_def storeRegisterModule_notAlready
      andThen_notAlready vueCall_notAlready)

lemma registerConfig_notAlready: "fst (registerConfig this w) \<noteq> Some AlreadyInstalled"
  unfolding registerConfig_def
  by (auto split: option.splits prod.splits
      simp: Let_def createAdapterConfigChangedListener_def andThen_def registerReactiveConfig_def)

lemma install_notAlready:
  assumes "\<not> isInstalled (plugins w this)"
  shows "fst (install this v opts w) \<noteq> Some AlreadyInstalled"
proof (cases "assertXPluginOptionsAreValid opts")
  case (Inl e)
  then have "e = InvalidOptions"
    by (auto simp: assertXPluginOptionsAreValid_def split: option.splits)
  with Inl assms show ?thesis by (simp add: install_def)
next
  case (Inr os)
  with assms show ?thesis
    by (simp add: install_def
        andThen_notAlready registerConfig_notAlready registerStore_notAlready
        applyMixins_notAlready registerFilters_notAlready
        registerPendingXModules_notAlready)
qed

text \<open>
  Claim C10. If \<^verbatim>\<open>install\<close> is called with valid options on an instance that is not
  installed, and a step after the validation throws, then the static instance is set
  and \<^verbatim>\<open>isInstalled\<close> is still false; so the static accessors do not throw the
  access-before-install error, and a later \<^verbatim>\<open>install\<close> on the same instance is not
  rejected with the already-installed error.
\<close>

theorem failed_install_state:
  assumes "\<not> isInstalled (plugins w this)" and "adapterOption os \<noteq> None"
    and "install this v (Some os) w = (Some e, w1)"
  shows "staticInstance w1 = Some this \<and> \<not> isInstalled (plugins w1 this) \<and>
         staticAdapter w1 = Inr (adapterOption os) \<and>
         staticBus w1 = Inr (bus (plugins w this)) \<and>
         staticConfig w1 = Inr (Some (fresh w)) \<and>
         fst (install this v' opts' w1) \<noteq> Some AlreadyInstalled"
proof -
  from assms(2) have ok: "assertXPluginOptionsAreValid (Some os) = Inr os"
    by (auto simp: assertXPluginOptionsAreValid_def)
  from install_valid[OF assms(1) ok, of v] assms(3) obtain wc where
    core: "sameCore wc w1" and
    wc: "staticInstance wc = Some this" "adapter (plugins wc this) = adapterOption os"
      "bus (plugins wc this) = bus (plugins w this)" "\<not> isInstalled (plugins wc this)"
      "xConfig (plugins wc this) = Some (fresh w)"
    by auto
  from core wc have f:
    "staticInstance w1 = Some this" "adapter (plugins w1 this) = adapterOption os"
    "bus (plugins w1 this) = bus (plugins w this)" "xConfig (plugins w1 this) = Some (fresh w)"
    "\<not> isInstalled (plugins w1 this)"
    by (simp_all add: sameCore_def)
  from f install_notAlready[of w1 this v' opts'] show ?thesis
    by (simp add: staticAdapter_def staticBus_def staticConfig_def getInstance_def)
qed

theorem failed_install_state_witness:
  "\<not> isInstalled (plugins (snd (staticRegisterXModule brokenSearchBox moduleWorld)) 0) \<and>
   adapterOption exampleOptions \<noteq> None \<and>
   fst (install 0 9 (Some exampleOptions) (snd (staticRegisterXModule brokenSearchBox moduleWorld)))
     = Some (Thrown 5) \<and>
   staticInstance (snd (install 0 9 (Some exampleOptions)
      (snd (staticRegisterXModule brokenSearchBox moduleWorld)))) = Some 0 \<and>
   \<not> isInstalled (plugins (snd (install 0 9 (Some exampleOptions)
      (snd (staticRegisterXModule brokenSearchBox moduleWorld)))) 0) \<and>
   staticBus (snd (install 0 9 (Some exampleOptions)
      (snd (staticRegisterXModule brokenSearchBox moduleWorld)))) = Inr 7 \<and>
   fst (install 0 9 None (snd (install 0 9 (Some exampleOptions)
      (snd (staticRegisterXModule brokenSearchBox moduleWorld))))) \<noteq> Some AlreadyInstalled"
proof -
  define w where "w = snd (staticRegisterXModule brokenSearchBox moduleWorld)"
  have a: "\<not> isInstalled (plugins w 0)" "bus (plugins w 0) = 7"
    by (simp_all add: w_def example_defs register_eval newXPlugin_def)
  have b: "adapterOption exampleOptions \<noteq> None"
    by (simp add: exampleOptions_def)
  have c: "install 0 9 (Some exampleOptions) w = (Some (Thrown 5), snd (install 0 9 (Some exampleOptions) w))"
    using brokenInstall unfolding w_def by (metis prod.collapse)
  from failed_install_state[OF a(1) b c, of 9 None] a b brokenInstall show ?thesis
    unfolding w_def[symmetric] by simp
qed

section \<open>Registering a module once\<close>

lemma addConfigMutation_logs: "sameLogs w (snd (addConfigMutation m w))"
  by (auto simp: addConfigMutation_def updStoreModule_def sameLogs_def
      split: option.splits sum.splits bool.splits)

lemma customizeStoreModule_logs: "sameLogs w (snd (customizeStoreModule m mo w))"
  by (auto simp: customizeStoreModule_def Let_def sameLogs_def split: stateDecl.splits sum.splits)

lemma registerStoreModule_effect:
  assumes "registerStoreModule this n m w = (None, w1)"
  shows "\<exists>c st. store (plugins w this) = Some st \<and>
           stores w1 = (stores w)(st := (stores w1 st)) \<and>
           registered (stores w1 st) = registered (stores w st) @ [([''x'', n], StoreModuleAt c)] \<and>
           watchers (stores w1 st) = watchers (stores w st) \<and>
           wired w1 = wired w \<and> microtasks w1 = microtasks w \<and> emitted w1 = emitted w \<and>
           plugins w1 = plugins w \<and> staticInstance w1 = staticInstance w \<and>
           pendingXModules w1 = pendingXModules w"
proof -
  from assms obtain xo where xo: "getModuleOptions this n w = Inr xo"
    by (auto simp: registerStoreModule_def split: sum.splits)
  define r where "r = (case (case xo of None \<Rightarrow> None | Some opts \<Rightarrow> storeModuleOptions opts) of
                   Some so \<Rightarrow> customizeStoreModule m so w
                 | None \<Rightarrow> (Inr m, w))"
  have r: "sameLogs w (snd r)"
    using customizeStoreModule_logs by (auto simp: r_def sameLogs_def split: option.splits)
  obtain res w2 where p: "r = (res, w2)" by (cases r)
  with assms xo obtain c where c: "res = Inr c"
    by (cases res) (auto simp: registerStoreModule_def r_def[symmetric])
  define w3 where "w3 = updStoreModule c (\<lambda>d. d\<lparr>namespaced := Some True\<rparr>) w2"
  from r p have w3: "sameLogs w w3"
    by (simp add: w3_def updStoreModule_def sameLogs_def)
  from assms xo p c have
    "andThen (addConfigMutation c w3)
       (\<lambda>w2. case store (plugins w2 this) of
                None \<Rightarrow> (Some TypeError, w2)
              | Some st \<Rightarrow> storeRegisterModule st [''x'', n] (StoreModuleAt c) w2) = (None, w1)"
    by (simp add: registerStoreModule_def r_def[symmetric] w3_def)
  then obtain w4 where w4: "addConfigMutation c w3 = (None, w4)" and
    s: "(case store (plugins w4 this) of
                None \<Rightarrow> (Some TypeError, w4)
              | Some st \<Rightarrow> storeRegisterModule st [''x'', n] (StoreModuleAt c) w4) = (None, w1)"
    by (auto dest: andThen_None)
  from addConfigMutation_logs[of w3 c] w4 w3 have l4: "sameLogs w w4"
    by (simp add: sameLogs_def)
  from s obtain st where st: "store (plugins w4 this) = Some st"
    and reg: "storeRegisterModule st [''x'', n] (StoreModuleAt c) w4 = (None, w1)"
    by (auto split: option.splits)
  from reg l4 st show ?thesis
    by (auto simp: storeRegisterModule_def updStore_def sameLogs_def split: option.splits)
qed

lemma forEach_invokeWire:
  "forEach (\<lambda>kw w2. invokeWire (bus (plugins w2 this)) ev (store (plugins w2 this)) kw w2) ws w
     = (None, w1) \<Longrightarrow>
   w1 = w\<lparr>wired := wired w @
            map (\<lambda>(key, wi). (bus (plugins w this), ev, key, wireId wi, store (plugins w this))) ws\<rparr>"
proof (induction ws arbitrary: w)
  case Nil
  then show ?case by simp
next
  case (Cons kw ws)
  obtain key i t where kw: "kw = (key, Wire i t)"
    by (cases kw) (metis wire.exhaust)
  from Cons.prems obtain w2 where
    1: "invokeWire (bus (plugins w this)) ev (store (plugins w this)) kw w = (None, w2)" and
    2: "forEach (\<lambda>kw w2. invokeWire (bus (plugins w2 this)) ev (store (plugins w2 this)) kw w2) ws w2
          = (None, w1)"
    by (auto dest: andThen_None)
  from 1 kw have w2: "w2 = w\<lparr>wired := wired w @ [(bus (plugins w this), ev, key, i, store (plugins w this))]\<rparr>"
    by (cases t) auto
  from Cons.IH[OF 2] show ?case
    by (simp add: w2 kw)
qed

lemma forEach_wiring:
  "forEach (\<lambda>(ev, ws) w1.
       forEach (\<lambda>kw w2. invokeWire (bus (plugins w2 this)) ev (store (plugins w2 this)) kw w2) ws w1)
     cw w = (None, w1) \<Longrightarrow>
   w1 = w\<lparr>wired := wired w @ wireInvocations (bus (plugins w this)) (store (plugins w this)) cw\<rparr>"
proof (induction cw arbitrary: w)
  case Nil
  then show ?case by (simp add: wireInvocations_def)
next
  case (Cons p cw)
  obtain ev ws where p: "p = (ev, ws)" by (cases p)
  from Cons.prems p obtain w2 where
    1: "forEach (\<lambda>kw w2. invokeWire (bus (plugins w2 this)) ev (store (plugins w2 this)) kw w2) ws w
          = (None, w2)" and
    2: "forEach (\<lambda>(ev, ws) w1.
       forEach (\<lambda>kw w2. invokeWire (bus (plugins w2 this)) ev (store (plugins w2 this)) kw w2) ws w1)
     cw w2 = (None, w1)"
    by (auto dest: andThen_None)
  from Cons.IH[OF 2] forEach_invokeWire[OF 1] show ?case
    by (simp add: p wireInvocations_def)
qed

lemma registerWiring_effect:
  assumes "registerWiring this n wr w = (None, w1)"
  shows "\<exists>xo. getModuleOptions this n w = Inr xo \<and>
           w1 = w\<lparr>wired := wired w @
                  wireInvocations (bus (plugins w this)) (store (plugins w this))
                    (customizedWiring xo wr)\<rparr>"
  using assms
  by (auto simp: registerWiring_def customizedWiring_def Let_def split: sum.splits
      dest!: forEach_wiring)

lemma registerStoreEmitter_effect:
  "registerStoreEmitter this n st g entry w =
     w\<lparr>stores := (stores w)(st := (stores w st)\<lparr>watchers := watchers (stores w st) @ [emitterWatcher this n g entry]\<rparr>),
       microtasks := microtasks w @ emitterTasks this n g entry\<rparr>"
  by (cases "immediate (asStateSelector (snd entry))")
     (auto simp: registerStoreEmitter_def Let_def storeWatch_def updStore_def emitterWatcher_def
        emitterTasks_def emitterTask_def isImmediate_def)

lemma forEach_emitters:
  "forEach (\<lambda>entry w1. (None, registerStoreEmitter this n st g entry w1)) es w =
     (None, w\<lparr>stores := (stores w)(st := (stores w st)\<lparr>watchers := watchers (stores w st) @ map (emitterWatcher this n g) es\<rparr>),
       microtasks := microtasks w @ concat (map (emitterTasks this n g) es)\<rparr>)"
proof (induction es arbitrary: w)
  case Nil
  show ?case by simp
next
  case (Cons e es)
  let ?F = "\<lambda>entry w1. (None, registerStoreEmitter this n st g entry w1)"
  let ?w2 = "registerStoreEmitter this n st g e w"
  have "forEach ?F (e # es) w = forEach ?F es ?w2"
    by (simp add: andThen_def)
  also have "\<dots> = (None, ?w2\<lparr>stores := (stores ?w2)(st := (stores ?w2 st)\<lparr>watchers :=
                 watchers (stores ?w2 st) @ map (emitterWatcher this n g) es\<rparr>),
               microtasks := microtasks ?w2 @ concat (map (emitterTasks this n g) es)\<rparr>)"
    by (rule Cons.IH)
  also have "\<dots> = (None, w\<lparr>stores := (stores w)(st := (stores w st)\<lparr>watchers :=
                 watchers (stores w st) @ map (emitterWatcher this n g) (e # es)\<rparr>),
               microtasks := microtasks w @ concat (map (emitterTasks this n g) (e # es))\<rparr>)"
    by (simp add: registerStoreEmitter_effect)
  finally show ?case .
qed

lemma registerStoreEmitters_effect:
  assumes "registerStoreEmitters this n m se w = (None, w1)"
  shows "\<exists>xo st. getModuleOptions this n w = Inr xo \<and> store (plugins w this) = Some st \<and>
           w1 = w\<lparr>stores := (stores w)(st := (stores w st)\<lparr>watchers := watchers (stores w st) @
                     map (emitterWatcher this n (GettersProxy st n m)) (customizedStoreEmitters xo se)\<rparr>),
                  microtasks := microtasks w @
                     concat (map (emitterTasks this n (GettersProxy st n m)) (customizedStoreEmitters xo se))\<rparr>"
  using assms
  by (auto simp: registerStoreEmitters_def customizedStoreEmitters_def Let_def forEach_emitters
      getGettersProxyFromModule_def split: sum.splits option.splits)

lemma getModuleOptions_plugins:
  "plugins w' = plugins w \<Longrightarrow> getModuleOptions this n w' = getModuleOptions this n w"
  by (simp add: getModuleOptions_def)

lemma registerXModule_noop:
  "name xm \<in> installedXModules (plugins w this) \<Longrightarrow> registerXModule this xm w = (None, w)"
  by (simp add: registerXModule_def)

lemma registerXModule_installs:
  assumes "registerXModule this xm w = (None, w1)"
  shows "name xm \<in> installedXModules (plugins w1 this)"
proof (cases "name xm \<in> installedXModules (plugins w this)")
  case True
  with assms show ?thesis by (simp add: registerXModule_def)
next
  case False
  with assms obtain w3 where
    "w1 = updPlugin this (\<lambda>p. p\<lparr>installedXModules := insert (name xm) (installedXModules p)\<rparr>) w3"
    by (auto simp: registerXModule_def dest!: andThen_None)
  then show ?thesis by (simp add: updPlugin_def)
qed

lemma forEach_noop:
  assumes "\<And>x. x \<in> set xs \<Longrightarrow> f x w = (None, w)"
  shows "forEach f xs w = (None, w)"
  using assms by (induction xs) (simp_all add: andThen_def)


lemma registerXModule_steps:
  assumes new: "name xm \<notin> installedXModules (plugins w this)"
    and r: "registerXModule this xm w = (None, w1)"
  shows "\<exists>wA wB wC.
    registerStoreModule this (name xm) (storeModule xm) w = (None, wA) \<and>
    registerWiring this (name xm) (wiring xm) wA = (None, wB) \<and>
    registerStoreEmitters this (name xm) (storeModule xm) (storeEmitters xm) wB = (None, wC) \<and>
    w1 = updPlugin this (\<lambda>p. p\<lparr>installedXModules := insert (name xm) (installedXModules p)\<rparr>) wC"
proof -
  from r new have 0: "andThen (registerStoreModule this (name xm) (storeModule xm) w) (\<lambda>w1.
        andThen (registerWiring this (name xm) (wiring xm) w1) (\<lambda>w2.
        andThen (registerStoreEmitters this (name xm) (storeModule xm) (storeEmitters xm) w2) (\<lambda>w3.
          (None, updPlugin this
             (\<lambda>p. p\<lparr>installedXModules := insert (name xm) (installedXModules p)\<rparr>) w3)))) = (None, w1)"
    by (simp add: registerXModule_def)
  from andThen_None[OF 0] obtain wA where
    A: "registerStoreModule this (name xm) (storeModule xm) w = (None, wA)" and
    1: "andThen (registerWiring this (name xm) (wiring xm) wA) (\<lambda>w2.
        andThen (registerStoreEmitters this (name xm) (storeModule xm) (storeEmitters xm) w2) (\<lambda>w3.
          (None, updPlugin this
             (\<lambda>p. p\<lparr>installedXModules := insert (name xm) (installedXModules p)\<rparr>) w3))) = (None, w1)"
    by blast
  from andThen_None[OF 1] obtain wB where
    B: "registerWiring this (name xm) (wiring xm) wA = (None, wB)" and
    2: "andThen (registerStoreEmitters this (name xm) (storeModule xm) (storeEmitters xm) wB) (\<lambda>w3.
          (None, updPlugin this
             (\<lambda>p. p\<lparr>installedXModules := insert (name xm) (installedXModules p)\<rparr>) w3)) = (None, w1)"
    by blast
  from andThen_None[OF 2] obtain wC where
    C: "registerStoreEmitters this (name xm) (storeModule xm) (storeEmitters xm) wB = (None, wC)" and
    3: "w1 = updPlugin this (\<lambda>p. p\<lparr>installedXModules := insert (name xm) (installedXModules p)\<rparr>) wC"
    by auto
  from A B C 3 show ?thesis by blast
qed

lemma registerXModule_effect_full:
  assumes new: "name xm \<notin> installedXModules (plugins w this)"
    and r: "registerXModule this xm w = (None, w1)"
  shows "\<exists>c st xo.
         store (plugins w this) = Some st \<and> getModuleOptions this (name xm) w = Inr xo \<and>
         registered (stores w1 st) =
           registered (stores w st) @ [([''x'', name xm], StoreModuleAt c)] \<and>
         wired w1 =
           wired w @ wireInvocations (bus (plugins w this)) (Some st)
                       (customizedWiring xo (wiring xm)) \<and>
         watchers (stores w1 st) =
           watchers (stores w st) @
             map (emitterWatcher this (name xm) (GettersProxy st (name xm) (storeModule xm)))
               (customizedStoreEmitters xo (storeEmitters xm)) \<and>
         plugins w1 = (plugins w)(this := (plugins w this)
           \<lparr>installedXModules := insert (name xm) (installedXModules (plugins w this))\<rparr>) \<and>
         pendingXModules w1 = pendingXModules w"
proof -
  from registerXModule_steps[OF new r] obtain wA wB wC where
    A: "registerStoreModule this (name xm) (storeModule xm) w = (None, wA)" and
    B: "registerWiring this (name xm) (wiring xm) wA = (None, wB)" and
    C: "registerStoreEmitters this (name xm) (storeModule xm) (storeEmitters xm) wB = (None, wC)" and
    w1: "w1 = updPlugin this (\<lambda>p. p\<lparr>installedXModules := insert (name xm) (installedXModules p)\<rparr>) wC"
    by (elim exE conjE) (rule that)
  from registerStoreModule_effect[OF A] obtain c st where
    st: "store (plugins w this) = Some st" and
    a: "registered (stores wA st) = registered (stores w st) @ [([''x'', name xm], StoreModuleAt c)]"
       "watchers (stores wA st) = watchers (stores w st)"
       "wired wA = wired w" and pa: "plugins wA = plugins w"
       and qa: "pendingXModules wA = pendingXModules w"
    by (elim exE conjE) (rule that)
  from registerWiring_effect[OF B] obtain xo where
    xo: "getModuleOptions this (name xm) wA = Inr xo" and
    b: "wB = wA\<lparr>wired := wired wA @
                  wireInvocations (bus (plugins wA this)) (store (plugins wA this))
                    (customizedWiring xo (wiring xm))\<rparr>"
    by (elim exE conjE) (rule that)
  have xo': "getModuleOptions this (name xm) w = Inr xo"
    using xo getModuleOptions_plugins[OF pa, of this "name xm"] by simp
  have pb: "plugins wB = plugins w" "stores wB = stores wA" "pendingXModules wB = pendingXModules w"
    and wb: "wired wB = wired w @ wireInvocations (bus (plugins w this)) (Some st)
                    (customizedWiring xo (wiring xm))"
    by (simp_all add: b pa qa a st)
  from registerStoreEmitters_effect[OF C] obtain xo2 st2 where
    2: "getModuleOptions this (name xm) wB = Inr xo2" "store (plugins wB this) = Some st2" and
    c: "wC = wB\<lparr>stores := (stores wB)(st2 := (stores wB st2)\<lparr>watchers := watchers (stores wB st2) @
                     map (emitterWatcher this (name xm) (GettersProxy st2 (name xm) (storeModule xm)))
                       (customizedStoreEmitters xo2 (storeEmitters xm))\<rparr>),
                  microtasks := microtasks wB @
                     concat (map (emitterTasks this (name xm) (GettersProxy st2 (name xm) (storeModule xm)))
                       (customizedStoreEmitters xo2 (storeEmitters xm)))\<rparr>"
    by (elim exE conjE) (rule that)
  from 2 have e: "xo2 = xo" "st2 = st"
    using xo' st pb by (simp_all add: getModuleOptions_def)
  have r1: "registered (stores w1 st) = registered (stores w st) @ [([''x'', name xm], StoreModuleAt c)]"
    by (simp add: w1 updPlugin_def c e pb a)
  have r2: "wired w1 = wired w @ wireInvocations (bus (plugins w this)) (Some st)
                       (customizedWiring xo (wiring xm))"
    by (simp add: w1 updPlugin_def c wb)
  have r3: "watchers (stores w1 st) =
           watchers (stores w st) @
             map (emitterWatcher this (name xm) (GettersProxy st (name xm) (storeModule xm)))
               (customizedStoreEmitters xo (storeEmitters xm))"
    by (simp add: w1 updPlugin_def c e pb a)
  have r4: "plugins w1 = (plugins w)(this := (plugins w this)
           \<lparr>installedXModules := insert (name xm) (installedXModules (plugins w this))\<rparr>)"
    by (simp add: w1 updPlugin_def c pb)
  have r5: "pendingXModules w1 = pendingXModules w"
    by (simp add: w1 updPlugin_def c pb)
  from st xo' r1 r2 r3 r4 r5 show ?thesis by (intro exI conjI)
qed

lemma registerXModule_effect:
  assumes new: "name xm \<notin> installedXModules (plugins w this)"
    and r: "registerXModule this xm w = (None, w1)"
  shows "\<exists>c st xo.
         store (plugins w this) = Some st \<and> getModuleOptions this (name xm) w = Inr xo \<and>
         registered (stores w1 st) =
           registered (stores w st) @ [([''x'', name xm], StoreModuleAt c)] \<and>
         wired w1 =
           wired w @ wireInvocations (bus (plugins w this)) (Some st)
                       (customizedWiring xo (wiring xm)) \<and>
         watchers (stores w1 st) =
           watchers (stores w st) @
             map (emitterWatcher this (name xm) (GettersProxy st (name xm) (storeModule xm)))
               (customizedStoreEmitters xo (storeEmitters xm))"
proof -
  from registerXModule_effect_full[OF new r] obtain c st xo where
    "store (plugins w this) = Some st" "getModuleOptions this (name xm) w = Inr xo"
    "registered (stores w1 st) =
           registered (stores w st) @ [([''x'', name xm], StoreModuleAt c)]"
    "wired w1 =
           wired w @ wireInvocations (bus (plugins w this)) (Some st)
                       (customizedWiring xo (wiring xm))"
    "watchers (stores w1 st) =
           watchers (stores w st) @
             map (emitterWatcher this (name xm) (GettersProxy st (name xm) (storeModule xm)))
               (customizedStoreEmitters xo (storeEmitters xm))"
    by (elim exE conjE) (rule that)
  then show ?thesis by (intro exI conjI)
qed

text \<open>
  Claim C1. Registering a module whose name is already in the set of installed modules
  is a no-op. A successful registration of a new name puts the name into the set and
  registers the store module, the wiring and the store emitters once: one
  \<^verbatim>\<open>registerModule\<close> call under \<^verbatim>\<open>['x', name]\<close>, one invocation of every wire, one
  watcher for every store emitter; and every later sequence of registrations of that
  name changes nothing.
\<close>

theorem registerXModule_once:
  "(name xm \<in> installedXModules (plugins w this) \<longrightarrow> registerXModule this xm w = (None, w)) \<and>
   (name xm \<notin> installedXModules (plugins w this) \<and> registerXModule this xm w = (None, w1) \<longrightarrow>
      name xm \<in> installedXModules (plugins w1 this) \<and>
      (\<exists>c st xo.
         store (plugins w this) = Some st \<and> getModuleOptions this (name xm) w = Inr xo \<and>
         registered (stores w1 st) =
           registered (stores w st) @ [([''x'', name xm], StoreModuleAt c)] \<and>
         wired w1 =
           wired w @ wireInvocations (bus (plugins w this)) (Some st)
                       (customizedWiring xo (wiring xm)) \<and>
         watchers (stores w1 st) =
           watchers (stores w st) @
             map (emitterWatcher this (name xm) (GettersProxy st (name xm) (storeModule xm)))
               (customizedStoreEmitters xo (storeEmitters xm))) \<and>
      (\<forall>xms. (\<forall>x \<in> set xms. name x = name xm) \<longrightarrow>
             forEach (registerXModule this) xms w1 = (None, w1)))"
proof (intro conjI impI allI)
  assume "name xm \<in> installedXModules (plugins w this)"
  then show "registerXModule this xm w = (None, w)"
    by (rule registerXModule_noop)
next
  assume a: "name xm \<notin> installedXModules (plugins w this) \<and> registerXModule this xm w = (None, w1)"
  then show "name xm \<in> installedXModules (plugins w1 this)"
    using registerXModule_installs by blast
next
  assume a: "name xm \<notin> installedXModules (plugins w this) \<and> registerXModule this xm w = (None, w1)"
  then show "\<exists>c st xo.
         store (plugins w this) = Some st \<and> getModuleOptions this (name xm) w = Inr xo \<and>
         registered (stores w1 st) =
           registered (stores w st) @ [([''x'', name xm], StoreModuleAt c)] \<and>
         wired w1 =
           wired w @ wireInvocations (bus (plugins w this)) (Some st)
                       (customizedWiring xo (wiring xm)) \<and>
         watchers (stores w1 st) =
           watchers (stores w st) @
             map (emitterWatcher this (name xm) (GettersProxy st (name xm) (storeModule xm)))
               (customizedStoreEmitters xo (storeEmitters xm))"
    using registerXModule_effect[of xm w this w1] by simp
next
  fix xms :: "xModule list"
  assume a: "name xm \<notin> installedXModules (plugins w this) \<and> registerXModule this xm w = (None, w1)"
    and same: "\<forall>x \<in> set xms. name x = name xm"
  from a have "name xm \<in> installedXModules (plugins w1 this)"
    using registerXModule_installs by blast
  with same show "forEach (registerXModule this) xms w1 = (None, w1)"
    by (intro forEach_noop registerXModule_noop) simp
qed

lemma installedWorld_eval:
  "fst (install 0 9 (Some exampleOptions) moduleWorld) = None"
  "store (plugins installedWorld 0) = Some 3"
  "installedXModules (plugins installedWorld 0) = {}"
  "registered (stores installedWorld 3) = [([''x''], RootXStoreModule)]"
  "wired installedWorld = []"
  "watchers (stores installedWorld 3) = []"
  by (simp_all add: installedWorld_def example_defs install_eval)

lemma searchBox_registered:
  "fst (registerXModule 0 searchBox installedWorld) = None"
  "registered (stores (snd (registerXModule 0 searchBox installedWorld)) 3) =
     [([''x''], RootXStoreModule), ([''x'', ''searchBox''], StoreModuleAt 1)]"
  "wired (snd (registerXModule 0 searchBox installedWorld)) = [(7, ''UserTyped'', ''setQuery'', 0, Some 3)]"
  "length (watchers (stores (snd (registerXModule 0 searchBox installedWorld)) 3)) = 2"
  by (simp_all add: installedWorld_def example_defs install_eval register_eval)

theorem registerXModule_once_witness:
  "name searchBox \<notin> installedXModules (plugins installedWorld 0) \<and>
   fst (registerXModule 0 searchBox installedWorld) = None \<and>
   name searchBox \<in> installedXModules (plugins (snd (registerXModule 0 searchBox installedWorld)) 0) \<and>
   registerXModule 0 searchBox (snd (registerXModule 0 searchBox installedWorld)) =
     (None, snd (registerXModule 0 searchBox installedWorld)) \<and>
   forEach (registerXModule 0) [brokenSearchBox, searchBox]
       (snd (registerXModule 0 searchBox installedWorld)) =
     (None, snd (registerXModule 0 searchBox installedWorld)) \<and>
   registered (stores (snd (registerXModule 0 searchBox installedWorld)) 3) =
     [([''x''], RootXStoreModule), ([''x'', ''searchBox''], StoreModuleAt 1)] \<and>
   wired (snd (registerXModule 0 searchBox installedWorld)) =
     [(7, ''UserTyped'', ''setQuery'', 0, Some 3)]"
proof -
  define w1 where "w1 = snd (registerXModule 0 searchBox installedWorld)"
  have new: "name searchBox \<notin> installedXModules (plugins installedWorld 0)"
    by (simp add: installedWorld_eval)
  have r: "registerXModule 0 searchBox installedWorld = (None, w1)"
    unfolding w1_def using searchBox_registered(1) by (metis prod.collapse)
  have n: "\<forall>x \<in> set [brokenSearchBox, searchBox]. name x = name searchBox"
    by (simp add: brokenSearchBox_def)
  from registerXModule_once[of searchBox installedWorld 0 w1] new r
  have 1: "name searchBox \<in> installedXModules (plugins w1 0)"
    and 2: "\<forall>xms. (\<forall>x \<in> set xms. name x = name searchBox) \<longrightarrow>
             forEach (registerXModule 0) xms w1 = (None, w1)"
    by blast+
  from 2 n have 3: "forEach (registerXModule 0) [brokenSearchBox, searchBox] w1 = (None, w1)"
    by blast
  from registerXModule_once[of searchBox w1 0 w1] 1
  have 4: "registerXModule 0 searchBox w1 = (None, w1)"
    by blast
  from new r 1 3 4 searchBox_registered(2,3) show ?thesis
    unfolding w1_def[symmetric] by simp
qed

section \<open>Store emitters\<close>

lemma watchCallback_emitterWatcher:
  "watchCallback (emitterWatcher this n g entry) newValue oldValue w2 =
     (if (case isDifferent (asStateSelector (snd entry)) of
            None \<Rightarrow> True
          | Some d \<Rightarrow> d newValue oldValue)
      then w2\<lparr>emitted := emitted w2 @
                 [(bus (plugins w2 this), fst entry, newValue, Some (Metadata n))]\<rparr>
      else w2)"
  by (simp add: watchCallback_def emitterWatcher_def busEmit_def split: option.splits)

lemma searchBox_emitters:
  "fst (registerStoreEmitters 0 ''searchBox'' 1 (storeEmitters searchBox) installedWorld) = None"
  "getModuleOptions 0 ''searchBox'' installedWorld = Inr None"
  "bus (plugins installedWorld 0) = 7"
  "emitted installedWorld = []"
  "microtasks installedWorld = []"
  by (simp_all add: installedWorld_def example_defs install_eval register_eval)

text \<open>
  Claim C5. For every store emitter that a registration registers, the callback handed
  to \<^verbatim>\<open>store.watch\<close>, invoked with a new and an old value, emits the bound event with
  the new value as payload and the metadata \<^verbatim>\<open>{ moduleName }\<close> exactly when the
  emitter's \<^verbatim>\<open>isDifferent\<close> holds of the two values, and does nothing otherwise; an
  emitter that gives no \<^verbatim>\<open>isDifferent\<close> (a bare selector among them) gets the default,
  which is true of every pair, so that its callback always emits.
\<close>

theorem store_emitter_callback:
  assumes "registerStoreEmitters this n m se w = (None, w1)"
  shows "\<exists>st xo.
           store (plugins w this) = Some st \<and> getModuleOptions this n w = Inr xo \<and>
           watchers (stores w1 st) =
             watchers (stores w st) @
               map (emitterWatcher this n (GettersProxy st n m)) (customizedStoreEmitters xo se) \<and>
           (\<forall>entry \<in> set (customizedStoreEmitters xo se). \<forall>newValue oldValue w2.
              watchCallback (emitterWatcher this n (GettersProxy st n m) entry) newValue oldValue w2 =
                (if (case isDifferent (asStateSelector (snd entry)) of
                       None \<Rightarrow> True
                     | Some d \<Rightarrow> d newValue oldValue)
                 then w2\<lparr>emitted := emitted w2 @
                            [(bus (plugins w2 this), fst entry, newValue, Some (Metadata n))]\<rparr>
                 else w2))"
proof -
  from registerStoreEmitters_effect[OF assms] obtain xo st where
    1: "getModuleOptions this n w = Inr xo" "store (plugins w this) = Some st" and
    w1: "w1 = w\<lparr>stores := (stores w)(st := (stores w st)\<lparr>watchers := watchers (stores w st) @
                     map (emitterWatcher this n (GettersProxy st n m)) (customizedStoreEmitters xo se)\<rparr>),
                  microtasks := microtasks w @
                     concat (map (emitterTasks this n (GettersProxy st n m)) (customizedStoreEmitters xo se))\<rparr>"
    by (elim exE conjE) (rule that)
  have 2: "watchers (stores w1 st) =
             watchers (stores w st) @
               map (emitterWatcher this n (GettersProxy st n m)) (customizedStoreEmitters xo se)"
    by (simp add: w1)
  show ?thesis
    by (rule exI[of _ st], rule exI[of _ xo]) (simp add: 1 2 watchCallback_emitterWatcher)
qed

theorem store_emitter_callback_witness:
  "fst (registerStoreEmitters 0 ''searchBox'' 1 (storeEmitters searchBox) installedWorld) = None \<and>
   map watchEvent
     (watchers (stores (snd (registerStoreEmitters 0 ''searchBox'' 1 (storeEmitters searchBox)
        installedWorld)) 3)) = [''QueryChanged'', ''ConfigChanged''] \<and>
   emitted (watchCallback
      (emitterWatcher 0 ''searchBox'' (GettersProxy 3 ''searchBox'' 1)
         (''QueryChanged'', SimpleStateSelector querySelector))
      (JStr ''a'') (JStr ''a'') installedWorld) =
     [(7, ''QueryChanged'', JStr ''a'', Some (Metadata ''searchBox''))] \<and>
   emitted (watchCallback
      (emitterWatcher 0 ''searchBox'' (GettersProxy 3 ''searchBox'' 1) (storeEmitters searchBox ! 1))
      (JNum 2) (JNum 1) installedWorld) =
     [(7, ''ConfigChanged'', JNum 2, Some (Metadata ''searchBox''))] \<and>
   emitted (watchCallback
      (emitterWatcher 0 ''searchBox'' (GettersProxy 3 ''searchBox'' 1) (storeEmitters searchBox ! 1))
      (JNum 1) (JNum 1) installedWorld) = []"
proof -
  define w1 where
    "w1 = snd (registerStoreEmitters 0 ''searchBox'' 1 (storeEmitters searchBox) installedWorld)"
  have r: "registerStoreEmitters 0 ''searchBox'' 1 (storeEmitters searchBox) installedWorld = (None, w1)"
    unfolding w1_def using searchBox_emitters(1) by (metis prod.collapse)
  from store_emitter_callback[OF r] obtain st xo where
    st: "store (plugins installedWorld 0) = Some st" and
    xo: "getModuleOptions 0 ''searchBox'' installedWorld = Inr xo" and
    ws: "watchers (stores w1 st) =
           watchers (stores installedWorld st) @
             map (emitterWatcher 0 ''searchBox'' (GettersProxy st ''searchBox'' 1))
               (customizedStoreEmitters xo (storeEmitters searchBox))" and
    cb: "\<forall>entry \<in> set (customizedStoreEmitters xo (storeEmitters searchBox)).
           \<forall>newValue oldValue w2.
              watchCallback (emitterWatcher 0 ''searchBox'' (GettersProxy st ''searchBox'' 1) entry)
                  newValue oldValue w2 =
                (if (case isDifferent (asStateSelector (snd entry)) of
                       None \<Rightarrow> True
                     | Some d \<Rightarrow> d newValue oldValue)
                 then w2\<lparr>emitted := emitted w2 @
                            [(bus (plugins w2 0), fst entry, newValue, Some (Metadata ''searchBox''))]\<rparr>
                 else w2)"
    by (elim exE conjE) (rule that)
  from st xo have e: "st = 3" "xo = None"
    by (simp_all add: installedWorld_eval searchBox_emitters)
  have se: "customizedStoreEmitters None (storeEmitters searchBox) = storeEmitters searchBox"
    by (simp add: customizedStoreEmitters_def)
  have m1: "(''QueryChanged'', SimpleStateSelector querySelector) \<in> set (storeEmitters searchBox)"
    and m2: "storeEmitters searchBox ! 1 \<in> set (storeEmitters searchBox)"
    by (simp_all add: searchBox_def)
  from cb m1 have c1:
    "watchCallback (emitterWatcher 0 ''searchBox'' (GettersProxy 3 ''searchBox'' 1)
         (''QueryChanged'', SimpleStateSelector querySelector)) (JStr ''a'') (JStr ''a'') installedWorld =
       installedWorld\<lparr>emitted := emitted installedWorld @
          [(bus (plugins installedWorld 0), ''QueryChanged'', JStr ''a'', Some (Metadata ''searchBox''))]\<rparr>"
    unfolding e se by simp
  from cb m2 have c2:
    "\<And>newValue oldValue. watchCallback (emitterWatcher 0 ''searchBox'' (GettersProxy 3 ''searchBox'' 1)
         (storeEmitters searchBox ! 1)) newValue oldValue installedWorld =
       (if newValue \<noteq> oldValue
        then installedWorld\<lparr>emitted := emitted installedWorld @
          [(bus (plugins installedWorld 0), ''ConfigChanged'', newValue, Some (Metadata ''searchBox''))]\<rparr>
        else installedWorld)"
    unfolding e se by (simp add: searchBox_def)
  from ws have w: "map watchEvent (watchers (stores w1 3)) = [''QueryChanged'', ''ConfigChanged'']"
    unfolding e se by (simp add: installedWorld_eval searchBox_def emitterWatcher_def)
  from w c1 c2 searchBox_emitters show ?thesis
    unfolding w1_def[symmetric] by simp
qed

lemma concat_emitterTasks:
  "concat (map (emitterTasks this n g) es) = map (emitterTask this n g) (filter isImmediate es)"
  by (induction es) (simp_all add: emitterTasks_def)

lemma runMicrotask_emitterTask:
  "store (plugins w2 this) = Some st2 \<Longrightarrow>
   runMicrotask (emitterTask this n g entry) w2 =
     (None, w2\<lparr>emitted := emitted w2 @
        [(bus (plugins w2 this), fst entry,
          selector (asStateSelector (snd entry)) (getProp (xState (stores w2 st2)) n) g, None)]\<rparr>)"
  by (simp add: runMicrotask_def emitterTask_def busEmit_def)

text \<open>
  Claim C6. A registration of store emitters emits nothing itself; it hands to the
  microtask queue exactly one callback for every emitter whose \<^verbatim>\<open>immediate\<close> is true
  and none for the others. Run later, such a callback emits once: the bound event, with
  the value the selector has on the module state at that time, and without metadata.
\<close>

theorem immediate_emitter_deferred:
  assumes "registerStoreEmitters this n m se w = (None, w1)"
  shows "emitted w1 = emitted w \<and>
         (\<exists>st xo.
            store (plugins w this) = Some st \<and> getModuleOptions this n w = Inr xo \<and>
            microtasks w1 =
              microtasks w @
                map (emitterTask this n (GettersProxy st n m))
                  (filter isImmediate (customizedStoreEmitters xo se)) \<and>
            (\<forall>entry \<in> set (filter isImmediate (customizedStoreEmitters xo se)). \<forall>w2 st2.
               store (plugins w2 this) = Some st2 \<longrightarrow>
               runMicrotask (emitterTask this n (GettersProxy st n m) entry) w2 =
                 (None, w2\<lparr>emitted := emitted w2 @
                    [(bus (plugins w2 this), fst entry,
                      selector (asStateSelector (snd entry)) (getProp (xState (stores w2 st2)) n)
                        (GettersProxy st n m),
                      None)]\<rparr>)))"
proof -
  from registerStoreEmitters_effect[OF assms] obtain xo st where
    1: "getModuleOptions this n w = Inr xo" "store (plugins w this) = Some st" and
    w1: "w1 = w\<lparr>stores := (stores w)(st := (stores w st)\<lparr>watchers := watchers (stores w st) @
                     map (emitterWatcher this n (GettersProxy st n m)) (customizedStoreEmitters xo se)\<rparr>),
                  microtasks := microtasks w @
                     concat (map (emitterTasks this n (GettersProxy st n m)) (customizedStoreEmitters xo se))\<rparr>"
    by (elim exE conjE) (rule that)
  have 2: "emitted w1 = emitted w"
    by (simp add: w1)
  have 3: "microtasks w1 =
              microtasks w @
                map (emitterTask this n (GettersProxy st n m))
                  (filter isImmediate (customizedStoreEmitters xo se))"
    by (simp add: w1 concat_emitterTasks)
  show ?thesis
    by (rule conjI[OF 2], rule exI[of _ st], rule exI[of _ xo])
       (simp add: 1 3 runMicrotask_emitterTask)
qed

theorem immediate_emitter_deferred_witness:
  "fst (registerStoreEmitters 0 ''searchBox'' 1 (storeEmitters searchBox) installedWorld) = None \<and>
   emitted (snd (registerStoreEmitters 0 ''searchBox'' 1 (storeEmitters searchBox) installedWorld)) = [] \<and>
   map taskEvent (microtasks (snd (registerStoreEmitters 0 ''searchBox'' 1 (storeEmitters searchBox)
      installedWorld))) = [''ConfigChanged''] \<and>
   store (plugins (snd (registerXModule 0 searchBox installedWorld)) 0) = Some 3 \<and>
   emitted (snd (runMicrotask
      (emitterTask 0 ''searchBox'' (GettersProxy 3 ''searchBox'' 1) (storeEmitters searchBox ! 1))
      (snd (registerXModule 0 searchBox installedWorld)))) =
     [(7, ''ConfigChanged'', JObj [(''debounce'', JNum 200)], None)]"
proof -
  define w1 where
    "w1 = snd (registerStoreEmitters 0 ''searchBox'' 1 (storeEmitters searchBox) installedWorld)"
  define w2 where "w2 = snd (registerXModule 0 searchBox installedWorld)"
  have r: "registerStoreEmitters 0 ''searchBox'' 1 (storeEmitters searchBox) installedWorld = (None, w1)"
    unfolding w1_def using searchBox_emitters(1) by (metis prod.collapse)
  from immediate_emitter_deferred[OF r] obtain st xo where
    em: "emitted w1 = emitted installedWorld" and
    st: "store (plugins installedWorld 0) = Some st" and
    xo: "getModuleOptions 0 ''searchBox'' installedWorld = Inr xo" and
    ts: "microtasks w1 =
              microtasks installedWorld @
                map (emitterTask 0 ''searchBox'' (GettersProxy st ''searchBox'' 1))
                  (filter isImmediate (customizedStoreEmitters xo (storeEmitters searchBox)))" and
    run: "\<forall>entry \<in> set (filter isImmediate (customizedStoreEmitters xo (storeEmitters searchBox))). \<forall>w2 st2.
               store (plugins w2 0) = Some st2 \<longrightarrow>
               runMicrotask (emitterTask 0 ''searchBox'' (GettersProxy st ''searchBox'' 1) entry) w2 =
                 (None, w2\<lparr>emitted := emitted w2 @
                    [(bus (plugins w2 0), fst entry,
                      selector (asStateSelector (snd entry)) (getProp (xState (stores w2 st2)) ''searchBox'')
                        (GettersProxy st ''searchBox'' 1),
                      None)]\<rparr>)"
    by (elim exE conjE) (rule that)
  from st xo have e: "st = 3" "xo = None"
    by (simp_all add: installedWorld_eval searchBox_emitters)
  have se: "customizedStoreEmitters None (storeEmitters searchBox) = storeEmitters searchBox"
    by (simp add: customizedStoreEmitters_def)
  have m2: "storeEmitters searchBox ! 1 \<in> set (filter isImmediate (storeEmitters searchBox))"
    by (simp add: searchBox_def isImmediate_def)
  have s2: "store (plugins w2 0) = Some 3" "bus (plugins w2 0) = 7" "emitted w2 = []"
    "getProp (xState (stores w2 3)) ''searchBox'' =
       JObj [(''query'', JStr []), (''config'', JObj [(''debounce'', JNum 200)])]"
    unfolding w2_def
    by (simp_all add: installedWorld_def example_defs install_eval register_eval)
  from run m2 s2(1) have
    "runMicrotask (emitterTask 0 ''searchBox'' (GettersProxy 3 ''searchBox'' 1) (storeEmitters searchBox ! 1)) w2 =
       (None, w2\<lparr>emitted := emitted w2 @
          [(bus (plugins w2 0), fst (storeEmitters searchBox ! 1),
            selector (asStateSelector (snd (storeEmitters searchBox ! 1)))
              (getProp (xState (stores w2 3)) ''searchBox'') (GettersProxy 3 ''searchBox'' 1),
            None)]\<rparr>)"
    unfolding e se by blast
  then have c: "emitted (snd (runMicrotask
      (emitterTask 0 ''searchBox'' (GettersProxy 3 ''searchBox'' 1) (storeEmitters searchBox ! 1)) w2)) =
     [(7, ''ConfigChanged'', JObj [(''debounce'', JNum 200)], None)]"
    using getProp_def[of "[(''query'', JStr []), (''config'', JObj [(''debounce'', JNum 200)])]" "''config''"]
    by (simp add: s2 searchBox_def configSelector_def)
  from ts have t: "map taskEvent (microtasks w1) = [''ConfigChanged'']"
    unfolding e se
    by (simp add: searchBox_emitters searchBox_def isImmediate_def emitterTask_def)
  from em t c s2(1) searchBox_emitters show ?thesis
    unfolding w1_def[symmetric] w2_def[symmetric] by simp
qed

section \<open>The queue of pending modules\<close>

lemma map_of_setProp: "map_of (setProp k v ps) = (map_of ps)(k \<mapsto> v)"
  by (induction ps) (auto simp: fun_eq_iff)

lemma keys_setProp:
  "map fst (setProp k v ps) = (if k \<in> fst ` set ps then map fst ps else map fst ps @ [k])"
  by (induction ps) auto

lemma keyset_setProp: "fst ` set (setProp k v ps) = insert k (fst ` set ps)"
  by (induction ps) auto

lemma set_setProp: "set (setProp k v ps) \<subseteq> insert (k, v) (set ps)"
  by (induction ps) auto

lemma find_append':
  "find P (xs @ ys) = (case find P xs of None \<Rightarrow> find P ys | Some x \<Rightarrow> Some x)"
  by (induction xs) auto

lemma map_of_enqueueAll:
  "map_of (enqueueAll xms q) n =
     (case find (\<lambda>xm. name xm = n) (rev xms) of None \<Rightarrow> map_of q n | Some xm \<Rightarrow> Some xm)"
proof (induction xms arbitrary: q)
  case Nil
  show ?case by (simp add: enqueueAll_def)
next
  case (Cons x xms)
  have "enqueueAll (x # xms) q = enqueueAll xms (setProp (name x) x q)"
    by (simp add: enqueueAll_def)
  then show ?case
    by (simp add: Cons.IH find_append' map_of_setProp split: option.splits)
qed

lemma distinct_enqueueAll:
  "distinct (map fst q) \<Longrightarrow> distinct (map fst (enqueueAll xms q))"
proof (induction xms arbitrary: q)
  case Nil
  then show ?case by (simp add: enqueueAll_def)
next
  case (Cons x xms)
  have "enqueueAll (x # xms) q = enqueueAll xms (setProp (name x) x q)"
    by (simp add: enqueueAll_def)
  moreover from Cons.prems have "distinct (map fst (setProp (name x) x q))"
    by (simp add: keys_setProp)
  ultimately show ?case
    using Cons.IH by simp
qed

lemma keys_enqueueAll:
  "fst ` set (enqueueAll xms q) = fst ` set q \<union> name ` set xms"
proof (induction xms arbitrary: q)
  case Nil
  show ?case by (simp add: enqueueAll_def)
next
  case (Cons x xms)
  have "enqueueAll (x # xms) q = enqueueAll xms (setProp (name x) x q)"
    by (simp add: enqueueAll_def)
  moreover have "fst ` set (setProp (name x) x q) = insert (name x) (fst ` set q)"
    by (rule keyset_setProp)
  ultimately show ?case
    using Cons.IH by auto
qed

lemma named_enqueueAll:
  "\<forall>(k, xm) \<in> set q. name xm = k \<Longrightarrow> \<forall>(k, xm) \<in> set (enqueueAll xms q). name xm = k"
proof (induction xms arbitrary: q)
  case Nil
  then show ?case by (simp add: enqueueAll_def)
next
  case (Cons x xms)
  have "enqueueAll (x # xms) q = enqueueAll xms (setProp (name x) x q)"
    by (simp add: enqueueAll_def)
  moreover from Cons.prems have "\<forall>(k, xm) \<in> set (setProp (name x) x q). name xm = k"
    using set_setProp[of "name x" x q] by auto
  ultimately show ?case
    using Cons.IH by simp
qed

lemma forEach_lazy:
  "staticInstance w = None \<Longrightarrow>
   forEach staticRegisterXModule xms w =
     (None, w\<lparr>pendingXModules := enqueueAll xms (pendingXModules w)\<rparr>)"
proof (induction xms arbitrary: w)
  case Nil
  then show ?case by (simp add: enqueueAll_def)
next
  case (Cons x xms)
  let ?w2 = "lazyRegisterXModule x w"
  have "forEach staticRegisterXModule (x # xms) w = forEach staticRegisterXModule xms ?w2"
    using Cons.prems by (simp add: staticRegisterXModule_def andThen_def)
  also have "\<dots> = (None, ?w2\<lparr>pendingXModules := enqueueAll xms (pendingXModules ?w2)\<rparr>)"
    by (rule Cons.IH) (use Cons.prems in \<open>simp add: lazyRegisterXModule_def\<close>)
  also have "\<dots> = (None, w\<lparr>pendingXModules := enqueueAll (x # xms) (pendingXModules w)\<rparr>)"
    by (simp add: lazyRegisterXModule_def enqueueAll_def)
  finally show ?case .
qed

lemma getModuleOptions_of:
  "options (plugins w this) = Some os \<Longrightarrow>
   getModuleOptions this n w = Inr (moduleOptionsOf os n)"
  by (simp add: getModuleOptions_def moduleOptionsOf_def split: option.splits)

lemma registerXModule_tasks:
  assumes new: "name xm \<notin> installedXModules (plugins w this)"
    and r: "registerXModule this xm w = (None, w1)"
  shows "\<exists>st xo.
         store (plugins w this) = Some st \<and> getModuleOptions this (name xm) w = Inr xo \<and>
         microtasks w1 =
           microtasks w @
             map (emitterTask this (name xm) (GettersProxy st (name xm) (storeModule xm)))
               (filter isImmediate (customizedStoreEmitters xo (storeEmitters xm)))"
proof -
  from registerXModule_steps[OF new r] obtain wA wB wC where
    A: "registerStoreModule this (name xm) (storeModule xm) w = (None, wA)" and
    B: "registerWiring this (name xm) (wiring xm) wA = (None, wB)" and
    C: "registerStoreEmitters this (name xm) (storeModule xm) (storeEmitters xm) wB = (None, wC)" and
    w1: "w1 = updPlugin this (\<lambda>p. p\<lparr>installedXModules := insert (name xm) (installedXModules p)\<rparr>) wC"
    by (elim exE conjE) (rule that)
  from registerStoreModule_effect[OF A] obtain st where
    st: "store (plugins w this) = Some st" and
    ma: "microtasks wA = microtasks w" and pa: "plugins wA = plugins w"
    by (elim exE conjE) (rule that)
  from registerWiring_effect[OF B] obtain xo where
    xo: "getModuleOptions this (name xm) wA = Inr xo" and
    b: "wB = wA\<lparr>wired := wired wA @
                  wireInvocations (bus (plugins wA this)) (store (plugins wA this))
                    (customizedWiring xo (wiring xm))\<rparr>"
    by (elim exE conjE) (rule that)
  have xo': "getModuleOptions this (name xm) w = Inr xo"
    using xo getModuleOptions_plugins[OF pa, of this "name xm"] by simp
  have pb: "plugins wB = plugins w" "microtasks wB = microtasks w"
    by (simp_all add: b pa ma)
  from registerStoreEmitters_effect[OF C] obtain xo2 st2 where
    2: "getModuleOptions this (name xm) wB = Inr xo2" "store (plugins wB this) = Some st2" and
    c: "microtasks wC = microtasks wB @
                     concat (map (emitterTasks this (name xm) (GettersProxy st2 (name xm) (storeModule xm)))
                       (customizedStoreEmitters xo2 (storeEmitters xm)))"
    by (elim exE conjE) simp
  from 2 have e: "xo2 = xo" "st2 = st"
    using xo' st pb by (simp_all add: getModuleOptions_def)
  have "microtasks w1 =
           microtasks w @
             map (emitterTask this (name xm) (GettersProxy st (name xm) (storeModule xm)))
               (filter isImmediate (customizedStoreEmitters xo (storeEmitters xm)))"
    by (simp add: w1 updPlugin_def c e pb concat_emitterTasks)
  with st xo' show ?thesis by (intro exI conjI)
qed

lemma drain_effect:
  assumes "distinct (map (\<lambda>p. name (snd p)) ps)"
    and "\<forall>p \<in> set ps. name (snd p) \<notin> installedXModules (plugins w this)"
    and "store (plugins w this) = Some st"
    and "options (plugins w this) = Some os"
    and "forEach (\<lambda>(key, xm) w1. registerXModule this xm w1) ps w = (None, w1)"
  shows "registeredPaths st w1 = registeredPaths st w @ map (\<lambda>p. [''x'', name (snd p)]) ps \<and>
         installedXModules (plugins w1 this) =
           installedXModules (plugins w this) \<union> (\<lambda>p. name (snd p)) ` set ps \<and>
         store (plugins w1 this) = Some st \<and>
         pendingXModules w1 = pendingXModules w \<and>
         wired w1 =
           wired w @ concat (map (\<lambda>p. moduleWires (bus (plugins w this)) st os (snd p)) ps) \<and>
         watchers (stores w1 st) =
           watchers (stores w st) @ concat (map (\<lambda>p. moduleWatchers this st os (snd p)) ps) \<and>
         microtasks w1 =
           microtasks w @ concat (map (\<lambda>p. moduleTasks this st os (snd p)) ps)"
  using assms
proof (induction ps arbitrary: w)
  case Nil
  then show ?case by simp
next
  case (Cons p ps)
  obtain key xm where p: "p = (key, xm)" by (cases p)
  from Cons.prems(5) p obtain w2 where
    1: "registerXModule this xm w = (None, w2)" and
    2: "forEach (\<lambda>(key, xm) w1. registerXModule this xm w1) ps w2 = (None, w1)"
    by (auto dest: andThen_None)
  from Cons.prems(2) p have new: "name xm \<notin> installedXModules (plugins w this)"
    by simp
  have xo: "getModuleOptions this (name xm) w = Inr (moduleOptionsOf os (name xm))"
    by (rule getModuleOptions_of[OF Cons.prems(4)])
  from registerXModule_effect_full[OF new 1] Cons.prems(3) xo obtain c where
    a: "registered (stores w2 st) = registered (stores w st) @ [([''x'', name xm], StoreModuleAt c)]"
    and wi: "wired w2 = wired w @ moduleWires (bus (plugins w this)) st os xm"
    and wa: "watchers (stores w2 st) = watchers (stores w st) @ moduleWatchers this st os xm"
    and b: "plugins w2 = (plugins w)(this := (plugins w this)
           \<lparr>installedXModules := insert (name xm) (installedXModules (plugins w this))\<rparr>)"
    and q: "pendingXModules w2 = pendingXModules w"
    by (auto simp: moduleWires_def moduleWatchers_def)
  from registerXModule_tasks[OF new 1] Cons.prems(3) xo have
    mt: "microtasks w2 = microtasks w @ moduleTasks this st os xm"
    by (auto simp: moduleTasks_def)
  from b Cons.prems(3,4) have st2: "store (plugins w2 this) = Some st"
    and o2: "options (plugins w2 this) = Some os"
    and b2: "bus (plugins w2 this) = bus (plugins w this)"
    and i2: "installedXModules (plugins w2 this) = insert (name xm) (installedXModules (plugins w this))"
    by simp_all
  from Cons.prems(1) p have d: "distinct (map (\<lambda>p. name (snd p)) ps)"
    and nx: "name xm \<notin> (\<lambda>p. name (snd p)) ` set ps"
    by simp_all
  have n: "\<forall>p \<in> set ps. name (snd p) \<notin> installedXModules (plugins w2 this)"
  proof
    fix q assume q: "q \<in> set ps"
    with nx have "name (snd q) \<noteq> name xm" by force
    with Cons.prems(2) q show "name (snd q) \<notin> installedXModules (plugins w2 this)"
      by (simp add: i2)
  qed
  from Cons.IH[OF d n st2 o2 2] show ?case
    by (simp add: p a i2 q registeredPaths_def wi wa mt b2)
qed

lemma registerConfig_logs:
  "registerConfig this w = (None, wc) \<Longrightarrow>
   wired wc = wired w \<and> microtasks wc = microtasks w \<and> stores wc = stores w \<and>
   bus (plugins wc this) = bus (plugins w this)"
  by (auto simp: registerConfig_def createAdapterConfigChangedListener_def andThen_def
      registerReactiveConfig_def updPlugin_def Let_def split: option.splits if_splits)

lemma registerStore_effect:
  assumes "options (plugins w this) = Some os" and "registerStore this w = (None, w1)"
  shows "\<exists>st. store (plugins w1 this) = Some st \<and>
           registeredPaths st w1 =
             (case storeOption os of None \<Rightarrow> [] | Some s \<Rightarrow> registeredPaths s w) @ [[''x'']] \<and>
           watchers (stores w1 st) =
             (case storeOption os of None \<Rightarrow> [] | Some s \<Rightarrow> watchers (stores w s)) \<and>
           pendingXModules w1 = pendingXModules w \<and>
           installedXModules (plugins w1 this) = installedXModules (plugins w this) \<and>
           options (plugins w1 this) = Some os \<and>
           bus (plugins w1 this) = bus (plugins w this) \<and>
           wired w1 = wired w \<and> microtasks w1 = microtasks w"
  using assms
  by (auto simp: registerStore_def vueCall_def andThen_def newStore_def updPlugin_def
      storeRegisterModule_def updStore_def registeredPaths_def Let_def split: option.splits)

lemma vueCall_sameButVue: "sameButVue w w1 \<Longrightarrow> sameButVue w (snd (vueCall k v c w1))"
  by (auto simp: vueCall_def sameButVue_def split: option.splits)

lemma applyMixins_sameButVue: "sameButVue w (snd (applyMixins this w))"
  by (auto simp: applyMixins_def vueCall_def sameButVue_def split: option.splits)

lemma registerFilters_sameButVue: "sameButVue w (snd (registerFilters this w))"
  unfolding registerFilters_def
proof (rule forEach_pres[where P="sameButVue w"])
  show "sameButVue w w" by (simp add: sameButVue_def)
next
  fix x :: "string \<times> nat" and w1
  assume "sameButVue w w1"
  then show "sameButVue w (snd ((case x of (filterName, filterFunction) \<Rightarrow> \<lambda>w1.
          case vue (plugins w1 this) of
            None \<Rightarrow> (Some TypeError, w1)
          | Some v \<Rightarrow> vueCall VueFilter v (Filter filterName filterFunction) w1) w1))"
    by (cases x) (auto split: option.splits intro: vueCall_sameButVue)
qed

lemma install_success:
  assumes "install this v opts w = (None, w1)"
  shows "\<exists>os wc w2 w3 w4 w5.
           opts = Some os \<and> adapterOption os \<noteq> None \<and> \<not> isInstalled (plugins w this) \<and>
           registerConfig this
             (updPlugin this (\<lambda>p. p\<lparr>vue := Some v, options := Some os, adapter := adapterOption os\<rparr>)
                (w\<lparr>staticInstance := Some this\<rparr>)) = (None, wc) \<and>
           registerStore this wc = (None, w2) \<and>
           applyMixins this w2 = (None, w3) \<and>
           registerFilters this w3 = (None, w4) \<and>
           registerPendingXModules this w4 = (None, w5) \<and>
           w1 = installed this w5"
proof -
  from assms have ni: "\<not> isInstalled (plugins w this)"
    by (auto simp: install_def)
  with assms obtain os where ok: "assertXPluginOptionsAreValid opts = Inr os"
    by (auto simp: install_def split: sum.splits)
  then have o: "opts = Some os" "adapterOption os \<noteq> None"
    by (auto simp: assertXPluginOptionsAreValid_def split: option.splits)
  let ?w0 = "updPlugin this (\<lambda>p. p\<lparr>vue := Some v, options := Some os, adapter := adapterOption os\<rparr>)
                (w\<lparr>staticInstance := Some this\<rparr>)"
  from assms ni ok have 0:
    "andThen (registerConfig this ?w0) (\<lambda>w1.
             andThen (registerStore this w1) (\<lambda>w2.
             andThen (applyMixins this w2) (\<lambda>w3.
             andThen (registerFilters this w3) (\<lambda>w4.
             andThen (registerPendingXModules this w4) (\<lambda>w5.
               (None, updPlugin this (\<lambda>p. p\<lparr>isInstalled := True\<rparr>) w5)))))) = (None, w1)"
    by (simp add: install_def)
  from andThen_None[OF 0] obtain wc where c: "registerConfig this ?w0 = (None, wc)" and
    1: "andThen (registerStore this wc) (\<lambda>w2.
             andThen (applyMixins this w2) (\<lambda>w3.
             andThen (registerFilters this w3) (\<lambda>w4.
             andThen (registerPendingXModules this w4) (\<lambda>w5.
               (None, updPlugin this (\<lambda>p. p\<lparr>isInstalled := True\<rparr>) w5))))) = (None, w1)"
    by (elim exE conjE) (rule that)
  from andThen_None[OF 1] obtain w2 where s: "registerStore this wc = (None, w2)" and
    2: "andThen (applyMixins this w2) (\<lambda>w3.
             andThen (registerFilters this w3) (\<lambda>w4.
             andThen (registerPendingXModules this w4) (\<lambda>w5.
               (None, updPlugin this (\<lambda>p. p\<lparr>isInstalled := True\<rparr>) w5)))) = (None, w1)"
    by (elim exE conjE) (rule that)
  from andThen_None[OF 2] obtain w3 where m: "applyMixins this w2 = (None, w3)" and
    3: "andThen (registerFilters this w3) (\<lambda>w4.
             andThen (registerPendingXModules this w4) (\<lambda>w5.
               (None, updPlugin this (\<lambda>p. p\<lparr>isInstalled := True\<rparr>) w5))) = (None, w1)"
    by (elim exE conjE) (rule that)
  from andThen_None[OF 3] obtain w4 where f: "registerFilters this w3 = (None, w4)" and
    4: "andThen (registerPendingXModules this w4) (\<lambda>w5.
               (None, updPlugin this (\<lambda>p. p\<lparr>isInstalled := True\<rparr>) w5)) = (None, w1)"
    by (elim exE conjE) (rule that)
  from andThen_None[OF 4] obtain w5 where p: "registerPendingXModules this w4 = (None, w5)" and
    5: "w1 = installed this w5"
    by (auto simp: installed_def)
  from o ni c s m f p 5 show ?thesis
    by (intro exI conjI)
qed

lemma registerConfig_options:
  "registerConfig this w = (None, wc) \<Longrightarrow> options (plugins wc this) = options (plugins w this)"
  by (auto simp: registerConfig_def createAdapterConfigChangedListener_def andThen_def
      registerReactiveConfig_def updPlugin_def Let_def split: option.splits if_splits)

lemma registerPendingXModules_None:
  assumes "registerPendingXModules this w = (None, w1)"
  shows "\<exists>w2. forEach (\<lambda>(key, xm) w1. registerXModule this xm w1) (pendingXModules w) w = (None, w2) \<and>
              w1 = w2\<lparr>pendingXModules := []\<rparr>"
  using assms unfolding registerPendingXModules_def
  by (auto dest!: andThen_None)

lemma names_of_queue:
  assumes "\<forall>(k, xm) \<in> set q. name xm = k"
  shows "map (\<lambda>p. name (snd p)) q = map fst q"
  using assms by (induction q) auto

text \<open>
  Claim C7. While no instance is installed, every registration request is queued under
  the name of its module, a later request for a name replacing the earlier one: after
  any sequence of requests the queue has one entry per name, holding the last request
  of that name. A successful \<^verbatim>\<open>install\<close> drains the queue: it registers every queued
  module, and nothing else, by the registration of a module. After it the installed
  names are the queued ones; the store has received one \<^verbatim>\<open>registerModule\<close> call per
  queued name, after that of the root module; the wires invoked, the watchers of the
  store and the microtasks are those that were there before, followed by the
  invocations of the wires, the watchers of the store emitters and the microtasks of
  the immediate emitters of every queued module, in the order of the queue; and the
  queue is empty.
\<close>

theorem pending_modules_drained:
  assumes "staticInstance w0 = None" and "pendingXModules w0 = []"
    and "installedXModules (plugins w0 this) = {}"
  shows "forEach staticRegisterXModule xms w0 =
           (None, w0\<lparr>pendingXModules := enqueueAll xms []\<rparr>) \<and>
         (\<forall>n. map_of (enqueueAll xms []) n = find (\<lambda>xm. name xm = n) (rev xms)) \<and>
         distinct (map fst (enqueueAll xms [])) \<and>
         (install this v opts (w0\<lparr>pendingXModules := enqueueAll xms []\<rparr>) = (None, w1) \<longrightarrow>
            pendingXModules w1 = [] \<and>
            installedXModules (plugins w1 this) = name ` set xms \<and>
            (\<exists>st os.
               opts = Some os \<and> store (plugins w1 this) = Some st \<and>
               registeredPaths st w1 =
                 (case storeOption os of None \<Rightarrow> [] | Some s \<Rightarrow> registeredPaths s w0) @
                 [''x''] # map (\<lambda>key. [''x'', key]) (map fst (enqueueAll xms [])) \<and>
               wired w1 =
                 wired w0 @
                 concat (map (moduleWires (bus (plugins w0 this)) st os)
                           (map snd (enqueueAll xms []))) \<and>
               watchers (stores w1 st) =
                 (case storeOption os of None \<Rightarrow> [] | Some s \<Rightarrow> watchers (stores w0 s)) @
                 concat (map (moduleWatchers this st os) (map snd (enqueueAll xms []))) \<and>
               microtasks w1 =
                 microtasks w0 @
                 concat (map (moduleTasks this st os) (map snd (enqueueAll xms [])))))"
proof (intro conjI impI allI)
  let ?Q = "enqueueAll xms []"
  let ?wq = "w0\<lparr>pendingXModules := ?Q\<rparr>"
  show "forEach staticRegisterXModule xms w0 = (None, ?wq)"
    using forEach_lazy[OF assms(1), of xms] assms(2) by simp
  show "map_of ?Q n = find (\<lambda>xm. name xm = n) (rev xms)" for n
    by (simp add: map_of_enqueueAll split: option.splits)
  show d: "distinct (map fst ?Q)"
    by (rule distinct_enqueueAll) simp
  assume i: "install this v opts ?wq = (None, w1)"
  from install_success[OF i] obtain os wc w2 w3 w4 w5 where
    os: "opts = Some os" and
    c: "registerConfig this
             (updPlugin this (\<lambda>p. p\<lparr>vue := Some v, options := Some os, adapter := adapterOption os\<rparr>)
                (?wq\<lparr>staticInstance := Some this\<rparr>)) = (None, wc)" and
    ad: "adapterOption os \<noteq> None" and
    s: "registerStore this wc = (None, w2)" and
    m: "applyMixins this w2 = (None, w3)" and
    f: "registerFilters this w3 = (None, w4)" and
    p: "registerPendingXModules this w4 = (None, w5)" and
    w1: "w1 = installed this w5"
    by (elim exE conjE) (rule that)
  let ?w0 = "updPlugin this (\<lambda>p. p\<lparr>vue := Some v, options := Some os, adapter := adapterOption os\<rparr>)
                (?wq\<lparr>staticInstance := Some this\<rparr>)"
  have o0: "options (plugins ?w0 this) = Some os"
    by (simp add: updPlugin_def)
  from ad obtain a where a: "adapterOption os = Some a" by auto
  from registerConfig_valid[OF o0 a] c have
    qc: "pendingXModules wc = ?Q" and ic: "installedXModules (plugins wc this) = {}"
    using assms(3) by (auto simp: updPlugin_def)
  from registerConfig_logs[OF c] have
    lc: "wired wc = wired w0" "microtasks wc = microtasks w0" "stores wc = stores w0"
        "bus (plugins wc this) = bus (plugins w0 this)"
    by (simp_all add: updPlugin_def)
  from registerConfig_options[OF c] o0 have oc: "options (plugins wc this) = Some os"
    by simp
  from registerStore_effect[OF oc s] obtain st where
    st2: "store (plugins w2 this) = Some st" and
    r2: "registeredPaths st w2 =
           (case storeOption os of None \<Rightarrow> [] | Some s \<Rightarrow> registeredPaths s wc) @ [[''x'']]" and
    t2: "watchers (stores w2 st) =
           (case storeOption os of None \<Rightarrow> [] | Some s \<Rightarrow> watchers (stores wc s))" and
    q2': "pendingXModules w2 = pendingXModules wc" and
    i2': "installedXModules (plugins w2 this) = installedXModules (plugins wc this)" and
    o2: "options (plugins w2 this) = Some os" and
    b2': "bus (plugins w2 this) = bus (plugins wc this)" and
    l2': "wired w2 = wired wc" "microtasks w2 = microtasks wc"
    by (elim exE conjE) (rule that)
  have rc: "(case storeOption os of None \<Rightarrow> [] | Some s \<Rightarrow> registeredPaths s wc) =
            (case storeOption os of None \<Rightarrow> [] | Some s \<Rightarrow> registeredPaths s w0)"
    by (simp add: registeredPaths_def lc(3) split: option.splits)
  have tc: "(case storeOption os of None \<Rightarrow> [] | Some s \<Rightarrow> watchers (stores wc s)) =
            (case storeOption os of None \<Rightarrow> [] | Some s \<Rightarrow> watchers (stores w0 s))"
    by (simp add: lc(3) split: option.splits)
  from applyMixins_sameButVue[of w2 this] m have 3: "sameButVue w2 w3" by simp
  from registerFilters_sameButVue[of w3 this] f have 4: "sameButVue w3 w4" by simp
  from 3 4 have e4: "plugins w4 = plugins w2" "stores w4 = stores w2"
    "pendingXModules w4 = pendingXModules w2" "wired w4 = wired w2" "microtasks w4 = microtasks w2"
    by (simp_all add: sameButVue_def)
  have st4: "store (plugins w4 this) = Some st" and
    o4: "options (plugins w4 this) = Some os" and
    b4: "bus (plugins w4 this) = bus (plugins w0 this)" and
    q4: "pendingXModules w4 = ?Q" and i4: "installedXModules (plugins w4 this) = {}" and
    l4: "wired w4 = wired w0" "microtasks w4 = microtasks w0"
    using st2 o2 b2' q2' i2' l2'
    by (simp_all add: e4 lc qc ic)
  have r4: "registeredPaths st w4 =
           (case storeOption os of None \<Rightarrow> [] | Some s \<Rightarrow> registeredPaths s w0) @ [[''x'']]"
  proof -
    have "registeredPaths st w4 = registeredPaths st w2"
      by (simp add: registeredPaths_def e4)
    then show ?thesis
      by (simp only: r2 rc)
  qed
  have t4: "watchers (stores w4 st) =
           (case storeOption os of None \<Rightarrow> [] | Some s \<Rightarrow> watchers (stores w0 s))"
    by (simp only: e4 t2 tc)
  from registerPendingXModules_None[OF p] q4 obtain w5' where
    dr: "forEach (\<lambda>(key, xm) w1. registerXModule this xm w1) ?Q w4 = (None, w5')" and
    w5: "w5 = w5'\<lparr>pendingXModules := []\<rparr>"
    by auto
  have named: "\<forall>(k, xm) \<in> set ?Q. name xm = k"
    by (rule named_enqueueAll) simp
  have nm: "map (\<lambda>p. name (snd p)) ?Q = map fst ?Q"
    by (rule names_of_queue[OF named])
  have dn: "distinct (map (\<lambda>p. name (snd p)) ?Q)"
    unfolding nm by (rule d)
  have nn: "\<forall>p \<in> set ?Q. name (snd p) \<notin> installedXModules (plugins w4 this)"
    by (simp add: i4)
  from drain_effect[OF dn nn st4 o4 dr] have
    r5: "registeredPaths st w5' = registeredPaths st w4 @ map (\<lambda>p. [''x'', name (snd p)]) ?Q" and
    i5: "installedXModules (plugins w5' this) =
           installedXModules (plugins w4 this) \<union> (\<lambda>p. name (snd p)) ` set ?Q" and
    st5: "store (plugins w5' this) = Some st" and
    wi5: "wired w5' =
           wired w4 @ concat (map (\<lambda>p. moduleWires (bus (plugins w4 this)) st os (snd p)) ?Q)" and
    wa5: "watchers (stores w5' st) =
           watchers (stores w4 st) @ concat (map (\<lambda>p. moduleWatchers this st os (snd p)) ?Q)" and
    mt5: "microtasks w5' =
           microtasks w4 @ concat (map (\<lambda>p. moduleTasks this st os (snd p)) ?Q)"
    by simp_all
  have img: "(\<lambda>p. name (snd p)) ` set ?Q = name ` set xms"
  proof -
    have "(\<lambda>p. name (snd p)) ` set ?Q = set (map (\<lambda>p. name (snd p)) ?Q)" by simp
    also have "\<dots> = fst ` set ?Q" unfolding nm by simp
    also have "\<dots> = name ` set xms" by (simp add: keys_enqueueAll)
    finally show ?thesis .
  qed
  have mp: "map (\<lambda>p. [''x'', name (snd p)]) ?Q = map (\<lambda>key. [''x'', key]) (map fst ?Q)"
    using nm by (metis (no_types, lifting) map_map comp_apply map_eq_conv)
  show "pendingXModules w1 = []"
    by (simp add: w1 w5 installed_def updPlugin_def)
  show "installedXModules (plugins w1 this) = name ` set xms"
    by (simp add: w1 w5 installed_def updPlugin_def i5 i4 img)
  have s1: "store (plugins w1 this) = Some st"
    by (simp add: w1 w5 installed_def updPlugin_def st5)
  have r1: "registeredPaths st w1 =
          (case storeOption os of None \<Rightarrow> [] | Some s \<Rightarrow> registeredPaths s w0) @
          [''x''] # map (\<lambda>key. [''x'', key]) (map fst ?Q)"
  proof -
    have "registeredPaths st w1 = registeredPaths st w5'"
      by (simp add: w1 w5 installed_def updPlugin_def registeredPaths_def)
    then show ?thesis
      by (simp add: r5 r4 mp)
  qed
  have wi1: "wired w1 =
          wired w0 @ concat (map (moduleWires (bus (plugins w0 this)) st os) (map snd ?Q))"
  proof -
    have "wired w1 = wired w5'"
      by (simp add: w1 w5 installed_def updPlugin_def)
    then show ?thesis
      by (simp add: wi5 l4 b4 comp_def)
  qed
  have wa1: "watchers (stores w1 st) =
          (case storeOption os of None \<Rightarrow> [] | Some s \<Rightarrow> watchers (stores w0 s)) @
          concat (map (moduleWatchers this st os) (map snd ?Q))"
  proof -
    have "watchers (stores w1 st) = watchers (stores w5' st)"
      by (simp add: w1 w5 installed_def updPlugin_def)
    then show ?thesis
      by (simp add: wa5 t4 comp_def)
  qed
  have mt1: "microtasks w1 =
          microtasks w0 @ concat (map (moduleTasks this st os) (map snd ?Q))"
  proof -
    have "microtasks w1 = microtasks w5'"
      by (simp add: w1 w5 installed_def updPlugin_def)
    then show ?thesis
      by (simp add: mt5 l4 comp_def)
  qed
  from os s1 r1 wi1 wa1 mt1 show "\<exists>st os.
               opts = Some os \<and> store (plugins w1 this) = Some st \<and>
               registeredPaths st w1 =
                 (case storeOption os of None \<Rightarrow> [] | Some s \<Rightarrow> registeredPaths s w0) @
                 [''x''] # map (\<lambda>key. [''x'', key]) (map fst ?Q) \<and>
               wired w1 =
                 wired w0 @
                 concat (map (moduleWires (bus (plugins w0 this)) st os) (map snd ?Q)) \<and>
               watchers (stores w1 st) =
                 (case storeOption os of None \<Rightarrow> [] | Some s \<Rightarrow> watchers (stores w0 s)) @
                 concat (map (moduleWatchers this st os) (map snd ?Q)) \<and>
               microtasks w1 =
                 microtasks w0 @
                 concat (map (moduleTasks this st os) (map snd ?Q))"
    by (intro exI conjI)
qed

lemma queue_eval:
  "enqueueAll [brokenSearchBox, searchBox] [] = [(''searchBox'', searchBox)]"
  "staticInstance moduleWorld = None"
  "pendingXModules moduleWorld = []"
  "installedXModules (plugins moduleWorld 0) = {}"
  by (simp_all add: enqueueAll_def brokenSearchBox_def searchBox_def moduleWorld_def
      exampleWorld_def emptyWorld_def newXPlugin_def)

lemma queuedInstall:
  "fst (install 0 9 (Some exampleOptions) queuedWorld) = None"
  "registeredPaths 3 (snd (install 0 9 (Some exampleOptions) queuedWorld)) =
     [[''x''], [''x'', ''searchBox'']]"
  "store (plugins (snd (install 0 9 (Some exampleOptions) queuedWorld)) 0) = Some 3"
  by (simp_all add: queuedWorld_def example_defs install_eval register_eval registeredPaths_def)

lemma moduleWorld_eval:
  "wired moduleWorld = []"
  "microtasks moduleWorld = []"
  "bus (plugins moduleWorld 0) = 7"
  by (simp_all add: moduleWorld_def exampleWorld_def emptyWorld_def newXPlugin_def)

theorem pending_modules_drained_witness:
  "staticInstance moduleWorld = None \<and> pendingXModules moduleWorld = [] \<and>
   installedXModules (plugins moduleWorld 0) = {} \<and>
   forEach staticRegisterXModule [brokenSearchBox, searchBox] moduleWorld = (None, queuedWorld) \<and>
   pendingXModules queuedWorld = [(''searchBox'', searchBox)] \<and>
   fst (install 0 9 (Some exampleOptions) queuedWorld) = None \<and>
   pendingXModules (snd (install 0 9 (Some exampleOptions) queuedWorld)) = [] \<and>
   installedXModules (plugins (snd (install 0 9 (Some exampleOptions) queuedWorld)) 0) =
     {''searchBox''} \<and>
   registeredPaths 3 (snd (install 0 9 (Some exampleOptions) queuedWorld)) =
     [[''x''], [''x'', ''searchBox'']] \<and>
   wired (snd (install 0 9 (Some exampleOptions) queuedWorld)) =
     [(7, ''UserTyped'', ''setQuery'', 0, Some 3)] \<and>
   map watchEvent (watchers (stores (snd (install 0 9 (Some exampleOptions) queuedWorld)) 3)) =
     [''QueryChanged'', ''ConfigChanged''] \<and>
   map taskEvent (microtasks (snd (install 0 9 (Some exampleOptions) queuedWorld))) =
     [''ConfigChanged'']"
proof -
  define w1 where "w1 = snd (install 0 9 (Some exampleOptions) queuedWorld)"
  have q: "moduleWorld\<lparr>pendingXModules := enqueueAll [brokenSearchBox, searchBox] []\<rparr> = queuedWorld"
    by (simp add: queue_eval queuedWorld_def)
  have i: "install 0 9 (Some exampleOptions) queuedWorld = (None, w1)"
    unfolding w1_def using queuedInstall(1) by (metis prod.collapse)
  have n: "name ` set [brokenSearchBox, searchBox] = {''searchBox''}"
    by (simp add: brokenSearchBox_def searchBox_def)
  have s3: "store (plugins w1 0) = Some 3"
    unfolding w1_def by (rule queuedInstall(3))
  note T = pending_modules_drained[OF queue_eval(2,3,4), of "[brokenSearchBox, searchBox]" 9
      "Some exampleOptions" w1, unfolded q n]
  from T have L:
    "forEach staticRegisterXModule [brokenSearchBox, searchBox] moduleWorld = (None, queuedWorld)"
    by (rule conjunct1)
  from T i obtain st os where
    e: "pendingXModules w1 = []" "installedXModules (plugins w1 0) = {''searchBox''}" and
    os: "Some exampleOptions = Some os" and st: "store (plugins w1 0) = Some st" and
    wi: "wired w1 =
           wired moduleWorld @
           concat (map (moduleWires (bus (plugins moduleWorld 0)) st os)
                     (map snd (enqueueAll [brokenSearchBox, searchBox] [])))" and
    wa: "watchers (stores w1 st) =
           (case storeOption os of None \<Rightarrow> [] | Some s \<Rightarrow> watchers (stores moduleWorld s)) @
           concat (map (moduleWatchers 0 st os) (map snd (enqueueAll [brokenSearchBox, searchBox] [])))" and
    mt: "microtasks w1 =
           microtasks moduleWorld @
           concat (map (moduleTasks 0 st os) (map snd (enqueueAll [brokenSearchBox, searchBox] [])))"
    by (elim conjE impE exE) (assumption, rule that)
  from os st s3 have eq: "os = exampleOptions" "st = 3"
    by simp_all
  have 1: "wired w1 = [(7, ''UserTyped'', ''setQuery'', 0, Some 3)]"
    unfolding wi eq queue_eval(1)
    by (simp add: moduleWorld_eval moduleWires_def moduleOptionsOf_def
        customizedWiring_def wireInvocations_def exampleOptions_def searchBox_def)
  have 2: "map watchEvent (watchers (stores w1 3)) = [''QueryChanged'', ''ConfigChanged'']"
    unfolding wa[unfolded eq] queue_eval(1)
    by (simp add: moduleWatchers_def moduleOptionsOf_def
        customizedStoreEmitters_def emitterWatcher_def exampleOptions_def searchBox_def)
  have 3: "map taskEvent (microtasks w1) = [''ConfigChanged'']"
    unfolding mt eq queue_eval(1)
    by (simp add: moduleWorld_eval moduleTasks_def moduleOptionsOf_def
        customizedStoreEmitters_def emitterTask_def isImmediate_def exampleOptions_def searchBox_def)
  from L e 1 2 3 queue_eval queuedInstall show ?thesis
    unfolding w1_def[symmetric] by (simp add: queuedWorld_def)
qed

section \<open>Updating the configuration\<close>

lemma map_of_setProp': "map_of (setProp k v ps) = (map_of ps)(k \<mapsto> v)"
  by (induction ps) (auto simp: fun_eq_iff)

lemma getProp_setProp: "getProp (setProp k v ps) k' = (if k' = k then v else getProp ps k')"
  by (simp add: getProp_def map_of_setProp')

lemma deepMergeFields_Cons:
  "deepMergeFields t ((k, v) # src) = deepMergeFields (setProp k (mergeValue (getProp t k) v) t) src"
  by (cases v) (simp_all add: mergeValue_def)

lemma map_of_deepMergeFields:
  "distinct (map fst u) \<Longrightarrow>
   map_of (deepMergeFields t u) k =
     (case map_of u k of
        None \<Rightarrow> map_of t k
      | Some v \<Rightarrow> Some (mergeValue (getProp t k) v))"
proof (induction u arbitrary: t)
  case Nil
  show ?case by simp
next
  case (Cons p u)
  obtain k' v' where p: "p = (k', v')" by (cases p)
  from Cons.prems p have d: "distinct (map fst u)" and n: "map_of u k' = None"
    by (auto simp: map_of_eq_None_iff)
  show ?case
  proof (cases "k = k'")
    case True
    with Cons.IH[OF d, of "setProp k' (mergeValue (getProp t k') v') t"] n show ?thesis
      by (simp add: p deepMergeFields_Cons map_of_setProp')
  next
    case False
    with Cons.IH[OF d, of "setProp k' (mergeValue (getProp t k') v') t"] show ?thesis
      by (simp add: p deepMergeFields_Cons map_of_setProp' getProp_setProp split: option.splits)
  qed
qed

lemma uniqueKeys_field:
  "uniqueKeys (JObj u) \<Longrightarrow> map_of u k = Some v \<Longrightarrow> uniqueKeys v"
  by (auto simp: list_all_iff dest!: map_of_SomeD)

lemma fieldAt_Cons:
  "fieldAt (JObj t) (k # ks) = Some v \<Longrightarrow> \<exists>tv. map_of t k = Some tv \<and> fieldAt tv ks = Some v"
  by (auto split: option.splits)

lemma fieldAt_nonobject:
  "fieldAt tv (k # ks) = Some v \<Longrightarrow> \<exists>ts. tv = JObj ts"
  by (cases tv) auto

lemma mentions_nonobject:
  "\<not> mentions uv ks \<Longrightarrow> \<exists>vs k' ks'. uv = JObj vs \<and> ks = k' # ks'"
  by (cases "(uv, ks)" rule: mentions.cases) auto

lemma deepMerge_frame:
  "uniqueKeys (JObj u) \<Longrightarrow> \<not> mentions (JObj u) p \<Longrightarrow> fieldAt (JObj t) p = Some v \<Longrightarrow>
   fieldAt (JObj (deepMergeFields t u)) p = Some v"
proof (induction p arbitrary: t u)
  case Nil
  then show ?case by simp
next
  case (Cons k ks)
  from Cons.prems(1) have d: "distinct (map fst u)" by simp
  from fieldAt_Cons[OF Cons.prems(3)] obtain tv where
    tv: "map_of t k = Some tv" "fieldAt tv ks = Some v" by auto
  show ?case
  proof (cases "map_of u k")
    case None
    with tv show ?thesis
      by (simp add: map_of_deepMergeFields[OF d])
  next
    case (Some uv)
    with Cons.prems(2) have "\<not> mentions uv ks" by simp
    from mentions_nonobject[OF this] obtain vs k' ks' where
      uv: "uv = JObj vs" and ks: "ks = k' # ks'" by auto
    from tv(2) ks obtain ts where ts: "tv = JObj ts"
      using fieldAt_nonobject by blast
    have u': "uniqueKeys (JObj vs)"
      using uniqueKeys_field[OF Cons.prems(1) Some] uv by simp
    have m': "\<not> mentions (JObj vs) ks"
      using Cons.prems(2) Some uv by simp
    have f': "fieldAt (JObj ts) ks = Some v"
      using tv(2) ts by simp
    from Cons.IH[OF u' m' f'] show ?thesis
      by (simp add: map_of_deepMergeFields[OF d] Some uv mergeValue_def getProp_def tv(1) ts)
  qed
qed

lemma leafAt_object: "leafAt (JObj vs) ks = Some v \<Longrightarrow> \<exists>k' ks'. ks = k' # ks'"
  by (cases ks) auto

lemma leafAt_leaf: "leafAt uv ks = Some v \<Longrightarrow> (\<forall>vs. uv \<noteq> JObj vs) \<Longrightarrow> ks = [] \<and> v = uv"
  by (cases "(uv, ks)" rule: leafAt.cases) auto

lemma mergeValue_leaf: "(\<forall>vs. uv \<noteq> JObj vs) \<Longrightarrow> mergeValue old uv = uv"
  by (cases uv) (auto simp: mergeValue_def)

lemma deepMerge_overwrite:
  "uniqueKeys (JObj u) \<Longrightarrow> leafAt (JObj u) p = Some v \<Longrightarrow>
   fieldAt (JObj (deepMergeFields t u)) p = Some v"
proof (induction p arbitrary: t u)
  case Nil
  then show ?case by simp
next
  case (Cons k ks)
  from Cons.prems(1) have d: "distinct (map fst u)" by simp
  from Cons.prems(2) obtain uv where uv: "map_of u k = Some uv" "leafAt uv ks = Some v"
    by (auto split: option.splits)
  show ?case
  proof (cases "\<exists>vs. uv = JObj vs")
    case True
    then obtain vs where vs: "uv = JObj vs" by auto
    have u': "uniqueKeys (JObj vs)"
      using uniqueKeys_field[OF Cons.prems(1) uv(1)] vs by simp
    have l': "leafAt (JObj vs) ks = Some v"
      using uv(2) vs by simp
    from Cons.IH[OF u' l'] show ?thesis
      by (simp add: map_of_deepMergeFields[OF d] uv(1) vs mergeValue_def)
  next
    case False
    with leafAt_leaf[OF uv(2)] have "ks = []" "v = uv" by auto
    with False show ?thesis
      by (simp add: map_of_deepMergeFields[OF d] uv(1) mergeValue_leaf)
  qed
qed

text \<open>
  Claim C8. For an installed config object and a partial update (an object, its keys
  unique), \<^verbatim>\<open>setConfig\<close> merges the update into the contents of the config object in
  place: the instance refers to the same object as before and nothing else changes;
  every field that the config had at a path which the update does not mention keeps its
  value, at every depth; and every field to which the update gives a value that is no
  object has that value afterwards. (With \<^verbatim>\<open>deepMerge\<close> modelled from the spec.)
\<close>

theorem setConfig_deep_merge:
  assumes "xConfig (plugins w this) = Some c" and "uniqueKeys (JObj u)"
  shows "\<exists>w1. setConfig this (JObj u) w = (None, w1) \<and>
           w1 = w\<lparr>configs := (configs w)(c := configs w1 c)\<rparr> \<and>
           xConfig (plugins w1 this) = Some c \<and>
           (\<forall>p v. \<not> mentions (JObj u) p \<and> fieldAt (JObj (configs w c)) p = Some v \<longrightarrow>
                  fieldAt (JObj (configs w1 c)) p = Some v) \<and>
           (\<forall>p v. leafAt (JObj u) p = Some v \<longrightarrow> fieldAt (JObj (configs w1 c)) p = Some v)"
proof -
  let ?w1 = "w\<lparr>configs := (configs w)(c := deepMergeFields (configs w c) u)\<rparr>"
  have 1: "setConfig this (JObj u) w = (None, ?w1)"
    using assms(1) by (simp add: setConfig_def)
  have 2: "configs ?w1 c = deepMergeFields (configs w c) u"
    by simp
  show ?thesis
  proof (intro exI[of _ ?w1] conjI allI impI)
    show "setConfig this (JObj u) w = (None, ?w1)" by (rule 1)
    show "?w1 = w\<lparr>configs := (configs w)(c := configs ?w1 c)\<rparr>" by simp
    show "xConfig (plugins ?w1 this) = Some c" using assms(1) by simp
  next
    fix p v
    assume "\<not> mentions (JObj u) p \<and> fieldAt (JObj (configs w c)) p = Some v"
    then show "fieldAt (JObj (configs ?w1 c)) p = Some v"
      unfolding 2 using deepMerge_frame[OF assms(2)] by blast
  next
    fix p v
    assume "leafAt (JObj u) p = Some v"
    then show "fieldAt (JObj (configs ?w1 c)) p = Some v"
      unfolding 2 by (rule deepMerge_overwrite[OF assms(2)])
  qed
qed

lemma installedConfig:
  "xConfig (plugins installedWorld 0) = Some 2"
  "configs installedWorld 2 =
     [(''consent'', JBool True),
      (''currencyOptions'', JObj [(''symbol'', JStr ''$''), (''decimals'', JNum 2)])]"
  by (simp_all add: installedWorld_def example_defs install_eval getProp_def)

theorem setConfig_deep_merge_witness:
  "xConfig (plugins installedWorld 0) = Some 2 \<and>
   uniqueKeys (JObj [(''currencyOptions'', JObj [(''decimals'', JNum 0)])]) \<and>
   fst (setConfig 0 (JObj [(''currencyOptions'', JObj [(''decimals'', JNum 0)])]) installedWorld) = None \<and>
   xConfig (plugins (snd (setConfig 0 (JObj [(''currencyOptions'', JObj [(''decimals'', JNum 0)])])
      installedWorld)) 0) = Some 2 \<and>
   fieldAt (JObj (configs (snd (setConfig 0 (JObj [(''currencyOptions'', JObj [(''decimals'', JNum 0)])])
      installedWorld)) 2)) [''consent''] = Some (JBool True) \<and>
   fieldAt (JObj (configs (snd (setConfig 0 (JObj [(''currencyOptions'', JObj [(''decimals'', JNum 0)])])
      installedWorld)) 2)) [''currencyOptions'', ''symbol''] = Some (JStr ''$'') \<and>
   fieldAt (JObj (configs (snd (setConfig 0 (JObj [(''currencyOptions'', JObj [(''decimals'', JNum 0)])])
      installedWorld)) 2)) [''currencyOptions'', ''decimals''] = Some (JNum 0)"
proof -
  let ?u = "[(''currencyOptions'', JObj [(''decimals'', JNum 0)])]"
  have u: "uniqueKeys (JObj ?u)" by simp
  from setConfig_deep_merge[OF installedConfig(1) u] obtain w1 where
    s: "setConfig 0 (JObj ?u) installedWorld = (None, w1)" and
    x: "xConfig (plugins w1 0) = Some 2" and
    keep: "\<forall>p v. \<not> mentions (JObj ?u) p \<and> fieldAt (JObj (configs installedWorld 2)) p = Some v \<longrightarrow>
                  fieldAt (JObj (configs w1 2)) p = Some v" and
    upd: "\<forall>p v. leafAt (JObj ?u) p = Some v \<longrightarrow> fieldAt (JObj (configs w1 2)) p = Some v"
    by (elim exE conjE) (rule that)
  have 1: "fieldAt (JObj (configs w1 2)) [''consent''] = Some (JBool True)"
    by (rule keep[rule_format]) (simp add: installedConfig)
  have 2: "fieldAt (JObj (configs w1 2)) [''currencyOptions'', ''symbol''] = Some (JStr ''$'')"
    by (rule keep[rule_format]) (simp add: installedConfig)
  have 3: "fieldAt (JObj (configs w1 2)) [''currencyOptions'', ''decimals''] = Some (JNum 0)"
    by (rule upd[rule_format]) simp
  from s x 1 2 3 u installedConfig(1) show ?thesis
    by simp
qed

section \<open>The config mutation\<close>

lemma hasModuleConfig_iff:
  "hasModuleConfig d = Inr True \<longleftrightarrow> hasTruthyConfig d"
  by (cases "state d"; cases "stateOf d")
     (auto simp: hasModuleConfig_def hasTruthyConfig_def stateOf_def split: sum.splits)

lemma hasModuleConfig_cases:
  "hasModuleConfig d = Inr (hasTruthyConfig d) \<or> hasModuleConfig d = Inl TypeError"
  by (cases "state d"; cases "stateOf d")
     (auto simp: hasModuleConfig_def hasTruthyConfig_def stateOf_def split: sum.splits)

lemma setProp_absent: "map_of ps k = None \<Longrightarrow> setProp k v ps = ps @ [(k, v)]"
  by (induction ps) (auto split: if_splits)

lemma addConfigMutation_adds:
  assumes "hasTruthyConfig (storeModules w m)" and "\<not> definesSetConfig (storeModules w m)"
  shows "addConfigMutation m w =
           (None, updStoreModule m
              (\<lambda>d. d\<lparr>mutations := Some (mutationsOf d @ [(''setConfig'', DefaultSetConfig)])\<rparr>) w)"
proof -
  from assms(1) have h: "hasModuleConfig (storeModules w m) = Inr True"
    by (simp add: hasModuleConfig_iff)
  show ?thesis
  proof (cases "mutations (storeModules w m)")
    case None
    with h show ?thesis
      by (simp add: addConfigMutation_def updStoreModule_def mutationsOf_def
          getDefaultSetConfigMutation_def)
  next
    case (Some ms)
    with assms(2) have "map_of ms ''setConfig'' = None"
      by (simp add: definesSetConfig_def)
    with h Some show ?thesis
      by (simp add: addConfigMutation_def updStoreModule_def mutationsOf_def
          getDefaultSetConfigMutation_def setProp_absent)
  qed
qed

lemma addConfigMutation_keeps:
  assumes "definesSetConfig (storeModules w m) \<or> \<not> hasTruthyConfig (storeModules w m)"
  shows "snd (addConfigMutation m w) = w"
proof -
  from hasModuleConfig_cases[of "storeModules w m"] show ?thesis
  proof
    assume h: "hasModuleConfig (storeModules w m) = Inr (hasTruthyConfig (storeModules w m))"
    show ?thesis
    proof (cases "hasTruthyConfig (storeModules w m)")
      case True
      with assms have "definesSetConfig (storeModules w m)" by simp
      with h True show ?thesis
        by (auto simp: addConfigMutation_def definesSetConfig_def split: option.splits)
    next
      case False
      with h show ?thesis by (simp add: addConfigMutation_def)
    qed
  next
    assume "hasModuleConfig (storeModules w m) = Inl TypeError"
    then show ?thesis by (simp add: addConfigMutation_def)
  qed
qed

lemma map_of_objectAssign:
  "distinct (map fst config) \<Longrightarrow>
   map_of (objectAssign cs config) k =
     (case map_of config k of None \<Rightarrow> map_of cs k | Some v \<Rightarrow> Some v)"
  unfolding objectAssign_def
proof (induction config arbitrary: cs)
  case Nil
  show ?case by simp
next
  case (Cons p config)
  obtain k' v' where p: "p = (k', v')" by (cases p)
  from Cons.prems p have d: "distinct (map fst config)" and n: "map_of config k' = None"
    by (auto simp: map_of_eq_None_iff)
  from Cons.IH[OF d, of "setProp k' v' cs"] n show ?case
    by (auto simp: p map_of_setProp split: option.splits)
qed

text \<open>
  Claim C4, as stated, fails: a store module whose state contains the key \<^verbatim>\<open>config\<close>
  with the value \<^verbatim>\<open>null\<close>, and whose mutations have no \<^verbatim>\<open>setConfig\<close>, gets no
  mutation from \<^verbatim>\<open>addConfigMutation\<close>, which tests the value under the key for
  truthiness and not the presence of the key.
\<close>

theorem addConfigMutation_null_config:
  "hasConfigKey (storeModules nullConfigWorld 1) \<and>
   \<not> definesSetConfig (storeModules nullConfigWorld 1) \<and>
   addConfigMutation 1 nullConfigWorld = (None, nullConfigWorld) \<and>
   \<not> definesSetConfig (storeModules (snd (addConfigMutation 1 nullConfigWorld)) 1)"
  by (simp add: nullConfigWorld_def nullConfigModule_def hasConfigKey_def stateOf_def
      definesSetConfig_def addConfigMutation_def hasModuleConfig_def getProp_def)

text \<open>
  Claim C4, amended. If the value of \<^verbatim>\<open>config\<close> in the state of a store module is truthy
  and its mutations have no entry \<^verbatim>\<open>setConfig\<close>, then \<^verbatim>\<open>addConfigMutation\<close> adds the
  default mutation under \<^verbatim>\<open>setConfig\<close> and changes nothing else; if the module defines
  \<^verbatim>\<open>setConfig\<close>, or the value of \<^verbatim>\<open>config\<close> is absent or falsy, then no mutation is
  added or replaced: the state is left as it was. The default mutation, called on a state
  whose \<^verbatim>\<open>config\<close> is an object and with a new config, assigns every field of the new
  config to that object, the value as it is, and keeps the other fields of it.
\<close>

theorem addConfigMutation_truthy_config:
  "(hasTruthyConfig (storeModules w m) \<and> \<not> definesSetConfig (storeModules w m) \<longrightarrow>
      addConfigMutation m w =
        (None, updStoreModule m
           (\<lambda>d. d\<lparr>mutations :=
              Some (mutationsOf d @ [(''setConfig'', getDefaultSetConfigMutation)])\<rparr>) w)) \<and>
   (definesSetConfig (storeModules w m) \<or> \<not> hasTruthyConfig (storeModules w m) \<longrightarrow>
      snd (addConfigMutation m w) = w) \<and>
   (map_of fs ''config'' = Some (JObj cs) \<and> distinct (map fst config) \<longrightarrow>
      callMutation getDefaultSetConfigMutation (JObj fs) config =
        Some (Inr (JObj (setProp ''config'' (JObj (objectAssign cs config)) fs))) \<and>
      (\<forall>k. map_of (objectAssign cs config) k =
             (case map_of config k of None \<Rightarrow> map_of cs k | Some v \<Rightarrow> Some v)))"
proof (intro conjI impI allI)
  assume "hasTruthyConfig (storeModules w m) \<and> \<not> definesSetConfig (storeModules w m)"
  then show "addConfigMutation m w =
        (None, updStoreModule m
           (\<lambda>d. d\<lparr>mutations :=
              Some (mutationsOf d @ [(''setConfig'', getDefaultSetConfigMutation)])\<rparr>) w)"
    using addConfigMutation_adds[of w m] by (simp add: getDefaultSetConfigMutation_def)
next
  assume "definesSetConfig (storeModules w m) \<or> \<not> hasTruthyConfig (storeModules w m)"
  then show "snd (addConfigMutation m w) = w"
    by (rule addConfigMutation_keeps)
next
  assume a: "map_of fs ''config'' = Some (JObj cs) \<and> distinct (map fst config)"
  then show "callMutation getDefaultSetConfigMutation (JObj fs) config =
        Some (Inr (JObj (setProp ''config'' (JObj (objectAssign cs config)) fs)))"
    by (simp add: getDefaultSetConfigMutation_def getProp_def)
next
  fix k
  assume a: "map_of fs ''config'' = Some (JObj cs) \<and> distinct (map fst config)"
  then show "map_of (objectAssign cs config) k =
             (case map_of config k of None \<Rightarrow> map_of cs k | Some v \<Rightarrow> Some v)"
    by (simp add: map_of_objectAssign)
qed

theorem addConfigMutation_truthy_config_witness:
  "hasTruthyConfig (storeModules moduleWorld 1) \<and> \<not> definesSetConfig (storeModules moduleWorld 1) \<and>
   fst (addConfigMutation 1 moduleWorld) = None \<and>
   mutations (storeModules (snd (addConfigMutation 1 moduleWorld)) 1) =
     Some [(''setQuery'', Mutation 0), (''setConfig'', DefaultSetConfig)] \<and>
   \<not> hasTruthyConfig (storeModules nullConfigWorld 1) \<and>
   snd (addConfigMutation 1 nullConfigWorld) = nullConfigWorld \<and>
   callMutation DefaultSetConfig
     (JObj [(''query'', JStr []), (''config'', JObj [(''debounce'', JNum 200)])])
     [(''debounce'', JNum 300), (''instant'', JBool True)] =
     Some (Inr (JObj [(''query'', JStr []),
                      (''config'', JObj [(''debounce'', JNum 300), (''instant'', JBool True)])]))"
proof -
  have h: "hasTruthyConfig (storeModules moduleWorld 1)"
    "\<not> definesSetConfig (storeModules moduleWorld 1)"
    "mutationsOf (storeModules moduleWorld 1) = [(''setQuery'', Mutation 0)]"
    by (simp_all add: moduleWorld_def searchBoxStoreModule_def hasTruthyConfig_def stateOf_def
        definesSetConfig_def mutationsOf_def getProp_def)
  have n: "\<not> hasTruthyConfig (storeModules nullConfigWorld 1)"
    by (simp add: nullConfigWorld_def nullConfigModule_def hasTruthyConfig_def stateOf_def getProp_def)
  let ?fs = "[(''query'', JStr []), (''config'', JObj [(''debounce'', JNum 200)])]"
  let ?config = "[(''debounce'', JNum 300), (''instant'', JBool True)]"
  have c: "map_of ?fs ''config'' = Some (JObj [(''debounce'', JNum 200)])" "distinct (map fst ?config)"
    by simp_all
  from addConfigMutation_truthy_config[of moduleWorld 1 ?fs "[(''debounce'', JNum 200)]" ?config] h c
  have 1: "addConfigMutation 1 moduleWorld =
        (None, updStoreModule 1
           (\<lambda>d. d\<lparr>mutations :=
              Some (mutationsOf d @ [(''setConfig'', getDefaultSetConfigMutation)])\<rparr>) moduleWorld)"
    and 3: "callMutation getDefaultSetConfigMutation (JObj ?fs) ?config =
        Some (Inr (JObj (setProp ''config''
           (JObj (objectAssign [(''debounce'', JNum 200)] ?config)) ?fs)))"
    by blast+
  from addConfigMutation_truthy_config[of nullConfigWorld 1] n
  have 2: "snd (addConfigMutation 1 nullConfigWorld) = nullConfigWorld"
    by blast
  from 1 h(3) have r1: "fst (addConfigMutation 1 moduleWorld) = None"
    "mutations (storeModules (snd (addConfigMutation 1 moduleWorld)) 1) =
     Some [(''setQuery'', Mutation 0), (''setConfig'', DefaultSetConfig)]"
    by (simp_all add: updStoreModule_def getDefaultSetConfigMutation_def)
  from 3 have r3: "callMutation DefaultSetConfig (JObj ?fs) ?config =
     Some (Inr (JObj [(''query'', JStr []),
                      (''config'', JObj [(''debounce'', JNum 300), (''instant'', JBool True)])]))"
    by (simp add: getDefaultSetConfigMutation_def objectAssign_def)
  from h n r1 2 r3 show ?thesis by simp
qed

section \<open>Registration writes to the caller's store module\<close>

lemma registerStoreModule_plain:
  assumes "getModuleOptions this n w = Inr xo"
    and "(case xo of None \<Rightarrow> None | Some opts \<Rightarrow> storeModuleOptions opts) = None"
  shows "registerStoreModule this n m w =
           andThen (addConfigMutation m (updStoreModule m (\<lambda>d. d\<lparr>namespaced := Some True\<rparr>) w))
             (\<lambda>w2. case store (plugins w2 this) of
                      None \<Rightarrow> (Some TypeError, w2)
                    | Some st \<Rightarrow> storeRegisterModule st [''x'', n] (StoreModuleAt m) w2)"
  using assms by (simp add: registerStoreModule_def)

lemma registerTail_storeModules:
  "storeModules (snd (case store (plugins wa this) of
                      None \<Rightarrow> (Some TypeError, wa)
                    | Some st \<Rightarrow> storeRegisterModule st path mr wa)) = storeModules wa"
  by (auto simp: storeRegisterModule_def updStore_def split: option.splits)

text \<open>
  Claim C9, as stated, fails in its condition on the state: a store module whose state
  has the key \<^verbatim>\<open>config\<close> with the value \<^verbatim>\<open>0\<close> and whose mutations have no
  \<^verbatim>\<open>setConfig\<close> is registered without a \<^verbatim>\<open>setConfig\<close> being inserted.
\<close>

theorem registerStoreModule_zero_config:
  "hasConfigKey (storeModules zeroConfigWorld 1) \<and>
   \<not> definesSetConfig (storeModules zeroConfigWorld 1) \<and>
   getModuleOptions 0 ''related'' zeroConfigWorld = Inr None \<and>
   fst (registerStoreModule 0 ''related'' 1 zeroConfigWorld) = None \<and>
   namespaced (storeModules (snd (registerStoreModule 0 ''related'' 1 zeroConfigWorld)) 1) = Some True \<and>
   mutations (storeModules (snd (registerStoreModule 0 ''related'' 1 zeroConfigWorld)) 1) = Some []"
  by (simp add: zeroConfigWorld_def zeroConfigModule_def example_defs install_eval register_eval
      hasConfigKey_def stateOf_def definesSetConfig_def)

text \<open>
  Claim C9, amended. When a module is registered and the install options have no
  override of its store module, \<^verbatim>\<open>registerStoreModule\<close> writes to the descriptor object
  that the caller supplied, whether or not the registration then succeeds: its
  \<^verbatim>\<open>namespaced\<close> is set to true and, when the value of \<^verbatim>\<open>config\<close> in its state is truthy
  and it has no \<^verbatim>\<open>setConfig\<close> mutation, the default mutation is added to its mutations
  under \<^verbatim>\<open>setConfig\<close>; its other fields and all other descriptors are unchanged. A
  registration that succeeds has handed this same object to the store.
\<close>

theorem registerStoreModule_in_place:
  assumes "getModuleOptions this n w = Inr xo"
    and "(case xo of None \<Rightarrow> None | Some opts \<Rightarrow> storeModuleOptions opts) = None"
    and "registerStoreModule this n m w = (r, w1)"
  shows "namespaced (storeModules w1 m) = Some True \<and>
         state (storeModules w1 m) = state (storeModules w m) \<and>
         getters (storeModules w1 m) = getters (storeModules w m) \<and>
         actions (storeModules w1 m) = actions (storeModules w m) \<and>
         (hasTruthyConfig (storeModules w m) \<and> \<not> definesSetConfig (storeModules w m) \<longrightarrow>
            mutations (storeModules w1 m) =
              Some (mutationsOf (storeModules w m) @ [(''setConfig'', getDefaultSetConfigMutation)])) \<and>
         (definesSetConfig (storeModules w m) \<or> \<not> hasTruthyConfig (storeModules w m) \<longrightarrow>
            mutations (storeModules w1 m) = mutations (storeModules w m)) \<and>
         (\<forall>a. a \<noteq> m \<longrightarrow> storeModules w1 a = storeModules w a) \<and>
         (r = None \<longrightarrow>
            (\<exists>st. store (plugins w this) = Some st \<and>
                  registered (stores w1 st) =
                    registered (stores w st) @ [([''x'', n], StoreModuleAt m)]))"
proof -
  define w' where "w' = updStoreModule m (\<lambda>d. d\<lparr>namespaced := Some True\<rparr>) w"
  obtain r2 w2 where a: "addConfigMutation m w' = (r2, w2)"
    by (cases "addConfigMutation m w'")
  have d': "hasTruthyConfig (storeModules w' m) = hasTruthyConfig (storeModules w m)"
    "definesSetConfig (storeModules w' m) = definesSetConfig (storeModules w m)"
    "mutationsOf (storeModules w' m) = mutationsOf (storeModules w m)"
    by (simp_all add: w'_def updStoreModule_def hasTruthyConfig_def stateOf_def
        definesSetConfig_def mutationsOf_def)
  have eq: "registerStoreModule this n m w =
          andThen (r2, w2)
             (\<lambda>w2. case store (plugins w2 this) of
                      None \<Rightarrow> (Some TypeError, w2)
                    | Some st \<Rightarrow> storeRegisterModule st [''x'', n] (StoreModuleAt m) w2)"
    using registerStoreModule_plain[OF assms(1,2)] a by (simp add: w'_def)
  have sm: "storeModules w1 = storeModules w2"
  proof (cases r2)
    case None
    with eq assms(3) have "(case store (plugins w2 this) of
                      None \<Rightarrow> (Some TypeError, w2)
                    | Some st \<Rightarrow> storeRegisterModule st [''x'', n] (StoreModuleAt m) w2) = (r, w1)"
      by (simp add: andThen_def)
    with registerTail_storeModules[where wa=w2 and this=this and path="[''x'', n]"
        and mr="StoreModuleAt m"]
    show ?thesis by simp
  next
    case (Some e)
    with eq assms(3) show ?thesis by (simp add: andThen_def)
  qed
  have adds: "hasTruthyConfig (storeModules w m) \<and> \<not> definesSetConfig (storeModules w m) \<Longrightarrow>
      w2 = updStoreModule m
           (\<lambda>d. d\<lparr>mutations := Some (mutationsOf d @ [(''setConfig'', DefaultSetConfig)])\<rparr>) w'"
    using addConfigMutation_adds[of w' m] a d' by simp
  have keeps: "definesSetConfig (storeModules w m) \<or> \<not> hasTruthyConfig (storeModules w m) \<Longrightarrow> w2 = w'"
    using addConfigMutation_keeps[of w' m] a d' by simp
  have w2: "w2 = w' \<or> w2 = updStoreModule m
           (\<lambda>d. d\<lparr>mutations := Some (mutationsOf d @ [(''setConfig'', DefaultSetConfig)])\<rparr>) w'"
    using adds keeps by blast
  have logs: "sameLogs w w2"
    using addConfigMutation_logs[of w' m] a by (simp add: sameLogs_def w'_def updStoreModule_def)
  show ?thesis
  proof (intro conjI impI allI)
    show "namespaced (storeModules w1 m) = Some True"
      using w2 by (auto simp: sm w'_def updStoreModule_def)
    show "state (storeModules w1 m) = state (storeModules w m)"
      using w2 by (auto simp: sm w'_def updStoreModule_def)
    show "getters (storeModules w1 m) = getters (storeModules w m)"
      using w2 by (auto simp: sm w'_def updStoreModule_def)
    show "actions (storeModules w1 m) = actions (storeModules w m)"
      using w2 by (auto simp: sm w'_def updStoreModule_def)
    show "storeModules w1 a = storeModules w a" if "a \<noteq> m" for a
      using w2 that by (auto simp: sm w'_def updStoreModule_def)
  next
    assume "hasTruthyConfig (storeModules w m) \<and> \<not> definesSetConfig (storeModules w m)"
    from adds[OF this] show "mutations (storeModules w1 m) =
              Some (mutationsOf (storeModules w m) @ [(''setConfig'', getDefaultSetConfigMutation)])"
      using d'(3) by (simp add: sm updStoreModule_def getDefaultSetConfigMutation_def)
  next
    assume "definesSetConfig (storeModules w m) \<or> \<not> hasTruthyConfig (storeModules w m)"
    from keeps[OF this] show "mutations (storeModules w1 m) = mutations (storeModules w m)"
      by (simp add: sm w'_def updStoreModule_def)
  next
    assume "r = None"
    with eq assms(3) have r2: "r2 = None" and
      t: "(case store (plugins w2 this) of
                      None \<Rightarrow> (Some TypeError, w2)
                    | Some st \<Rightarrow> storeRegisterModule st [''x'', n] (StoreModuleAt m) w2) = (None, w1)"
      by (cases r2; simp add: andThen_def)+
    from t obtain st where st: "store (plugins w2 this) = Some st"
      and reg: "storeRegisterModule st [''x'', n] (StoreModuleAt m) w2 = (None, w1)"
      by (auto split: option.splits)
    from reg logs st show "\<exists>st. store (plugins w this) = Some st \<and>
                  registered (stores w1 st) =
                    registered (stores w st) @ [([''x'', n], StoreModuleAt m)]"
      by (auto simp: storeRegisterModule_def updStore_def sameLogs_def split: option.splits)
  qed
qed

lemma installedModule:
  "getModuleOptions 0 ''searchBox'' installedWorld = Inr None"
  "storeModules installedWorld 1 = searchBoxStoreModule"
  "registered (stores installedWorld 3) = [([''x''], RootXStoreModule)]"
  "fst (registerStoreModule 0 ''searchBox'' 1 installedWorld) = None"
  by (simp_all add: installedWorld_def example_defs install_eval register_eval)

theorem registerStoreModule_in_place_witness:
  "getModuleOptions 0 ''searchBox'' installedWorld = Inr None \<and>
   fst (registerStoreModule 0 ''searchBox'' 1 installedWorld) = None \<and>
   hasTruthyConfig (storeModules installedWorld 1) \<and>
   \<not> definesSetConfig (storeModules installedWorld 1) \<and>
   namespaced (storeModules installedWorld 1) = None \<and>
   namespaced (storeModules (snd (registerStoreModule 0 ''searchBox'' 1 installedWorld)) 1) = Some True \<and>
   mutations (storeModules (snd (registerStoreModule 0 ''searchBox'' 1 installedWorld)) 1) =
     Some [(''setQuery'', Mutation 0), (''setConfig'', DefaultSetConfig)] \<and>
   registered (stores (snd (registerStoreModule 0 ''searchBox'' 1 installedWorld)) 3) =
     [([''x''], RootXStoreModule), ([''x'', ''searchBox''], StoreModuleAt 1)]"
proof -
  define w1 where "w1 = snd (registerStoreModule 0 ''searchBox'' 1 installedWorld)"
  have r: "registerStoreModule 0 ''searchBox'' 1 installedWorld = (None, w1)"
    unfolding w1_def using installedModule(4) by (metis prod.collapse)
  have n: "(case None :: xModuleOptions option of None \<Rightarrow> None | Some opts \<Rightarrow> storeModuleOptions opts) = None"
    by simp
  have h: "hasTruthyConfig (storeModules installedWorld 1)"
    "\<not> definesSetConfig (storeModules installedWorld 1)"
    "mutationsOf (storeModules installedWorld 1) = [(''setQuery'', Mutation 0)]"
    "namespaced (storeModules installedWorld 1) = None"
    using installedModule(2)
    by (simp_all add: searchBoxStoreModule_def hasTruthyConfig_def stateOf_def
        definesSetConfig_def mutationsOf_def getProp_def)
  from registerStoreModule_in_place[OF installedModule(1) n r] h
  have 1: "namespaced (storeModules w1 1) = Some True"
    and 2: "mutations (storeModules w1 1) =
              Some (mutationsOf (storeModules installedWorld 1) @
                    [(''setConfig'', getDefaultSetConfigMutation)])"
    and 3: "\<exists>st. store (plugins installedWorld 0) = Some st \<and>
                  registered (stores w1 st) =
                    registered (stores installedWorld st) @ [([''x'', ''searchBox''], StoreModuleAt 1)]"
    by blast+
  from 3 have 4: "registered (stores w1 3) =
     [([''x''], RootXStoreModule), ([''x'', ''searchBox''], StoreModuleAt 1)]"
    by (auto simp: installedWorld_eval installedModule)
  from 1 2 4 h installedModule show ?thesis
    unfolding w1_def[symmetric] by (simp add: getDefaultSetConfigMutation_def)
qed

end
